(* ===== verification/Prelude.thy ===== *)
theory Prelude
  imports Main "HOL-Library.Word" "HOL-Library.Sublist"
begin

text \<open>
  Shared vocabulary of the firmware model: machine faults and the result type of code that
  may fault, the C types of the source as \<^theory_text>\<open>type_synonym\<close>s, the collections of
  rewrite rules the component theories extend, and generic facts on lists and words.

  A fault is the end of the normal C semantics: an access outside an object, a dereference of
  a null (or null-derived) pointer, a call of \<open>abort\<close> (also through \<open>ESP_ERROR_CHECK\<close> and
  \<open>assert\<close>), or another undefined operation such as a floating-point value converted to an
  integer type that cannot hold it. \<open>NoFuel\<close> is not a fault of the code: it is the value of a
  loop that has no bound of its own and was cut off by the model's.
\<close>

unbundle bit_operations_syntax

named_theorems buf_simps \<open>rewrite rules for bounded writes into fixed-size buffers\<close>
named_theorems cmd_simps \<open>rewrite rules that run command sequences\<close>
named_theorems esc_simps \<open>rewrite rules for JSON escaping\<close>

type_synonym u8 = "8 word"
type_synonym u16 = "16 word"
type_synonym u32 = "32 word"

text \<open>The C error codes the firmware compares against (\<open>esp_err.h\<close>).\<close>

type_synonym esp_err = int

abbreviation (input) ESP_OK :: esp_err where "ESP_OK \<equiv> 0"
abbreviation (input) ESP_FAIL :: esp_err where "ESP_FAIL \<equiv> - 1"

subsection \<open>Faults\<close>

datatype fault = OutOfBounds | NullDeref | Aborted | Undefined | Unmodelled | NoFuel

type_synonym 'a result = "fault + 'a"

definition bindE :: "'a result \<Rightarrow> ('a \<Rightarrow> 'b result) \<Rightarrow> 'b result" where
  "bindE m f = (case m of Inl k \<Rightarrow> Inl k | Inr x \<Rightarrow> f x)"

lemma bindE_simps [simp]:
  "bindE (Inl k) f = Inl k"
  "bindE (Inr x) f = f x"
  by (simp_all add: bindE_def)

lemma bindE_eq_Inr: "bindE m f = Inr y \<longleftrightarrow> (\<exists>x. m = Inr x \<and> f x = Inr y)"
  by (cases m) simp_all

lemma bindE_eq_Inl:
  "bindE m f = Inl k \<longleftrightarrow> m = Inl k \<or> (\<exists>x. m = Inr x \<and> f x = Inl k)"
  by (cases m) simp_all

lemma bindE_assoc: "bindE (bindE m f) g = bindE m (\<lambda>x. bindE (f x) g)"
  by (cases m) simp_all

lemma bindE_cong [fundef_cong]:
  "m = m' \<Longrightarrow> (\<And>x. m' = Inr x \<Longrightarrow> f x = f' x) \<Longrightarrow> bindE m f = bindE m' f'"
  by (cases m') simp_all

text \<open>Evaluate a guard that C leaves to the programmer.\<close>

definition guardE :: "bool \<Rightarrow> fault \<Rightarrow> unit result" where
  "guardE b k = (if b then Inr () else Inl k)"

lemma guardE_simps [simp]:
  "guardE True k = Inr ()"
  "guardE False k = Inl k"
  by (simp_all add: guardE_def)

lemma guardE_eq_Inr [simp]: "guardE b k = Inr u \<longleftrightarrow> b"
  by (simp add: guardE_def)

subsection \<open>Integers\<close>

text \<open>Division of signed integers by a positive one, as C does it: towards zero.\<close>

definition c_div :: "int \<Rightarrow> int \<Rightarrow> int" where
  "c_div a b = (if 0 \<le> a then a div b else - (- a div b))"

text \<open>A value computed in a 32-bit signed type; overflow is undefined.\<close>

definition int32 :: "int \<Rightarrow> int result" where
  "int32 i = (if - (2 ^ 31) \<le> i \<and> i < 2 ^ 31 then Inr i else Inl Undefined)"

subsection \<open>Lists\<close>

lemma takeWhile_no: "x \<notin> set xs \<Longrightarrow> takeWhile (\<lambda>c. c \<noteq> x) (xs @ x # ys) = xs"
  by (induction xs) auto

lemma takeWhile_no_end: "x \<notin> set xs \<Longrightarrow> takeWhile (\<lambda>c. c \<noteq> x) xs = xs"
  by auto

lemma dropWhile_no: "x \<notin> set xs \<Longrightarrow> dropWhile (\<lambda>c. c \<noteq> x) (xs @ x # ys) = x # ys"
  by (induction xs) auto

lemma nth_append_mid: "length xs = n \<Longrightarrow> (xs @ y # ys) ! n = y"
  by (auto simp: nth_append)

lemma sum_list_le_bound:
  fixes xs :: "nat list"
  assumes "\<And>x. x \<in> set xs \<Longrightarrow> x \<le> b"
  shows "sum_list xs \<le> length xs * b"
  using assms by (induction xs) (auto simp: add_mono)

lemma nth_drop_hd: "i < length xs \<Longrightarrow> drop i xs = xs ! i # drop (Suc i) xs"
  by (simp add: Cons_nth_drop_Suc)

lemma upt_add_Suc: "[a..<a + Suc n] = a # [Suc a..<Suc a + n]"
  by (subst upt_conv_Cons) (simp_all del: upt_Suc)

subsection \<open>Words\<close>

lemma unat_u8_less: "unat (b :: u8) < 256"
  using unsigned_less [of b] by simp

lemma unat_u8_le: "unat (b :: u8) \<le> 255"
  using unat_u8_less [of b] by simp

lemma unat_u16_less: "unat (b :: u16) < 65536"
  using unsigned_less [of b] by simp

lemma unat_u32_less: "unat (b :: u32) < 4294967296"
  using unsigned_less [of b] by simp

lemma unat_ucast_u8_u16 [simp]: "unat (ucast (b :: u8) :: u16) = unat b"
  by (simp add: unsigned_ucast_eq take_bit_nat_eq_self unat_u8_less [THEN order_less_trans])

lemma unat_ucast_u8_u32 [simp]: "unat (ucast (b :: u8) :: u32) = unat b"
  by (simp add: unsigned_ucast_eq take_bit_nat_eq_self unat_u8_less [THEN order_less_trans])

text \<open>A big-endian pair of bytes, read as the code does (shift left by 8, then or).\<close>

definition be16 :: "u8 \<Rightarrow> u8 \<Rightarrow> u16" where
  "be16 hi lo = push_bit 8 (ucast hi) OR ucast lo"

lemma be16_disjoint: "push_bit 8 (ucast (hi :: u8) :: u16) AND ucast (lo :: u8) = 0"
  by (rule bit_word_eqI) (auto simp: bit_simps dest: bit_imp_le_length)

lemma be16_add: "be16 hi lo = push_bit 8 (ucast hi) + ucast lo"
  using be16_disjoint [of hi lo] by (simp add: be16_def disjunctive_add_eq_or)

lemma unat_be16: "unat (be16 hi lo) = unat hi * 256 + unat lo"
proof -
  have "unat (push_bit 8 (ucast hi) :: u16) = unat hi * 256"
    using unat_u8_less [of hi]
    by (simp add: push_bit_eq_mult unat_word_ariths)
  then show ?thesis
    using unat_u8_less [of hi] unat_u8_less [of lo]
    by (simp add: be16_add unat_word_ariths)
qed

end
