(* ===== verification/CString.thy ===== *)
theory CString
  imports Prelude
begin

text \<open>
  The part of the C string library the firmware uses, over byte buffers of a fixed size.

  A buffer is a list of characters whose length is the size of the C object; a write that would
  leave it is the fault \<open>OutOfBounds\<close>. A C string is the text in front of the first NUL of a
  buffer, and reading one from a buffer that holds no NUL is the same fault. Plain \<open>char\<close> is an
  unsigned byte, as it is in the ABI of the Xtensa cores the firmware is compiled for.
\<close>

abbreviation nul :: char where "nul \<equiv> CHR 0x00"
abbreviation cr :: char where "cr \<equiv> CHR 0x0D"
abbreviation lf :: char where "lf \<equiv> CHR 0x0A"
abbreviation (input) crlf :: string where "crlf \<equiv> [cr, lf]"

subsection \<open>Bounded buffers\<close>

definition buf_write :: "string \<Rightarrow> nat \<Rightarrow> string \<Rightarrow> string result" where
  "buf_write b i s =
     (if s = [] then Inr b
      else if i + length s \<le> length b then Inr (take i b @ s @ drop (i + length s) b)
      else Inl OutOfBounds)"

definition c_str :: "string \<Rightarrow> string" where
  "c_str b = takeWhile (\<lambda>c. c \<noteq> nul) b"

definition strlen :: "string \<Rightarrow> nat result" where
  "strlen b = (if nul \<in> set b then Inr (length (c_str b)) else Inl OutOfBounds)"

definition memset :: "string \<Rightarrow> char \<Rightarrow> nat \<Rightarrow> string result" where
  "memset b c n = buf_write b 0 (replicate n c)"

definition strcpy :: "string \<Rightarrow> string \<Rightarrow> string result" where
  "strcpy b s = buf_write b 0 (s @ [nul])"

definition strcat :: "string \<Rightarrow> string \<Rightarrow> string result" where
  "strcat b s = bindE (strlen b) (\<lambda>n. buf_write b n (s @ [nul]))"

text \<open>\<open>sprintf (b + off, ...)\<close> and \<open>snprintf (b + off, size, ...)\<close> with the formatted text.\<close>

definition sprintf :: "string \<Rightarrow> nat \<Rightarrow> string \<Rightarrow> string result" where
  "sprintf b off txt = buf_write b off (txt @ [nul])"

definition snprintf :: "string \<Rightarrow> nat \<Rightarrow> nat \<Rightarrow> string \<Rightarrow> string result" where
  "snprintf b off sz txt =
     (if sz = 0 then Inr b else buf_write b off (take (sz - 1) txt @ [nul]))"

text \<open>
  \<open>strncpy (b + off, src, n)\<close>: at most \<open>n\<close> bytes up to the NUL of \<open>src\<close>, then NULs up to
  \<open>n\<close>; no terminator when \<open>src\<close> has \<open>n\<close> bytes or more.
\<close>

definition strncpy :: "string \<Rightarrow> nat \<Rightarrow> string \<Rightarrow> nat \<Rightarrow> string result" where
  "strncpy b off src n =
     (let s = c_str (take n src)
      in if length src < n \<and> nul \<notin> set src then Inl OutOfBounds
         else buf_write b off (s @ replicate (n - length s) nul))"

text \<open>The buffer of size \<open>cap\<close> holds the C string \<open>s\<close>.\<close>

definition holds :: "nat \<Rightarrow> string \<Rightarrow> string \<Rightarrow> bool" where
  "holds cap s b \<longleftrightarrow> length b = cap \<and> nul \<notin> set s \<and> take (Suc (length s)) b = s @ [nul]"

lemma holds_cases:
  assumes "holds cap s b"
  obtains r where "b = s @ nul # r" and "nul \<notin> set s" and "cap = Suc (length s + length r)"
proof -
  have "b = (s @ [nul]) @ drop (Suc (length s)) b"
    using assms by (metis append_take_drop_id holds_def)
  then show ?thesis
    using assms that [of "drop (Suc (length s)) b"]
    by (metis add_Suc_right append_Cons append_Nil append_assoc holds_def length_Cons length_append)
qed

lemma holdsI: "nul \<notin> set s \<Longrightarrow> cap = Suc (length s + length r) \<Longrightarrow> holds cap s (s @ nul # r)"
  by (simp add: holds_def)

lemma holds_c_str: "holds cap s b \<Longrightarrow> c_str b = s"
  by (erule holds_cases) (simp add: c_str_def takeWhile_no)

lemma holds_strlen: "holds cap s b \<Longrightarrow> strlen b = Inr (length s)"
  using holds_c_str by (fastforce simp: strlen_def elim: holds_cases)

lemma holds_len: "holds cap s b \<Longrightarrow> length s < cap"
  by (erule holds_cases) simp

lemma holds_length: "holds cap s b \<Longrightarrow> length b = cap"
  by (simp add: holds_def)

lemma buf_write_length: "buf_write b i s = Inr b' \<Longrightarrow> length b' = length b"
  by (auto simp: buf_write_def split: if_splits)

lemma buf_write_fits [buf_simps]:
  "i + length s \<le> length b \<Longrightarrow> buf_write b i s = Inr (take i b @ s @ drop (i + length s) b)"
  by (auto simp: buf_write_def)

lemma buf_write_over [buf_simps]:
  "s \<noteq> [] \<Longrightarrow> length b < i + length s \<Longrightarrow> buf_write b i s = Inl OutOfBounds"
  by (auto simp: buf_write_def)

lemma buf_write_at:
  "buf_write (pre @ rest) (length pre) s =
    (if length s \<le> length rest then Inr (pre @ s @ drop (length s) rest) else Inl OutOfBounds)"
  by (auto simp: buf_write_def)

lemma buf_write_at_add:
  "buf_write (pre @ q @ rest) (length pre + length q) s =
    (if length s \<le> length rest then Inr (pre @ q @ s @ drop (length s) rest) else Inl OutOfBounds)"
  using buf_write_at [of "pre @ q" rest s] by simp

lemma buf_write_keeps:
  "buf_write b i s = Inl OutOfBounds \<or> (\<exists>b'. buf_write b i s = Inr b' \<and> length b' = length b)"
  by (auto simp: buf_write_def)

text \<open>Writing text and a terminator at the end of the held string appends to it.\<close>

definition app_to :: "string \<Rightarrow> string \<Rightarrow> string \<Rightarrow> string" where
  "app_to s t b = s @ t @ nul # drop (Suc (length s + length t)) b"

lemma buf_append:
  assumes "holds cap s b"
  shows "buf_write b (length s) (t @ [nul]) =
    (if length s + length t < cap then Inr (app_to s t b) else Inl OutOfBounds)"
proof -
  obtain r where "b = s @ nul # r" "cap = Suc (length s + length r)"
    using assms by (rule holds_cases)
  then show ?thesis
    by (auto simp: buf_write_def app_to_def)
qed

lemma app_to_holds:
  "holds cap s b \<Longrightarrow> nul \<notin> set t \<Longrightarrow> length s + length t < cap \<Longrightarrow>
   holds cap (s @ t) (app_to s t b)"
  by (erule holds_cases) (auto simp: app_to_def holds_def)

lemma strcat_append:
  "holds cap s b \<Longrightarrow> strcat b t =
    (if length s + length t < cap then Inr (app_to s t b) else Inl OutOfBounds)"
  by (simp add: strcat_def holds_strlen buf_append)

lemma sprintf_append:
  "holds cap s b \<Longrightarrow> sprintf b (length s) t =
    (if length s + length t < cap then Inr (app_to s t b) else Inl OutOfBounds)"
  by (simp add: sprintf_def buf_append)

lemma strcpy_fits:
  "strcpy b s = (if length s < length b then Inr (s @ nul # drop (Suc (length s)) b)
                 else Inl OutOfBounds)"
  by (auto simp: strcpy_def buf_write_def)

lemma strcpy_holds:
  "nul \<notin> set s \<Longrightarrow> strcpy b s = Inr b' \<Longrightarrow> holds (length b) s b'"
  by (auto simp: strcpy_fits holds_def split: if_splits)

subsection \<open>Searching\<close>

text \<open>\<open>strstr\<close> returns the text from the first occurrence on.\<close>

fun strstr :: "string \<Rightarrow> string \<Rightarrow> string option" where
  "strstr [] n = (if n = [] then Some [] else None)"
| "strstr (c # h) n = (if prefix n (c # h) then Some (c # h) else strstr h n)"

text \<open>
  \<open>strchr (p, c) + 1\<close> on a pointer into a buffer, given as the rest of the buffer from the
  pointer on: a missing \<open>c\<close> makes the next access go through \<open>NULL + 1\<close>.
\<close>

definition strchr_next :: "char \<Rightarrow> string \<Rightarrow> string result" where
  "strchr_next c p =
     (case dropWhile (\<lambda>x. x \<noteq> nul \<and> x \<noteq> c) p of
        [] \<Rightarrow> Inl OutOfBounds
      | x # r \<Rightarrow> if x = c then Inr r else Inl NullDeref)"

text \<open>
  \<open>strtok_r\<close> with a single delimiter: the token and the text behind it (the delimiter that ends
  the token is consumed), or nothing when only delimiters are left.
\<close>

definition strtok :: "char \<Rightarrow> string \<Rightarrow> (string \<times> string) option" where
  "strtok d s =
     (case dropWhile (\<lambda>c. c = d) s of
        [] \<Rightarrow> None
      | t \<Rightarrow> Some (takeWhile (\<lambda>c. c \<noteq> d) t, tl (dropWhile (\<lambda>c. c \<noteq> d) t)))"

lemma strstr_Some:
  "strstr h n = Some r \<Longrightarrow> \<exists>p t. h = p @ r \<and> r = n @ t"
proof (induction h n rule: strstr.induct)
  case (2 c h n)
  show ?case
  proof (cases "prefix n (c # h)")
    case True
    with 2(2) have "r = c # h" by simp
    moreover obtain t where "c # h = n @ t" using True by (auto simp: prefix_def)
    ultimately show ?thesis by auto
  next
    case False
    with 2 obtain p t where "h = p @ r" "r = n @ t" by auto
    then show ?thesis by (metis append_Cons)
  qed
qed (auto split: if_splits)

lemma strstr_None_iff: "strstr h n = None \<longleftrightarrow> \<not> sublist n h"
  by (induction h n rule: strstr.induct) (auto simp: sublist_Cons_right)

lemma strtok_nonempty: "strtok d s = Some (t, r) \<Longrightarrow> t \<noteq> [] \<and> d \<notin> set t"
proof -
  assume tok: "strtok d s = Some (t, r)"
  then obtain c cs where cs: "dropWhile (\<lambda>c. c = d) s = c # cs"
    by (auto simp: strtok_def split: list.splits)
  then have "c \<noteq> d" by (simp add: dropWhile_eq_Cons_conv)
  with tok cs show ?thesis
    by (auto simp: strtok_def dest: set_takeWhileD)
qed

subsection \<open>Numbers as text\<close>

definition digit_char :: "nat \<Rightarrow> char" where
  "digit_char d = char_of (if d < 10 then 48 + d else 87 + d)"

definition digit_char_upper :: "nat \<Rightarrow> char" where
  "digit_char_upper d = char_of (if d < 10 then 48 + d else 55 + d)"

fun show_base :: "(nat \<Rightarrow> char) \<Rightarrow> nat \<Rightarrow> nat \<Rightarrow> string" where
  "show_base f b n =
     (if b < 2 \<or> n < b then [f n] else show_base f b (n div b) @ [f (n mod b)])"

declare show_base.simps [simp del]

definition pad0 :: "nat \<Rightarrow> string \<Rightarrow> string" where
  "pad0 w s = replicate (w - length s) (CHR ''0'') @ s"

text \<open>The conversions \<open>%u\<close>/\<open>%llu\<close>, \<open>%d\<close>, \<open>%0wd\<close>, \<open>%x\<close>, \<open>%0wx\<close> and \<open>%0wX\<close>.\<close>

definition fmt_u :: "nat \<Rightarrow> string" where
  "fmt_u n = show_base digit_char 10 n"

definition fmt_d :: "int \<Rightarrow> string" where
  "fmt_d i = (if i < 0 then CHR ''-'' # fmt_u (nat (- i)) else fmt_u (nat i))"

definition fmt_0d :: "nat \<Rightarrow> nat \<Rightarrow> string" where
  "fmt_0d w n = pad0 w (fmt_u n)"

definition fmt_x :: "nat \<Rightarrow> string" where
  "fmt_x n = show_base digit_char 16 n"

definition fmt_0x :: "nat \<Rightarrow> nat \<Rightarrow> string" where
  "fmt_0x w n = pad0 w (fmt_x n)"

definition fmt_0X :: "nat \<Rightarrow> nat \<Rightarrow> string" where
  "fmt_0X w n = pad0 w (show_base digit_char_upper 16 n)"

lemma of_char_digit_char:
  "d < 16 \<Longrightarrow> (of_char (digit_char d) :: nat) = (if d < 10 then 48 + d else 87 + d)"
  by (simp add: digit_char_def)

lemma of_char_digit_char_upper:
  "d < 16 \<Longrightarrow> (of_char (digit_char_upper d) :: nat) = (if d < 10 then 48 + d else 55 + d)"
  by (simp add: digit_char_upper_def)

text \<open>The value of a hexadecimal digit of either case.\<close>

definition hexdig_val :: "char \<Rightarrow> nat" where
  "hexdig_val c = (let n = of_char c in if n < 58 then n - 48 else if n < 71 then n - 55 else n - 87)"

lemma hexdig_val_digit_char: "d < 16 \<Longrightarrow> hexdig_val (digit_char d) = d"
  by (simp add: hexdig_val_def of_char_digit_char)

lemma hexdig_val_digit_char_upper: "d < 16 \<Longrightarrow> hexdig_val (digit_char_upper d) = d"
  by (simp add: hexdig_val_def of_char_digit_char_upper)

lemma zero_digit: "CHR ''0'' = digit_char 0" "CHR ''0'' = digit_char_upper 0"
  by code_simp+

lemma show_base_two:
  assumes "2 \<le> b" and "n < b * b"
  shows "show_base f b n = (if n < b then [f n] else [f (n div b), f (n mod b)])"
proof (cases "n < b")
  case True
  then show ?thesis by (simp add: show_base.simps [of f b n])
next
  case False
  have "n div b < b"
    using assms by (simp add: less_mult_imp_div_less)
  then show ?thesis
    using assms False by (simp add: show_base.simps [of f b n] show_base.simps [of f b "n div b"])
qed

lemma fmt_0x_two: "n < 256 \<Longrightarrow> fmt_0x 2 n = [digit_char (n div 16), digit_char (n mod 16)]"
  by (auto simp: fmt_0x_def fmt_x_def pad0_def show_base_two zero_digit(1) numeral_2_eq_2)

lemma fmt_0X_two:
  "n < 256 \<Longrightarrow> fmt_0X 2 n = [digit_char_upper (n div 16), digit_char_upper (n mod 16)]"
  by (auto simp: fmt_0X_def pad0_def show_base_two zero_digit(2) numeral_2_eq_2)

lemma fmt_0d_two:
  "n < 100 \<Longrightarrow> fmt_0d 2 n = [digit_char (n div 10), digit_char (n mod 10)]"
  by (auto simp: fmt_0d_def fmt_u_def pad0_def show_base_two zero_digit(1) numeral_2_eq_2)

lemma length_show_base:
  assumes "2 \<le> b" and "n < b ^ k" and "0 < k"
  shows "length (show_base f b n) \<le> k"
  using assms(2,3)
proof (induction k arbitrary: n)
  case (Suc k)
  show ?case
  proof (cases "n < b")
    case True
    then show ?thesis by (simp add: show_base.simps [of f b n])
  next
    case False
    then have "k \<noteq> 0" using Suc.prems by (cases k) auto
    moreover have "n div b < b ^ k"
      using Suc.prems by (simp add: less_mult_imp_div_less mult.commute)
    ultimately have "length (show_base f b (n div b)) \<le> k"
      using Suc.IH by simp
    then show ?thesis
      using False assms(1) by (simp add: show_base.simps [of f b n])
  qed
qed simp

lemma set_show_base: "2 \<le> b \<Longrightarrow> set (show_base f b n) \<subseteq> f ` {..<b}"
proof (induction f b n rule: show_base.induct)
  case (1 f b n)
  then show ?case
    by (subst show_base.simps) auto
qed

lemma nul_not_digit: "d < 16 \<Longrightarrow> digit_char d \<noteq> nul" "d < 16 \<Longrightarrow> digit_char_upper d \<noteq> nul"
  using of_char_digit_char [of d] of_char_digit_char_upper [of d] by (auto split: if_splits)

lemma nul_notin_show_base:
  assumes "2 \<le> b" "b \<le> 16"
  shows "nul \<notin> set (show_base digit_char b n)"
proof
  assume "nul \<in> set (show_base digit_char b n)"
  then obtain d where "d < b" "nul = digit_char d"
    using set_show_base [OF assms(1), of digit_char n] by auto
  then show False using nul_not_digit(1) [of d] assms(2) by simp
qed

lemma nul_notin_fmt_u: "nul \<notin> set (fmt_u n)"
  by (simp add: fmt_u_def nul_notin_show_base)

lemma nul_notin_fmt_d: "nul \<notin> set (fmt_d i)"
  by (simp add: fmt_d_def nul_notin_fmt_u)

lemma length_fmt_u: "n < 10 ^ k \<Longrightarrow> 0 < k \<Longrightarrow> length (fmt_u n) \<le> k"
  by (simp add: fmt_u_def length_show_base)

subsection \<open>Text as numbers\<close>

definition is_space :: "char \<Rightarrow> bool" where
  "is_space c \<longleftrightarrow> c = CHR '' '' \<or> (9 \<le> (of_char c :: nat) \<and> (of_char c :: nat) \<le> 13)"

definition is_digit :: "char \<Rightarrow> bool" where
  "is_digit c \<longleftrightarrow> 48 \<le> (of_char c :: nat) \<and> (of_char c :: nat) \<le> 57"

definition digit_val :: "char \<Rightarrow> nat" where
  "digit_val c = of_char c - 48"

fun digits_val :: "nat \<Rightarrow> string \<Rightarrow> nat" where
  "digits_val acc [] = acc"
| "digits_val acc (c # cs) = digits_val (10 * acc + digit_val c) cs"

text \<open>The sign of a number and the text behind it.\<close>

definition sign_of :: "string \<Rightarrow> int \<times> string" where
  "sign_of s = (case s of c # cs \<Rightarrow> (if c = CHR ''-'' then (- 1, cs)
                                    else if c = CHR ''+'' then (1, cs) else (1, s))
                | [] \<Rightarrow> (1, []))"

text \<open>
  \<open>atol\<close> (and \<open>atoi\<close>): blanks, a sign, digits; the text behind the digits is not looked at.
  The value is the mathematical one; the callers check that it fits.
\<close>

definition atol :: "string \<Rightarrow> int" where
  "atol s = (let (sg, t) = sign_of (dropWhile is_space s)
             in sg * int (digits_val 0 (takeWhile is_digit t)))"

lemma digits_val_append: "digits_val acc (xs @ ys) = digits_val (digits_val acc xs) ys"
  by (induction xs arbitrary: acc) auto

lemma is_digit_digit_char: "d < 10 \<Longrightarrow> is_digit (digit_char d)"
  by (simp add: is_digit_def of_char_digit_char)

lemma digit_val_digit_char: "d < 10 \<Longrightarrow> digit_val (digit_char d) = d"
  by (simp add: digit_val_def of_char_digit_char)

lemma digits_val_fmt_u: "digits_val 0 (fmt_u n) = n"
proof (induction n rule: less_induct)
  case (less n)
  show ?case
  proof (cases "n < 10")
    case True
    then show ?thesis by (simp add: fmt_u_def show_base.simps [of _ _ n] digit_val_digit_char)
  next
    case False
    then have "digits_val 0 (fmt_u (n div 10)) = n div 10"
      using less by simp
    then show ?thesis
      using False by (simp add: fmt_u_def show_base.simps [of _ _ n] digits_val_append digit_val_digit_char)
  qed
qed

lemma fmt_u_digits: "\<forall>c\<in>set (fmt_u n). is_digit c"
  using set_show_base [of 10 digit_char n] by (auto simp: fmt_u_def is_digit_digit_char)

lemma fmt_u_nonempty: "fmt_u n \<noteq> []"
  by (simp add: fmt_u_def show_base.simps [of _ _ n])

lemma is_digit_not_special:
  "is_digit c \<Longrightarrow> \<not> is_space c" "is_digit c \<Longrightarrow> c \<noteq> CHR ''-''" "is_digit c \<Longrightarrow> c \<noteq> CHR ''+''"
  by (auto simp: is_digit_def is_space_def)

text \<open>Printing with \<open>%d\<close> and reading with \<open>atoi\<close> gives the number back.\<close>

lemma sign_of_fmt_u: "sign_of (dropWhile is_space (fmt_u n)) = (1, fmt_u n)"
proof -
  obtain c cs where "fmt_u n = c # cs" by (cases "fmt_u n") (auto simp: fmt_u_nonempty)
  moreover from this have "is_digit c" using fmt_u_digits [of n] by simp
  ultimately show ?thesis
    using is_digit_not_special [of c] by (simp add: sign_of_def)
qed

lemma takeWhile_digit_fmt_u: "takeWhile is_digit (fmt_u n) = fmt_u n"
  using fmt_u_digits by simp

lemma atol_fmt_d: "atol (fmt_d i) = i"
proof (cases "i < 0")
  case True
  then have "sign_of (dropWhile is_space (fmt_d i)) = (- 1, fmt_u (nat (- i)))"
    by (simp add: fmt_d_def sign_of_def is_space_def)
  with True show ?thesis
    by (simp add: atol_def takeWhile_digit_fmt_u digits_val_fmt_u)
next
  case False
  then show ?thesis
    by (simp add: atol_def fmt_d_def sign_of_fmt_u takeWhile_digit_fmt_u digits_val_fmt_u)
qed

end
