(* ===== verification/Json.thy ===== *)
theory Json
  imports CString
begin

text \<open>
  The JSON string printer of \<open>main/json.c\<close> (a cut-down cJSON). The C function makes two passes
  over its input, one to count the extra bytes that escaping needs and one to copy, and trusts
  the caller for the size of the output. The model keeps both passes, the fast path and every
  byte write; the main result is that it is one bounded write of the escaped text, and that a
  JSON reader gets the input back.
\<close>

subsection \<open>The code\<close>

abbreviation dquote :: char where "dquote \<equiv> CHR 0x22"
abbreviation bslash :: char where "bslash \<equiv> CHR 0x5C"

text \<open>\<open>strchr\<close> of a character other than NUL in the list of one-character escapes.\<close>

definition one_char_escape :: "char \<Rightarrow> bool" where
  "one_char_escape c \<longleftrightarrow>
     c \<in> {dquote, bslash, CHR 0x08, CHR 0x0C, CHR 0x0A, CHR 0x0D, CHR 0x09}"

fun escape_characters :: "string \<Rightarrow> nat" where
  "escape_characters [] = 0"
| "escape_characters (c # cs) =
     (if one_char_escape c then 1 else if (of_char c :: nat) < 32 then 5 else 0)
     + escape_characters cs"

text \<open>The \<open>switch\<close> of the copying loop; it returns the buffer and the output position.\<close>

definition json_escape_switch :: "char \<Rightarrow> string \<Rightarrow> nat \<Rightarrow> (string \<times> nat) result" where
  "json_escape_switch c b p =
     (if c = bslash then bindE (buf_write b p [bslash]) (\<lambda>b. Inr (b, p))
      else if c = dquote then bindE (buf_write b p [dquote]) (\<lambda>b. Inr (b, p))
      else if c = CHR 0x08 then bindE (buf_write b p ''b'') (\<lambda>b. Inr (b, p))
      else if c = CHR 0x0C then bindE (buf_write b p ''f'') (\<lambda>b. Inr (b, p))
      else if c = CHR 0x0A then bindE (buf_write b p ''n'') (\<lambda>b. Inr (b, p))
      else if c = CHR 0x0D then bindE (buf_write b p ''r'') (\<lambda>b. Inr (b, p))
      else if c = CHR 0x09 then bindE (buf_write b p ''t'') (\<lambda>b. Inr (b, p))
      else bindE (sprintf b p (CHR ''u'' # fmt_0x 4 (of_char c))) (\<lambda>b. Inr (b, p + 4)))"

fun json_copy :: "string \<Rightarrow> string \<Rightarrow> nat \<Rightarrow> string result" where
  "json_copy [] b p = Inr b"
| "json_copy (c # cs) b p =
     (if 31 < (of_char c :: nat) \<and> c \<noteq> dquote \<and> c \<noteq> bslash
      then bindE (buf_write b p [c]) (\<lambda>b. json_copy cs b (p + 1))
      else bindE (buf_write b p [bslash]) (\<lambda>b.
           bindE (json_escape_switch c b (p + 1)) (\<lambda>(b, p). json_copy cs b (p + 1))))"

text \<open>The body behind the null checks: the input text, the output object and the offset in it.\<close>

definition json_print_buf :: "string \<Rightarrow> string \<Rightarrow> nat \<Rightarrow> string result" where
  "json_print_buf input b off =
     (let esc = escape_characters input; output_length = length input + esc in
      if esc = 0
      then bindE (buf_write b off [dquote]) (\<lambda>b.
           bindE (buf_write b (off + 1) (take output_length input)) (\<lambda>b.
           bindE (buf_write b (off + output_length + 1) [dquote]) (\<lambda>b.
           buf_write b (off + output_length + 2) [nul])))
      else bindE (buf_write b off [dquote]) (\<lambda>b.
           bindE (json_copy input b (off + 1)) (\<lambda>b.
           bindE (buf_write b (off + output_length + 1) [dquote]) (\<lambda>b.
           buf_write b (off + output_length + 2) [nul]))))"

text \<open>The whole function: a null output or a null input makes it return false.\<close>

definition json_print_string ::
    "string option \<Rightarrow> string option \<Rightarrow> nat \<Rightarrow> (bool \<times> string option) result" where
  "json_print_string input out off =
     (case out of
        None \<Rightarrow> Inr (False, None)
      | Some b \<Rightarrow>
          (case input of
             None \<Rightarrow> Inr (False, Some b)
           | Some s \<Rightarrow> bindE (json_print_buf s b off) (\<lambda>b. Inr (True, Some b))))"

subsection \<open>What it should print\<close>

definition json_esc1 :: "char \<Rightarrow> string" where
  "json_esc1 c =
     (if c = dquote then [bslash, dquote]
      else if c = bslash then [bslash, bslash]
      else if c = CHR 0x08 then [bslash, CHR ''b'']
      else if c = CHR 0x0C then [bslash, CHR ''f'']
      else if c = CHR 0x0A then [bslash, CHR ''n'']
      else if c = CHR 0x0D then [bslash, CHR ''r'']
      else if c = CHR 0x09 then [bslash, CHR ''t'']
      else if (of_char c :: nat) < 32 then bslash # CHR ''u'' # fmt_0x 4 (of_char c)
      else [c])"

definition json_escape :: "string \<Rightarrow> string" where
  "json_escape s = concat (map json_esc1 s)"

definition json_quoted :: "string \<Rightarrow> string" where
  "json_quoted s = dquote # json_escape s @ [dquote]"

text \<open>
  A reader of JSON strings (RFC 8259), from behind the opening quote to the closing one: the
  text and what follows it.
\<close>

fun json_unescape :: "string \<Rightarrow> (string \<times> string) option" where
  "json_unescape [] = None"
| "json_unescape (c # cs) =
     (if c = dquote then Some ([], cs)
      else if c = bslash then
        (case cs of
           [] \<Rightarrow> None
         | e # r \<Rightarrow>
             if e = CHR ''u'' then
               (case r of
                  h1 # h2 # h3 # h4 # r' \<Rightarrow>
                    map_option (apfst (Cons (char_of
                      (hexdig_val h1 * 4096 + hexdig_val h2 * 256
                       + hexdig_val h3 * 16 + hexdig_val h4)))) (json_unescape r')
                | _ \<Rightarrow> None)
             else
               (case map_of [(dquote, dquote), (bslash, bslash), (CHR ''b'', CHR 0x08),
                             (CHR ''f'', CHR 0x0C), (CHR ''n'', CHR 0x0A),
                             (CHR ''r'', CHR 0x0D), (CHR ''t'', CHR 0x09)] e of
                  None \<Rightarrow> None
                | Some x \<Rightarrow> map_option (apfst (Cons x)) (json_unescape r)))
      else if (of_char c :: nat) < 32 then None
      else map_option (apfst (Cons c)) (json_unescape cs))"

declare json_unescape.simps [simp del]

subsection \<open>Lengths and characters of the escaped text\<close>

lemma json_escape_simps [esc_simps]:
  "json_escape [] = []"
  "json_escape (c # cs) = json_esc1 c @ json_escape cs"
  "json_escape (xs @ ys) = json_escape xs @ json_escape ys"
  by (simp_all add: json_escape_def)

lemma fmt_0x_ctrl:
  assumes "n < 32"
  shows "fmt_0x 4 n = [CHR ''0'', CHR ''0'', digit_char (n div 16), digit_char (n mod 16)]"
proof (cases "n < 16")
  case True
  then show ?thesis
    by (simp add: fmt_0x_def fmt_x_def pad0_def show_base_two numeral_3_eq_3 zero_digit(1) [symmetric])
next
  case False
  then show ?thesis
    using assms by (simp add: fmt_0x_def fmt_x_def pad0_def show_base_two numeral_2_eq_2)
qed

lemma length_json_esc1:
  "length (json_esc1 c) =
     1 + (if one_char_escape c then 1 else if (of_char c :: nat) < 32 then 5 else 0)"
  by (simp add: json_esc1_def one_char_escape_def fmt_0x_ctrl)

lemma length_json_escape: "length (json_escape s) = length s + escape_characters s"
  by (induction s) (simp_all add: json_escape_simps length_json_esc1)

lemma json_esc1_plain:
  "31 < (of_char c :: nat) \<Longrightarrow> c \<noteq> dquote \<Longrightarrow> c \<noteq> bslash \<Longrightarrow> json_esc1 c = [c]"
  by (auto simp: json_esc1_def)

lemma one_char_escape_plain:
  "\<not> one_char_escape c \<Longrightarrow> \<not> (of_char c :: nat) < 32 \<Longrightarrow> json_esc1 c = [c]"
  by (auto simp: json_esc1_def one_char_escape_def)

lemma json_escape_none: "escape_characters s = 0 \<Longrightarrow> json_escape s = s"
  by (induction s) (auto simp: json_escape_simps one_char_escape_plain split: if_splits)

lemma json_esc1_printable: "\<forall>x\<in>set (json_esc1 c). 32 \<le> (of_char x :: nat)"
  by (auto simp: json_esc1_def fmt_0x_ctrl of_char_digit_char)

lemma json_escape_printable: "\<forall>x\<in>set (json_escape s). 32 \<le> (of_char x :: nat)"
  using json_esc1_printable by (auto simp: json_escape_def)

lemma nul_notin_json_escape: "nul \<notin> set (json_escape s)"
  using json_escape_printable [of s] by fastforce

lemma length_json_escape_le: "length (json_escape s) \<le> 6 * length s"
  by (induction s) (auto simp: json_escape_simps length_json_esc1)

subsection \<open>The printer is one bounded write\<close>

text \<open>
  Every branch of the \<open>switch\<close> writes the escape's text behind the backslash; the
  \<open>sprintf\<close> branch also writes a NUL behind it, which a later write replaces.
\<close>

lemma json_switch_one:
  assumes "one_char_escape c"
  shows "\<exists>y. json_esc1 c = [bslash, y]
    \<and> (\<forall>b p. json_escape_switch c b p = bindE (buf_write b p [y]) (\<lambda>b. Inr (b, p)))"
  using assms unfolding one_char_escape_def
  by (elim insertE emptyE; simp add: json_esc1_def json_escape_switch_def)

lemma json_switch_form:
  assumes "(of_char c :: nat) < 32 \<or> c = dquote \<or> c = bslash"
  shows "\<exists>y ys t. json_esc1 c = bslash # y # ys \<and> length t \<le> 1
    \<and> (\<forall>b p. json_escape_switch c b p =
          bindE (buf_write b p (y # ys @ t)) (\<lambda>b. Inr (b, p + length ys)))"
proof (cases "one_char_escape c")
  case True
  then obtain y where "json_esc1 c = [bslash, y]"
    and "\<forall>b p. json_escape_switch c b p = bindE (buf_write b p [y]) (\<lambda>b. Inr (b, p))"
    using json_switch_one by blast
  then show ?thesis by (intro exI [of _ y] exI [of _ "[]"]) simp
next
  case False
  then have ctl: "(of_char c :: nat) < 32" using assms by (auto simp: one_char_escape_def)
  have "json_esc1 c = bslash # CHR ''u'' # fmt_0x 4 (of_char c)"
    using False ctl by (simp add: json_esc1_def one_char_escape_def)
  moreover have "json_escape_switch c b p =
      bindE (buf_write b p (CHR ''u'' # fmt_0x 4 (of_char c) @ [nul])) (\<lambda>b. Inr (b, p + 4))" for b p
    using False by (simp add: json_escape_switch_def one_char_escape_def sprintf_def)
  moreover have "length (fmt_0x 4 (of_char c)) = 4"
    using ctl by (simp add: fmt_0x_ctrl)
  ultimately show ?thesis
    by (intro exI [of _ "CHR ''u''"] exI [of _ "fmt_0x 4 (of_char c)"] exI [of _ "[nul]"]) simp
qed

lemma json_switch_ok:
  assumes ctl: "(of_char c :: nat) < 32 \<or> c = dquote \<or> c = bslash"
    and esc: "json_esc1 c = bslash # y # ys"
    and room: "Suc (length ys) < length rest"
  shows "\<exists>x. json_escape_switch c (pre @ rest) (length pre) =
      Inr (pre @ y # ys @ x # drop (Suc (Suc (length ys))) rest, length pre + length ys)"
proof -
  obtain t where "length t \<le> 1" and "json_escape_switch c (pre @ rest) (length pre) =
      bindE (buf_write (pre @ rest) (length pre) (y # ys @ t)) (\<lambda>b. Inr (b, length pre + length ys))"
    using json_switch_form [OF ctl] esc by auto
  then show ?thesis
    using room by (cases t) (auto simp: buf_write_at nth_drop_hd)
qed

lemma json_copy_ok:
  "length (json_escape cs) < length rest \<Longrightarrow>
   \<exists>x. json_copy cs (pre @ rest) (length pre) =
     Inr (pre @ json_escape cs @ x # drop (Suc (length (json_escape cs))) rest)"
proof (induction cs arbitrary: pre rest)
  case Nil
  then show ?case by (cases rest) (auto simp: json_escape_simps)
next
  case (Cons c cs)
  obtain x r where r: "rest = x # r"
    using Cons.prems by (cases rest) auto
  show ?case
  proof (cases "31 < (of_char c :: nat) \<and> c \<noteq> dquote \<and> c \<noteq> bslash")
    case True
    then have esc: "json_esc1 c = [c]" by (simp add: json_esc1_plain)
    have "length (json_escape cs) < length r"
      using Cons.prems esc r by (simp add: json_escape_simps)
    from Cons.IH [OF this, of "pre @ [c]"] show ?thesis
      using True esc r by (auto simp: buf_write_at json_escape_simps)
  next
    case False
    then have ctl: "(of_char c :: nat) < 32 \<or> c = dquote \<or> c = bslash" by auto
    obtain y ys where esc: "json_esc1 c = bslash # y # ys"
      using json_switch_form [OF ctl] by auto
    have ys: "Suc (length ys) < length r"
      using Cons.prems esc r by (simp add: json_escape_simps)
    obtain x' where sw:
        "json_escape_switch c ((pre @ [bslash]) @ r) (length (pre @ [bslash])) =
           Inr ((pre @ [bslash]) @ y # ys @ x' # drop (Suc (Suc (length ys))) r,
             length (pre @ [bslash]) + length ys)"
      using json_switch_ok [OF ctl esc ys, of "pre @ [bslash]"] by blast
    have "length (json_escape cs) < length (x' # drop (Suc (Suc (length ys))) r)"
      using Cons.prems esc r ys by (auto simp: json_escape_simps)
    from Cons.IH [OF this, of "pre @ bslash # y # ys"] show ?thesis
      using False sw r esc ys by (auto simp: buf_write_at json_escape_simps add.commute)
  qed
qed

lemma json_switch_keeps:
  assumes "(of_char c :: nat) < 32 \<or> c = dquote \<or> c = bslash"
  shows "json_escape_switch c b p = Inl OutOfBounds
    \<or> (\<exists>b' p'. json_escape_switch c b p = Inr (b', p') \<and> length b' = length b)"
proof -
  obtain s n where "json_escape_switch c b p = bindE (buf_write b p s) (\<lambda>b. Inr (b, n))"
    using json_switch_form [OF assms] by blast
  then show ?thesis
    using buf_write_keeps [of b p s] by auto
qed

lemma json_copy_keeps:
  "json_copy cs b p = Inl OutOfBounds
   \<or> (\<exists>b'. json_copy cs b p = Inr b' \<and> length b' = length b)"
proof (induction cs arbitrary: b p)
  case (Cons c cs)
  show ?case
  proof (cases "31 < (of_char c :: nat) \<and> c \<noteq> dquote \<and> c \<noteq> bslash")
    case True
    then show ?thesis
      using buf_write_keeps [of b p "[c]"] Cons.IH [of _ "p + 1"] by force
  next
    case False
    then have ctl: "(of_char c :: nat) < 32 \<or> c = dquote \<or> c = bslash" by auto
    consider "buf_write b p [bslash] = Inl OutOfBounds"
      | b1 where "buf_write b p [bslash] = Inr b1" "length b1 = length b"
      using buf_write_keeps by blast
    then show ?thesis
    proof cases
      case 1
      then show ?thesis using False by auto
    next
      case (2 b1)
      then show ?thesis
        using False json_switch_keeps [OF ctl, of b1 "p + 1"] Cons.IH by force
    qed
  qed
qed simp

text \<open>Both paths share their ends; only the copying differs.\<close>

definition json_body :: "string \<Rightarrow> string \<Rightarrow> nat \<Rightarrow> string result" where
  "json_body s b p =
     (if escape_characters s = 0 then buf_write b p s else json_copy s b p)"

lemma json_print_alt:
  "json_print_buf s b off =
     bindE (buf_write b off [dquote]) (\<lambda>b.
     bindE (json_body s b (off + 1)) (\<lambda>b.
     bindE (buf_write b (off + length (json_escape s) + 1) [dquote]) (\<lambda>b.
     buf_write b (off + length (json_escape s) + 2) [nul])))"
  by (simp add: json_print_buf_def json_body_def length_json_escape Let_def)

lemma json_body_keeps:
  "json_body s b p = Inl OutOfBounds
   \<or> (\<exists>b'. json_body s b p = Inr b' \<and> length b' = length b)"
  by (simp add: json_body_def json_copy_keeps buf_write_keeps)

lemma json_body_ok:
  assumes "length (json_escape s) < length rest"
  shows "\<exists>x. json_body s (pre @ rest) (length pre) =
    Inr (pre @ json_escape s @ x # drop (Suc (length (json_escape s))) rest)"
proof (cases "escape_characters s = 0")
  case True
  then show ?thesis
    using assms by (auto simp: json_body_def json_escape_none buf_write_at nth_drop_hd)
next
  case False
  then show ?thesis using json_copy_ok [OF assms] by (simp add: json_body_def)
qed

lemma json_print_short:
  assumes short: "length b < off + length (json_escape s) + 3"
  shows "json_print_buf s b off = Inl OutOfBounds"
proof -
  let ?n = "off + length (json_escape s)"
  have fin: "bindE (buf_write b' (?n + 1) [dquote]) (\<lambda>b. buf_write b (?n + 2) [nul]) = Inl OutOfBounds"
    if "length b' = length b" for b'
  proof -
    have "length b'' = length b \<Longrightarrow> buf_write b'' (?n + 2) [nul] = Inl OutOfBounds" for b''
      using short by (simp add: buf_write_def)
    then show ?thesis
      using buf_write_keeps [of b' "?n + 1" "[dquote]"] that by auto
  qed
  have mid: "bindE (json_body s b' (off + 1)) (\<lambda>b. bindE (buf_write b (?n + 1) [dquote]) (\<lambda>b.
      buf_write b (?n + 2) [nul])) = Inl OutOfBounds"
    if "length b' = length b" for b'
    using json_body_keeps [of s b' "off + 1"] fin that by auto
  show ?thesis
    using buf_write_keeps [of b off "[dquote]"] mid by (auto simp: json_print_alt)
qed

lemma json_print_fits:
  assumes room: "length (json_escape s) + 3 \<le> length rest"
  shows "json_print_buf s (pre @ rest) (length pre) =
    Inr (pre @ json_quoted s @ nul # drop (length (json_escape s) + 3) rest)"
proof -
  let ?e = "json_escape s"
  obtain x r where r: "rest = x # r" and r2: "length ?e + 2 \<le> length r"
    using room by (cases rest) auto
  obtain y where body: "json_body s ((pre @ [dquote]) @ r) (length (pre @ [dquote])) =
      Inr ((pre @ [dquote]) @ ?e @ y # drop (Suc (length ?e)) r)"
    using json_body_ok [of s r "pre @ [dquote]"] r2 by fastforce
  have "buf_write ((pre @ [dquote]) @ ?e @ y # drop (Suc (length ?e)) r)
      (length (pre @ [dquote]) + length ?e) [dquote] =
      Inr ((pre @ [dquote]) @ ?e @ dquote # drop (Suc (length ?e)) r)"
    by (simp only: buf_write_at_add) simp
  moreover obtain z where "drop (Suc (length ?e)) r = z # drop (length ?e + 2) r"
    using r2 nth_drop_hd [of "Suc (length ?e)" r] by auto
  moreover have "buf_write ((pre @ dquote # ?e @ [dquote]) @ z # drop (length ?e + 2) r)
      (length (pre @ dquote # ?e @ [dquote])) [nul] =
      Inr ((pre @ dquote # ?e @ [dquote]) @ nul # drop (length ?e + 2) r)"
    by (simp only: buf_write_at) simp
  ultimately show ?thesis
    using body r by (simp add: json_print_alt buf_write_at json_quoted_def numeral_3_eq_3)
qed

lemma json_print_buf_write: "json_print_buf s b off = buf_write b off (json_quoted s @ [nul])"
proof (cases "off + length (json_escape s) + 3 \<le> length b")
  case True
  then have "json_print_buf s (take off b @ drop off b) (length (take off b)) =
      Inr (take off b @ json_quoted s @ nul # drop (length (json_escape s) + 3) (drop off b))"
    by (intro json_print_fits) simp
  moreover have "length (json_quoted s) = length (json_escape s) + 2"
    by (simp add: json_quoted_def)
  ultimately show ?thesis
    using True by (simp add: buf_write_def numeral_3_eq_3 add.commute)
next
  case False
  then show ?thesis
    by (simp add: json_print_short buf_write_def json_quoted_def)
qed

text \<open>
  C11. The two-pass printer writes exactly the quoted, escaped input and a NUL, as one write
  bounded by the output object: the counting pass and the copying pass agree, the fast path is
  the slow path, no byte outside that window changes, and when the text does not fit the
  function leaves the object.
\<close>

theorem json_print_string_spec:
  "json_print_string (Some s) (Some b) off =
     bindE (buf_write b off (json_quoted s @ [nul])) (\<lambda>b'. Inr (True, Some b'))"
  by (simp add: json_print_string_def json_print_buf_write)

subsection \<open>Reading the text back\<close>

lemma map_option_apfst_Cons [simp]:
  "map_option (apfst (Cons x)) (Some (s, r)) = Some (x # s, r)"
  by simp

lemma json_unescape_esc1:
  assumes "json_unescape rest = Some (s, r)"
  shows "json_unescape (json_esc1 c @ rest) = Some (c # s, r)"
proof -
  consider "one_char_escape c" | "\<not> one_char_escape c" "(of_char c :: nat) < 32"
    | "\<not> one_char_escape c" "32 \<le> (of_char c :: nat)"
    by fastforce
  then show ?thesis
  proof cases
    case 1
    then show ?thesis
      unfolding one_char_escape_def
      by (elim insertE emptyE; simp add: json_esc1_def json_unescape.simps(2) [of bslash] assms)
  next
    case 2
    then have "json_esc1 c = bslash # CHR ''u'' # fmt_0x 4 (of_char c)"
      by (simp add: json_esc1_def one_char_escape_def)
    moreover have "hexdig_val (CHR ''0'') = 0"
      by code_simp
    ultimately show ?thesis
      using 2 assms by (simp add: fmt_0x_ctrl json_unescape.simps(2) [of bslash] hexdig_val_digit_char)
  next
    case 3
    then show ?thesis
      using assms by (simp add: one_char_escape_plain json_unescape.simps(2) [of c] one_char_escape_def)
  qed
qed

lemma json_unescape_escape:
  "json_unescape (json_escape s @ dquote # rest) = Some (s, rest)"
  by (induction s) (simp_all add: json_escape_simps json_unescape_esc1 json_unescape.simps(2) [of dquote])

text \<open>
  C12. Whenever the printer returns, what it leaves at the output position is a JSON string for
  its input: an opening quote, behind which a reader gets the input back and stops exactly at
  the terminating NUL, with no raw control character before it; and the bytes in front of the
  output position are those from before.
\<close>

theorem json_print_roundtrip:
  assumes "json_print_string (Some s) (Some b) off = Inr (ok, Some b')"
  shows "\<exists>rest. ok \<and> length b' = length b \<and> take off b' = take off b \<and>
    drop off b' = json_quoted s @ nul # rest \<and> b' ! off = dquote \<and>
    json_unescape (drop (Suc off) b') = Some (s, nul # rest) \<and>
    list_all (\<lambda>c. 32 \<le> (of_char c :: nat)) (json_quoted s)"
proof -
  have w: "ok" "buf_write b off (json_quoted s @ [nul]) = Inr b'"
    using assms by (auto simp: json_print_string_def json_print_buf_write bindE_def split: sum.splits)
  then have fits: "off + length (json_quoted s @ [nul]) \<le> length b"
    using buf_write_over [of "json_quoted s @ [nul]" b off] by fastforce
  let ?rest = "drop (off + length (json_quoted s @ [nul])) b"
  have b': "b' = take off b @ json_quoted s @ nul # ?rest"
    using w(2) buf_write_fits [OF fits] by simp
  have pre: "length (take off b) = off" using fits by simp
  have at: "drop off b' = json_quoted s @ nul # ?rest"
    unfolding b' by (subst drop_append) (simp add: pre del: length_take)
  moreover have "drop (Suc off) b' = json_escape s @ dquote # nul # ?rest"
    using arg_cong [OF at, of tl] by (simp add: json_quoted_def drop_Suc tl_drop)
  moreover have "b' ! off = dquote"
    unfolding b' using pre by (simp add: nth_append json_quoted_def)
  moreover have "take off b' = take off b"
    unfolding b' by (subst take_append) (simp add: pre del: length_take)
  moreover have "list_all (\<lambda>c. 32 \<le> (of_char c :: nat)) (json_quoted s)"
    using json_escape_printable [of s] by (simp add: json_quoted_def list_all_iff)
  ultimately show ?thesis
    using w(1) buf_write_length [OF w(2)]
    by (intro exI [of _ "?rest"]) (simp only: json_unescape_escape simp_thms)
qed

theorem json_print_roundtrip_witness:
  "\<exists>b'. json_print_string (Some ''a\<newline>b'') (Some (replicate 9 CHR ''x'')) 1 = Inr (True, Some b') \<and>
     json_unescape (drop 2 b') = Some (''a\<newline>b'', nul # ''x'')"
proof -
  have "json_print_string (Some ''a\<newline>b'') (Some (replicate 9 CHR ''x'')) 1 =
      Inr (True, Some (''x'' @ json_quoted ''a\<newline>b'' @ [nul, CHR ''x'']))"
    by code_simp
  from this json_print_roundtrip [OF this] show ?thesis
    by (auto simp: numeral_2_eq_2 json_quoted_def)
qed

subsection \<open>The interface the JSON documents are built on\<close>

text \<open>
  The generators of the access-point list, the IP information and the registration record
  append text and printed strings to one buffer. What they rely on is a printer that is one
  bounded write of some NUL-free rendering.
\<close>

locale string_printer =
  fixes print :: "string \<Rightarrow> string \<Rightarrow> nat \<Rightarrow> string result"
    and render :: "string \<Rightarrow> string"
  assumes print_write: "print s b off = buf_write b off (render s @ [nul])"
    and render_nul: "nul \<notin> set (render s)"
begin

lemma print_append:
  "holds cap t b \<Longrightarrow> print s b (length t) =
     (if length t + length (render s) < cap then Inr (app_to t (render s) b) else Inl OutOfBounds)"
  by (simp add: print_write buf_append)

lemma print_append_holds:
  "holds cap t b \<Longrightarrow> length t + length (render s) < cap \<Longrightarrow>
   holds cap (t @ render s) (app_to t (render s) b)"
  by (simp add: app_to_holds render_nul)

end

interpretation jp: string_printer json_print_buf json_quoted
  by unfold_locales (simp_all add: json_print_buf_write json_quoted_def nul_notin_json_escape)

end
