(* ===== verification/Platform.thy ===== *)
theory Platform
  imports CString
begin

text \<open>
  The boundary of the firmware: FreeRTOS, the ESP-IDF drivers, the flash key-value store, the
  network stack and the SD-card file system. None of that code is part of the repository, so
  none of it is defined here. A component's model is the sequence of the calls it makes across
  the boundary (a \<open>call\<close> names the C function and the arguments that matter) and what it does
  with the answers. The answers come from an environment, a parameter of every definition that
  needs one: any function from the calls made so far and the call now made to its answer, so
  that every behaviour of the platform, and of the other tasks through it, is covered. What a
  property needs to know of the platform is a hypothesis on the environment.

  Logging (\<open>ESP_LOGx\<close>, \<open>printf\<close>) is left out throughout.
\<close>

subsection \<open>Calls\<close>

text \<open>
  The tick of the scheduler, for the default \<open>CONFIG_FREERTOS_HZ\<close> of 100. Delays and timer periods
  are given in milliseconds, waiting times in ticks, as the code writes them.
\<close>

definition portTICK_PERIOD_MS :: nat where "portTICK_PERIOD_MS = 1000 div 100"

datatype evgroup = WifiGroup | LedGroup | HttpGroup | OtaGroup | NtpGroup

datatype rtos_call =
    EventGroupCreate evgroup
  | EventGroupSetBits evgroup u32
  | EventGroupClearBits evgroup u32
  | EventGroupGetBits evgroup
  | EventGroupWaitBits evgroup u32 bool bool "nat option"
      \<comment> \<open>bits, clear on exit, wait for all, ticks (none for \<open>portMAX_DELAY\<close>)\<close>
  | EventGroupDelete evgroup
  | TaskCreate string
  | TaskDelay nat \<comment> \<open>in milliseconds\<close>
  | TaskDelete
  | TimerCreate string nat \<comment> \<open>milliseconds\<close>
  | TimerStart string
  | TimerStop string
  | TimerReset string
  | TimerIsActive string
  | MutexCreate string
  | MutexTake string "nat option" \<comment> \<open>ticks\<close>
  | MutexGive string
  | MutexDelete string
  | QueueReset string

datatype uart_call =
    UartParamConfig nat
  | UartSetPin nat nat nat
  | UartDriverInstall nat nat nat
  | UartEnablePatternDet nat char
  | UartPatternQueueReset nat nat
  | UartFlush nat
  | UartFlushInput nat
  | UartGetBufferedLen nat
  | UartPatternPopPos nat
  | UartReadBytes nat nat
  | UartWriteBytes nat string

datatype io_call =
    GpioConfig "64 word"
  | GpioSetLevel nat u32
  | LedcTimerConfig nat nat
  | LedcChannelConfig nat nat nat \<comment> \<open>channel, duty, pin\<close>
  | LedcSetDuty nat nat
  | LedcUpdateDuty nat
  | I2cParamConfig nat nat nat \<comment> \<open>data pin, clock pin, frequency\<close>
  | I2cDriverInstall
  | I2cCmdLinkCreate
  | I2cWriteByte u8
  | I2cReadByte bool \<comment> \<open>acknowledged\<close>
  | I2cCmdBegin
  | I2cCmdLinkDelete
  | AdcCalCheckEfuse string
  | AdcConfigWidth
  | AdcConfigAtten nat
  | AdcCalCharacterize nat
  | AdcGetRaw nat

datatype sys_call =
    EfuseMacGet
  | Time
  | Clock
  | SntpStart "string list"
  | Setenv string string
  | NvsFlashInit
  | NvsFlashErase
  | NvsOpen string bool \<comment> \<open>name space, read-write\<close>
  | NvsSetBlob string string
  | NvsGetBlob string nat
  | NvsCommit
  | NvsClose
  | Restart
  | HeapLargestFree
  | Malloc nat
  | Calloc string \<comment> \<open>one object of the type\<close>
  | Free int
  | TimerGetTime

datatype wifi_call =
    TcpipInit
  | EventLoopInit
  | DhcpsStop
  | DhcpsStart
  | DhcpcStop
  | DhcpcStart
  | DhcpcGetStatus
  | SetIpInfo string string \<comment> \<open>interface and the bytes of the address record\<close>
  | WifiInit
  | WifiSetStorageRam
  | WifiSetModeApSta
  | WifiSetBandwidth nat
  | WifiSetPs nat
  | WifiSetConfigAp string string nat nat nat nat nat
      \<comment> \<open>ssid, password, channel, hidden, authentication mode, clients, beacon interval\<close>
  | WifiSetConfigSta string string \<comment> \<open>the ssid and password fields\<close>
  | WifiStart
  | WifiConnect
  | WifiDisconnect
  | WifiScanStart
  | WifiScanGetApRecords nat
  | WifiDeinit
  | TcpipGetIpInfo
  | PingSetTarget string
  | PingInit

datatype fs_call =
    FatMount string
  | FatUnmount
  | PullupOnly nat
  | LogSetVprintf
  | Stat string
  | Fopen string string
  | Fprintf int string
  | Fflush int
  | Fread int nat
  | Fclose int
  | Remove string
  | Rename string string

datatype net_call =
    GetAddrInfo string string
  | FreeAddrInfo
  | Socket
  | Connect int
  | ConnectTo int string nat \<comment> \<open>an IPv4 address and a port\<close>
  | SetRcvTimeout int nat
  | SockWrite int string
  | SockSend int string
  | SockRead int nat
  | SockRecv int nat bool \<comment> \<open>peek\<close>
  | SockClose int
  | NetconnNew
  | NetconnBind nat
  | NetconnListen
  | NetconnAccept
  | NetconnRecv
  | NetconnWrite string
  | NetbufDelete
  | NetconnClose
  | NetconnDelete

datatype web_call =
    HttpInit string
  | HttpOpen
  | HttpFetchHeaders
  | HttpRead nat
  | HttpSetMethodPost
  | HttpSetHeader string string
  | HttpSetPostField string
  | HttpPerform
  | HttpIsChunkedResponse
  | HttpClose
  | HttpCleanup
  | MqttInit "string list" nat \<comment> \<open>host, user name, password and certificate; port\<close>
  | MqttStart
  | MqttDestroy
  | MqttSubscribe string nat
  | MqttPublish string string nat
  | OtaGetBoot
  | OtaGetRunning
  | OtaGetNextUpdate
  | OtaBegin
  | OtaWrite string
  | OtaEnd
  | OtaCheckIdentity
  | OtaSetBoot
  | OtaAppDescription

datatype call =
    Rtos rtos_call
  | Uart uart_call
  | Io io_call
  | Sys sys_call
  | Wifi wifi_call
  | Fs fs_call
  | Net net_call
  | Web web_call

text \<open>The events of the UART driver's queue (\<open>uart_event_t\<close>).\<close>

datatype uart_event =
    UART_DATA nat
  | UART_BREAK
  | UART_BUFFER_FULL
  | UART_FIFO_OVF
  | UART_FRAME_ERR
  | UART_PARITY_ERR
  | UART_PATTERN_DET
  | UART_OTHER

text \<open>The events of the HTTP client (\<open>esp_http_client_event_id_t\<close>), with the data they bring.\<close>

datatype http_client_event =
    HTTP_EVENT_ERROR
  | HTTP_EVENT_ON_CONNECTED
  | HTTP_EVENT_HEADER_SENT
  | HTTP_EVENT_ON_HEADER string string
  | HTTP_EVENT_ON_DATA string
  | HTTP_EVENT_ON_FINISH
  | HTTP_EVENT_DISCONNECTED

text \<open>
  Answers: a return code or other integer, a set of event bits, the bytes a call puts into a
  buffer, and the list of access points of a scan, as raw fields.
\<close>

text \<open>
  The fields of \<open>wifi_ap_record_t\<close> the firmware reads, and the bytes of the others. The SSID is
  the C string in its field.
\<close>

record wifi_ap_record =
  ssid :: string
  primary :: nat
  rssi :: int
  authmode :: nat
  ap_other :: string

record env =
  ans_int :: "call list \<Rightarrow> call \<Rightarrow> int"
  ans_bits :: "call list \<Rightarrow> call \<Rightarrow> u32"
  ans_bytes :: "call list \<Rightarrow> call \<Rightarrow> string"
  ans_aps :: "call list \<Rightarrow> call \<Rightarrow> wifi_ap_record list"

text \<open>An environment in which every call returns zero and delivers nothing.\<close>

definition silent_env :: env where
  "silent_env = \<lparr>ans_int = (\<lambda>_ _. 0), ans_bits = (\<lambda>_ _. 0), ans_bytes = (\<lambda>_ _. []), ans_aps = (\<lambda>_ _. [])\<rparr>"

lemma silent_env_simps [simp]:
  "ans_int silent_env tr c = 0" "ans_bits silent_env tr c = 0"
  "ans_bytes silent_env tr c = []" "ans_aps silent_env tr c = []"
  by (simp_all add: silent_env_def)

subsection \<open>Commands\<close>

text \<open>
  A command runs against an environment and the calls made so far; it faults, or returns a
  value and the calls extended by its own.
\<close>

type_synonym 'a cmd = "env \<Rightarrow> call list \<Rightarrow> ('a \<times> call list) result"

definition ret :: "'a \<Rightarrow> 'a cmd" where
  "ret x e tr = Inr (x, tr)"

definition failC :: "fault \<Rightarrow> 'a cmd" where
  "failC k e tr = Inl k"

definition bindC :: "'a cmd \<Rightarrow> ('a \<Rightarrow> 'b cmd) \<Rightarrow> 'b cmd" where
  "bindC m f e tr = (case m e tr of Inl k \<Rightarrow> Inl k | Inr (x, tr') \<Rightarrow> f x e tr')"

definition thenC :: "'a cmd \<Rightarrow> 'b cmd \<Rightarrow> 'b cmd" where
  "thenC m n = bindC m (\<lambda>_. n)"

definition liftE :: "'a result \<Rightarrow> 'a cmd" where
  "liftE r e tr = (case r of Inl k \<Rightarrow> Inl k | Inr x \<Rightarrow> Inr (x, tr))"

definition doC :: "call \<Rightarrow> unit cmd" where
  "doC c e tr = Inr ((), tr @ [c])"

definition askI :: "call \<Rightarrow> int cmd" where
  "askI c e tr = Inr (ans_int e tr c, tr @ [c])"

definition askB :: "call \<Rightarrow> u32 cmd" where
  "askB c e tr = Inr (ans_bits e tr c, tr @ [c])"

text \<open>A call that returns a code and fills a buffer.\<close>

definition askIS :: "call \<Rightarrow> (int \<times> string) cmd" where
  "askIS c e tr = Inr ((ans_int e tr c, ans_bytes e tr c), tr @ [c])"

text \<open>A call that returns a code and a 32-bit number.\<close>

definition askIB :: "call \<Rightarrow> (int \<times> u32) cmd" where
  "askIB c e tr = Inr ((ans_int e tr c, ans_bits e tr c), tr @ [c])"

definition askA :: "call \<Rightarrow> (int \<times> wifi_ap_record list) cmd" where
  "askA c e tr = Inr ((ans_int e tr c, ans_aps e tr c), tr @ [c])"

text \<open>\<open>malloc\<close>: a pointer, which may be null, and the block's first contents, whatever they are.\<close>

definition block :: "nat \<Rightarrow> string \<Rightarrow> string" where
  "block n bs = take n (bs @ replicate n nul)"

lemma length_block [simp]: "length (block n bs) = n"
  by (simp add: block_def)

definition malloc :: "nat \<Rightarrow> (int \<times> string) cmd" where
  "malloc n = bindC (askIS (Sys (Malloc n))) (\<lambda>(p, bs). ret (p, block n bs))"

definition whenC :: "bool \<Rightarrow> unit cmd \<Rightarrow> unit cmd" where
  "whenC b m = (if b then m else ret ())"

fun seqC :: "unit cmd list \<Rightarrow> unit cmd" where
  "seqC [] = ret ()"
| "seqC (m # ms) = thenC m (seqC ms)"

text \<open>\<open>ESP_ERROR_CHECK\<close>: abort unless the code is \<open>ESP_OK\<close>.\<close>

definition esp_error_check :: "esp_err \<Rightarrow> unit cmd" where
  "esp_error_check err = (if err = ESP_OK then ret () else failC Aborted)"

lemma cmd_run [cmd_simps]:
  "ret x e tr = Inr (x, tr)"
  "failC k e tr = Inl k"
  "doC c e tr = Inr ((), tr @ [c])"
  "askI c e tr = Inr (ans_int e tr c, tr @ [c])"
  "askB c e tr = Inr (ans_bits e tr c, tr @ [c])"
  "askIS c e tr = Inr ((ans_int e tr c, ans_bytes e tr c), tr @ [c])"
  "askIB c e tr = Inr ((ans_int e tr c, ans_bits e tr c), tr @ [c])"
  "askA c e tr = Inr ((ans_int e tr c, ans_aps e tr c), tr @ [c])"
  "liftE (Inr x) e tr = Inr (x, tr)"
  "liftE (Inl k) e tr = Inl k"
  by (simp_all add: ret_def failC_def doC_def askI_def askB_def askIS_def askIB_def askA_def liftE_def)

lemma whenC_run [cmd_simps]: "whenC b m e tr = (if b then m e tr else Inr ((), tr))"
  by (simp add: whenC_def cmd_run)

lemma bindC_run [cmd_simps]:
  "bindC m f e tr = bindE (m e tr) (\<lambda>(x, tr'). f x e tr')"
  by (simp add: bindC_def bindE_def)

lemma thenC_run [cmd_simps]:
  "thenC m n e tr = bindE (m e tr) (\<lambda>(x, tr'). n e tr')"
  by (simp add: thenC_def bindC_run)

lemma malloc_run [cmd_simps]:
  "malloc n e tr = Inr ((ans_int e tr (Sys (Malloc n)), block n (ans_bytes e tr (Sys (Malloc n)))),
     tr @ [Sys (Malloc n)])"
  by (simp add: malloc_def bindC_run cmd_run)

lemmas [cmd_simps] = Let_def

lemma esp_error_check_run [cmd_simps]:
  "esp_error_check err e tr = (if err = 0 then Inr ((), tr) else Inl Aborted)"
  by (simp add: esp_error_check_def cmd_run)

subsection \<open>Event groups\<close>

text \<open>
  What FreeRTOS documents of event groups: the bits are those set and not cleared since the
  group was created. \<open>group_bits\<close> reads them off the calls made; it is the specification that
  hypotheses on the environment refer to.
\<close>

fun group_step :: "evgroup \<Rightarrow> u32 \<Rightarrow> call \<Rightarrow> u32" where
  "group_step g b (Rtos (EventGroupCreate g')) = (if g' = g then 0 else b)"
| "group_step g b (Rtos (EventGroupSetBits g' m)) = (if g' = g then b OR m else b)"
| "group_step g b (Rtos (EventGroupClearBits g' m)) = (if g' = g then b AND NOT m else b)"
| "group_step g b _ = b"

definition group_bits :: "evgroup \<Rightarrow> u32 \<Rightarrow> call list \<Rightarrow> u32" where
  "group_bits g b cs = foldl (group_step g) b cs"

lemma group_bits_simps [simp]:
  "group_bits g b [] = b"
  "group_bits g b (c # cs) = group_bits g (group_step g b c) cs"
  "group_bits g b (cs @ ds) = group_bits g (group_bits g b cs) ds"
  by (simp_all add: group_bits_def)

end
