(* ===== verification/Fp.thy ===== *)
theory Fp
  imports Prelude Complex_Main "HOL-Library.Log_Nat"
begin

text \<open>
  Floating-point arithmetic. A finite \<open>float\<close> or \<open>double\<close> is the rational number it stands
  for, and every operation of the source is the exact operation followed by the rounding of its
  result type: to the nearest value with a significand of 24 (\<open>float\<close>) or 53 (\<open>double\<close>) bits,
  ties to even, which is the arithmetic of the ESP32's FPU and of its software doubles.

  The exponent is not bounded here: subnormal results, infinities and NaN are outside the
  model. The quantities computed (mass concentrations, coordinates, temperatures) stay far
  inside the range; where the source turns text into a number the reader checks it.
\<close>

subsection \<open>Rounding\<close>

text \<open>To the nearest integer, ties to even.\<close>

definition rne :: "rat \<Rightarrow> int" where
  "rne x = (let f = \<lfloor>x\<rfloor>; d = x - of_int f in
     if d < 1 / 2 then f else if 1 / 2 < d then f + 1 else if even f then f else f + 1)"

text \<open>The exponent of the leading bit of a positive number.\<close>

definition binexp :: "rat \<Rightarrow> int" where
  "binexp x = (let (p, q) = quotient_of x; k = bitlen p - bitlen q
               in if 2 powi k \<le> x then k else k - 1)"

definition fl :: "nat \<Rightarrow> rat \<Rightarrow> rat" where
  "fl p x = (if x = 0 then 0
             else let u = 2 powi (binexp \<bar>x\<bar> - int p + 1) in sgn x * of_int (rne (\<bar>x\<bar> / u)) * u)"

abbreviation f32 :: "rat \<Rightarrow> rat" where "f32 \<equiv> fl 24"
abbreviation f64 :: "rat \<Rightarrow> rat" where "f64 \<equiv> fl 53"

text \<open>Conversion to an integer type: the fraction is discarded.\<close>

definition trunc :: "rat \<Rightarrow> int" where
  "trunc x = (if 0 \<le> x then \<lfloor>x\<rfloor> else \<lceil>x\<rceil>)"

subsection \<open>Properties\<close>

lemma rne_of_int [simp]: "rne (of_int n) = n"
  by (simp add: rne_def)

lemma rne_error: "\<bar>of_int (rne x) - x\<bar> \<le> 1 / 2"
proof -
  have "of_int \<lfloor>x\<rfloor> \<le> x" "x < of_int \<lfloor>x\<rfloor> + 1" by linarith+
  then show ?thesis by (auto simp: rne_def Let_def)
qed

lemma binexp_bounds:
  assumes "0 < x"
  shows "2 powi binexp x \<le> x \<and> x < 2 powi (binexp x + 1)"
proof -
  obtain p q where pq: "quotient_of x = (p, q)" by (cases "quotient_of x")
  then have q: "0 < q" and x: "x = of_int p / of_int q"
    by (auto dest: quotient_of_denom_pos quotient_of_div)
  then have p: "0 < p" using assms by (simp add: zero_less_divide_iff)
  have bnd: "2 powi (bitlen n - 1) \<le> (of_int n :: rat) \<and> of_int n < (2 :: rat) powi (bitlen n)"
    if "0 < n" for n
  proof -
    have b1: "1 \<le> bitlen n" using that bitlen_nonneg [of n] bitlen_eq_zero_iff [of n] by linarith
    have "2 ^ nat (bitlen n - 1) \<le> n \<and> n < 2 ^ nat (bitlen n)"
      using bitlen_bounds [OF that] .
    then have "of_int (2 ^ nat (bitlen n - 1)) \<le> (of_int n :: rat)
        \<and> (of_int n :: rat) < of_int (2 ^ nat (bitlen n))"
      by (simp only: of_int_le_iff of_int_less_iff)
    with b1 show ?thesis by (simp add: power_int_def)
  qed
  let ?k = "bitlen p - bitlen q"
  have "x < 2 powi bitlen p / 2 powi (bitlen q - 1)"
    unfolding x using bnd [OF p] bnd [OF q] p q by (intro frac_less) auto
  also have "\<dots> = 2 powi (?k + 1)"
    by (simp add: power_int_diff power_int_add)
  finally have up: "x < 2 powi (?k + 1)" .
  have "2 powi (?k - 1) = 2 powi (bitlen p - 1) / (2 powi bitlen q :: rat)"
    by (simp add: power_int_diff)
  also have "\<dots> \<le> x"
    unfolding x using bnd [OF p] bnd [OF q] p q by (intro frac_le) auto
  finally have lo: "2 powi (?k - 1) \<le> x" .
  show ?thesis
    using up lo by (simp add: binexp_def pq Let_def)
qed

lemma fl_error: "\<bar>fl p x - x\<bar> \<le> \<bar>x\<bar> / 2 ^ p"
proof (cases "x = 0")
  case False
  let ?u = "2 powi (binexp \<bar>x\<bar> - int p + 1) :: rat"
  have u: "0 < ?u" by simp
  have "fl p x - x = sgn x * (of_int (rne (\<bar>x\<bar> / ?u)) - \<bar>x\<bar> / ?u) * ?u"
    using False u by (simp add: fl_def Let_def field_simps sgn_if)
  then have "\<bar>fl p x - x\<bar> = \<bar>of_int (rne (\<bar>x\<bar> / ?u)) - \<bar>x\<bar> / ?u\<bar> * ?u"
    using False u by (simp add: abs_mult sgn_if)
  also have "\<dots> \<le> 1 / 2 * ?u"
    using rne_error u by (intro mult_right_mono) auto
  also have "\<dots> = 2 powi binexp \<bar>x\<bar> / 2 ^ p"
    by (simp add: power_int_diff power_int_add)
  also have "\<dots> \<le> \<bar>x\<bar> / 2 ^ p"
    using binexp_bounds [of "\<bar>x\<bar>"] False by (simp add: divide_right_mono)
  finally show ?thesis .
qed (simp add: fl_def)

text \<open>A value with at most \<open>p\<close> significant bits is not changed.\<close>

lemma fl_exact_aux:
  assumes "\<bar>m\<bar> < 2 ^ p" and x: "x = of_int m * 2 powi k"
  shows "fl p x = x"
proof (cases "m = 0")
  case False
  let ?e = "binexp \<bar>x\<bar>" and ?u = "2 powi (binexp \<bar>x\<bar> - int p + 1) :: rat"
  have x0: "x \<noteq> 0" using False x by simp
  have "2 powi ?e \<le> \<bar>x\<bar>" using binexp_bounds [of "\<bar>x\<bar>"] x0 by simp
  also have "\<bar>x\<bar> = of_int \<bar>m\<bar> * 2 powi k" by (simp add: x abs_mult)
  also have "\<dots> < 2 ^ p * 2 powi k"
    using assms(1) by (metis mult_strict_right_mono of_int_less_iff of_int_numeral of_int_power
        zero_less_power_int zero_less_numeral)
  also have "\<dots> = 2 powi (int p + k)" by (simp add: power_int_add)
  finally have "?e < int p + k"
    using power_int_increasing [of "int p + k" ?e "2 :: rat"] by (meson not_less one_le_numeral)
  then obtain n where n: "k - (?e - int p + 1) = int n"
    using zero_le_imp_eq_int [of "k - (?e - int p + 1)"] by auto
  have "\<bar>x\<bar> / ?u = of_int \<bar>m\<bar> * 2 powi (k - (?e - int p + 1))"
    by (simp add: x abs_mult power_int_diff)
  also have "\<dots> = of_int (\<bar>m\<bar> * 2 ^ n)"
    by (simp add: n)
  finally have "of_int (rne (\<bar>x\<bar> / ?u)) = \<bar>x\<bar> / ?u"
    by (simp only: rne_of_int)
  then show ?thesis
    using x0 by (simp add: fl_def Let_def sgn_if)
qed (simp add: x fl_def)

lemma fl_of_int:
  assumes "\<bar>m\<bar> \<le> 2 ^ p" and "0 < p"
  shows "fl p (of_int m) = of_int m"
proof (cases "\<bar>m\<bar> < 2 ^ p")
  case True
  then show ?thesis by (intro fl_exact_aux [of m p _ 0]) auto
next
  case False
  then have "m = sgn m * 2 ^ p" using assms(1) by (auto simp: sgn_if)
  then have "of_int m = of_int (sgn m) * (2 :: rat) powi int p"
    by (metis of_int_mult of_int_numeral of_int_power power_int_of_nat)
  moreover have "\<bar>sgn m\<bar> < 2 ^ p"
    using assms(2) by (simp add: abs_sgn_eq)
  ultimately show ?thesis using fl_exact_aux by blast
qed

lemma fl_of_nat: "n \<le> 2 ^ p \<Longrightarrow> 0 < p \<Longrightarrow> fl p (of_nat n) = of_nat n"
  using fl_of_int [of "int n" p] by (metis abs_of_nat of_int_of_nat_eq of_nat_le_iff of_nat_numeral of_nat_power)

lemma fl_dyadic: "\<bar>m\<bar> < 2 ^ p \<Longrightarrow> fl p (of_int m / 2 ^ n) = of_int m / 2 ^ n"
  by (rule fl_exact_aux [of m p _ "- int n"]) (simp_all add: power_int_minus divide_inverse)

lemma fl_0 [simp]: "fl p 0 = 0"
  by (simp add: fl_def)

lemma fl_uminus: "fl p (- x) = - fl p x"
  by (simp add: fl_def sgn_minus Let_def)

lemma rne_mono_int: "of_int n \<le> x \<Longrightarrow> n \<le> rne x"
proof -
  assume "of_int n \<le> x"
  then have "n \<le> \<lfloor>x\<rfloor>" by (simp add: le_floor_iff)
  then show ?thesis by (auto simp: rne_def Let_def)
qed

text \<open>Rounding does not move a number below an integer it is not below.\<close>

lemma fl_ge_int:
  assumes "of_int n \<le> x" "0 \<le> n" "x < 2 ^ p" "0 < x"
  shows "of_int n \<le> fl p x"
proof -
  let ?e = "binexp x"
  define u where "u = (2 powi (?e - int p + 1) :: rat)"
  have "2 powi ?e \<le> x" using binexp_bounds [OF assms(4)] by simp
  also have "x < 2 powi int p" using assms(3) by simp
  finally have "?e < int p"
    using power_int_increasing [of "int p" ?e "2 :: rat"] by (meson not_less one_le_numeral)
  then have k: "?e - int p + 1 = - int (nat (int p - ?e - 1))" by simp
  define k where "k = nat (int p - ?e - 1)"
  note k = k [folded k_def]
  have u: "u * 2 ^ k = 1" "0 < u" unfolding u_def k by (simp_all add: power_int_minus)
  have n: "of_int (n * 2 ^ k) * u = of_int n"
  proof -
    have "of_int (n * 2 ^ k) * u = of_int n * (u * 2 ^ k)" by simp
    then show ?thesis unfolding u(1) by simp
  qed
  then have "of_int (n * 2 ^ k) \<le> x / u"
    using assms(1) u(2) by (simp only: pos_le_divide_eq)
  then have "n * 2 ^ k \<le> rne (x / u)" by (rule rne_mono_int)
  then have "(of_int (n * 2 ^ k) :: rat) * u \<le> of_int (rne (x / u)) * u"
    using u(2) by (intro mult_right_mono) (simp_all only: of_int_le_iff less_imp_le)
  then have "of_int n \<le> of_int (rne (x / u)) * u" unfolding n .
  then show ?thesis using assms(4) by (simp add: fl_def Let_def u_def)
qed

end
