(* ===== verification/Pm.thy ===== *)
theory Pm
  imports Platform Fp
begin

text \<open>
  The particulate-matter sensor driver, \<open>main/pm_if.c\<close> and \<open>main/include/pm_if.h\<close>: packets of
  24 bytes arrive over a UART, valid ones are added to an accumulator, a timer clears the
  accumulator when the sensor falls silent, and polling returns the means and clears it.
\<close>

subsection \<open>State\<close>

text \<open>The pins, the timer and the offsets in a packet.\<close>

definition PM_UART_CH :: nat where [simp]: "PM_UART_CH = 2"
definition PM_RXD_PIN :: nat where [simp]: "PM_RXD_PIN = 16"
definition PM_TXD_PIN :: nat where [simp]: "PM_TXD_PIN = 17"
definition GPIO_PM_RESET :: nat where [simp]: "GPIO_PM_RESET = 17"
definition GPIO_PM_SET :: nat where [simp]: "GPIO_PM_SET = 5"
definition PM_TIMER_TIMEOUT_MS :: nat where [simp]: "PM_TIMER_TIMEOUT_MS = 5000"
definition PKT_PM1_HIGH :: nat where [simp]: "PKT_PM1_HIGH = 4"
definition PKT_PM1_LOW :: nat where [simp]: "PKT_PM1_LOW = 5"
definition PKT_PM2_5_HIGH :: nat where [simp]: "PKT_PM2_5_HIGH = 6"
definition PKT_PM2_5_LOW :: nat where [simp]: "PKT_PM2_5_LOW = 7"
definition PKT_PM10_HIGH :: nat where [simp]: "PKT_PM10_HIGH = 8"
definition PKT_PM10_LOW :: nat where [simp]: "PKT_PM10_LOW = 9"

definition BUF_SIZE :: nat where "BUF_SIZE = 144"
definition PM_PKT_LEN :: nat where "PM_PKT_LEN = 24"

record pm_data =
  sample_count :: u32
  pm1 :: rat
  pm2_5 :: rat
  pm10 :: rat

record pm_state =
  pm_accum :: pm_data
  pm_buf :: "u8 list"

subsection \<open>Operations\<close>

definition pm_accum_rst :: "pm_state \<Rightarrow> pm_state" where
  "pm_accum_rst st = st\<lparr>pm_accum := (pm_accum st)\<lparr>pm1 := 0, pm2_5 := 0, pm10 := 0, sample_count := 0\<rparr>\<rparr>"

definition vTimerCallback :: "pm_state \<Rightarrow> pm_state cmd" where
  "vTimerCallback st = thenC (doC (Rtos (TimerStop ''pm_timer''))) (ret (pm_accum_rst st))"

definition pm_checksum :: "u8 list \<Rightarrow> bool" where
  "pm_checksum buf =
     (let checksum = push_bit 8 (ucast (buf ! (PM_PKT_LEN - 2))) :: u16;
          checksum = checksum + ucast (buf ! (PM_PKT_LEN - 1));
          total = foldl (\<lambda>total i. total + ucast (buf ! i)) (0 :: u16) [0..<PM_PKT_LEN - 2]
      in total = checksum)"

definition get_packet_from_buffer :: "pm_state \<Rightarrow> (esp_err \<times> pm_state) cmd" where
  "get_packet_from_buffer st =
     (let buf = pm_buf st; acc = pm_accum st in
      if buf ! 0 = 0x42 \<and> buf ! 1 = 0x4D \<and> pm_checksum buf
      then thenC (doC (Rtos (TimerReset ''pm_timer'')))
             (ret (ESP_OK, st\<lparr>pm_accum := acc\<lparr>
                pm1 := f32 (pm1 acc + f32 (of_nat (unat (be16 (buf ! PKT_PM1_HIGH) (buf ! PKT_PM1_LOW))))),
                pm2_5 := f32 (pm2_5 acc + f32 (of_nat (unat (be16 (buf ! PKT_PM2_5_HIGH) (buf ! PKT_PM2_5_LOW))))),
                pm10 := f32 (pm10 acc + f32 (of_nat (unat (be16 (buf ! PKT_PM10_HIGH) (buf ! PKT_PM10_LOW))))),
                sample_count := sample_count acc + 1\<rparr>\<rparr>))
      else ret (ESP_FAIL, st))"

text \<open>
  The older reader of a packet, which no code calls. Its shifts are by \<open>sizeof(uint8_t)\<close>, one
  bit.
\<close>

definition get_data_from_packet :: "u8 list option \<Rightarrow> pm_data \<Rightarrow> (esp_err \<times> pm_data) result" where
  "get_data_from_packet packet acc =
     (case packet of
        None \<Rightarrow> Inr (ESP_FAIL, acc)
      | Some p \<Rightarrow>
          if length p < 10 then Inl OutOfBounds
          else
            let t1 = (push_bit 1 (ucast (p ! PKT_PM1_HIGH)) :: u16) OR ucast (p ! PKT_PM1_LOW);
                t2 = (push_bit 1 (ucast (p ! PKT_PM2_5_HIGH)) :: u16) OR ucast (p ! PKT_PM2_5_LOW);
                t3 = (push_bit 1 (push_bit 8 (ucast (p ! PKT_PM10_HIGH))) :: u16) OR ucast (p ! PKT_PM10_LOW)
            in Inr (ESP_OK, acc\<lparr>
                 pm1 := f32 (pm1 acc + f32 (of_nat (unat t1))),
                 pm2_5 := f32 (pm2_5 acc + f32 (of_nat (unat t2))),
                 pm10 := f32 (pm10 acc + f32 (of_nat (unat t3))),
                 sample_count := sample_count acc + 1\<rparr>))"

definition PMS_Poll :: "pm_data \<Rightarrow> pm_state \<Rightarrow> esp_err \<times> pm_data \<times> pm_state" where
  "PMS_Poll dat st =
     (let acc = pm_accum st in
      if sample_count acc = 0
      then (ESP_FAIL, dat\<lparr>pm1 := - 1, pm2_5 := - 1, pm10 := - 1\<rparr>, st)
      else (let n = f32 (of_nat (unat (sample_count acc))) in
            (ESP_OK, dat\<lparr>pm1 := f32 (pm1 acc / n), pm2_5 := f32 (pm2_5 acc / n),
                         pm10 := f32 (pm10 acc / n)\<rparr>, pm_accum_rst st)))"

text \<open>
  One turn of the event task. The driver's bytes go to the front of \<open>pm_buf\<close>, as many as it
  delivers; the code does not look at the returned count.
\<close>

definition fill_front :: "nat \<Rightarrow> string \<Rightarrow> u8 list \<Rightarrow> u8 list" where
  "fill_front n bs buf = (let new = map of_char (take n bs) in take (length buf) (new @ drop (length new) buf))"

definition uart_pm_event :: "uart_event \<Rightarrow> pm_state \<Rightarrow> pm_state cmd" where
  "uart_pm_event ev st =
     (case ev of
        UART_DATA n \<Rightarrow>
          bindC (if n = 24
                 then bindC (askIS (Uart (UartReadBytes PM_UART_CH n))) (\<lambda>(_, bs).
                      bindC (get_packet_from_buffer (st\<lparr>pm_buf := fill_front n bs (pm_buf st)\<rparr>))
                        (\<lambda>(_, st). ret st))
                 else ret st)
            (\<lambda>st. thenC (doC (Uart (UartFlushInput PM_UART_CH))) (ret st))
      | UART_FIFO_OVF \<Rightarrow>
          thenC (seqC [doC (Uart (UartFlushInput PM_UART_CH)), doC (Rtos (QueueReset ''pm_event_queue''))]) (ret st)
      | UART_BUFFER_FULL \<Rightarrow>
          thenC (seqC [doC (Uart (UartFlushInput PM_UART_CH)), doC (Rtos (QueueReset ''pm_event_queue''))]) (ret st)
      | _ \<Rightarrow> ret st)"

definition PMS_GPIOEnable :: "unit cmd" where
  "PMS_GPIOEnable = doC (Io (GpioConfig (push_bit GPIO_PM_RESET 1 OR push_bit GPIO_PM_SET 1)))"

definition PMS_SET :: "u32 \<Rightarrow> unit cmd" where
  "PMS_SET level = doC (Io (GpioSetLevel GPIO_PM_SET level))"

definition PMS_RESET :: "u32 \<Rightarrow> unit cmd" where
  "PMS_RESET level = doC (Io (GpioSetLevel GPIO_PM_RESET level))"

definition PMS_Initialize :: "pm_state \<Rightarrow> (esp_err \<times> pm_state) cmd" where
  "PMS_Initialize st =
     bindC (askI (Uart (UartParamConfig PM_UART_CH))) (\<lambda>err.
     if err \<noteq> ESP_OK then ret (err, st) else
     bindC (askI (Uart (UartSetPin PM_UART_CH PM_TXD_PIN PM_RXD_PIN))) (\<lambda>err.
     if err \<noteq> ESP_OK then ret (err, st) else
     bindC (askI (Uart (UartDriverInstall PM_UART_CH BUF_SIZE 20))) (\<lambda>err.
     if err \<noteq> ESP_OK then ret (err, st) else
     thenC (seqC [doC (Rtos (TaskCreate ''vPM_task'')),
                  doC (Rtos (TimerCreate ''pm_timer'' PM_TIMER_TIMEOUT_MS))])
     (let st = pm_accum_rst st in
      thenC (seqC [PMS_GPIOEnable, PMS_SET 1, PMS_RESET 1, doC (Rtos (TimerStart ''pm_timer''))])
        (ret (err, st))))))"

subsection \<open>The checksum\<close>

lemma foldl_add_ucast:
  "length xs \<le> 256 \<Longrightarrow>
   unat (foldl (\<lambda>t b. t + ucast b) (0 :: u16) (xs :: u8 list)) = sum_list (map unat xs)
   \<and> sum_list (map unat xs) \<le> length xs * 255"
proof (induction xs rule: rev_induct)
  case (snoc x xs)
  then have IH: "unat (foldl (\<lambda>t b. t + ucast b) (0 :: u16) xs) = sum_list (map unat xs)"
    "sum_list (map unat xs) \<le> length xs * 255" by auto
  have "sum_list (map unat xs) + unat x < 65536"
    using IH(2) snoc.prems unat_u8_le [of x] by simp
  then show ?case
    using IH unat_u8_le [of x] by (simp add: unat_word_ariths)
qed simp

lemma foldl_index:
  "n \<le> length buf \<Longrightarrow>
   foldl (\<lambda>t i. t + ucast (buf ! i)) a [0..<n] = foldl (\<lambda>t b. t + ucast b) a (take n buf)"
  by (induction n) (simp_all add: take_Suc_conv_app_nth)

lemma pm_checksum_alt:
  assumes "24 \<le> length buf"
  shows "pm_checksum buf \<longleftrightarrow>
    sum_list (map unat (take 22 buf)) = unat (buf ! 22) * 256 + unat (buf ! 23)"
proof -
  let ?s = "foldl (\<lambda>t b. t + ucast b) (0 :: u16) (take 22 buf)"
  have s: "unat ?s = sum_list (map unat (take 22 buf))"
    using foldl_add_ucast [of "take 22 buf"] assms by simp
  have c: "push_bit 8 (ucast (buf ! 22)) + ucast (buf ! 23) = be16 (buf ! 22) (buf ! 23)"
    by (simp add: be16_add)
  have "pm_checksum buf \<longleftrightarrow> ?s = be16 (buf ! 22) (buf ! 23)"
    using assms foldl_index [of 22 buf "0 :: u16"] c by (simp add: pm_checksum_def PM_PKT_LEN_def)
  also have "\<dots> \<longleftrightarrow> unat ?s = unat (be16 (buf ! 22) (buf ! 23))"
    by (simp add: word_unat_eq_iff)
  finally show ?thesis
    by (simp add: s unat_be16)
qed

lemma sum_list_take_update:
  assumes "24 \<le> length buf" "i < 22"
  shows "sum_list (map unat (take 22 (buf[i := v]))) + unat (buf ! i) =
    sum_list (map unat (take 22 buf)) + unat (v :: u8)"
proof -
  have "unat (buf ! i) \<le> sum_list (map unat (take 22 buf))"
    using assms elem_le_sum_list [of i "map unat (take 22 buf)"] by simp
  then show ?thesis
    using assms by (simp add: take_update_swap map_update sum_list_update)
qed

text \<open>
  C21. The checksum accepts a packet exactly when the 16-bit big-endian number in its last two
  bytes is the sum of its first 22 bytes, with no wrap-around of the 16-bit arithmetic, and so
  it detects every corruption of a single byte of a valid packet.
\<close>

theorem pm_checksum_detects:
  assumes "length buf = BUF_SIZE"
  shows "(pm_checksum buf \<longleftrightarrow>
      (\<Sum>i<22. unat (buf ! i)) = 256 * unat (buf ! 22) + unat (buf ! 23))
    \<and> (pm_checksum buf \<and> i < 24 \<and> v \<noteq> buf ! i \<longrightarrow> \<not> pm_checksum (buf[i := v]))"
proof
  have len: "24 \<le> length buf" using assms by (simp add: BUF_SIZE_def)
  have "sum_list (map unat (take 22 buf)) = (\<Sum>i<22. unat (buf ! i))"
    using len by (simp add: sum_list_sum_nth atLeast0LessThan)
  then show "pm_checksum buf \<longleftrightarrow>
      (\<Sum>i<22. unat (buf ! i)) = 256 * unat (buf ! 22) + unat (buf ! 23)"
    using len by (simp add: pm_checksum_alt mult.commute)
  show "pm_checksum buf \<and> i < 24 \<and> v \<noteq> buf ! i \<longrightarrow> \<not> pm_checksum (buf[i := v])"
  proof (intro impI notI; elim conjE)
    assume ok: "pm_checksum buf" "pm_checksum (buf[i := v])" and i: "i < 24" and v: "v \<noteq> buf ! i"
    have nv: "unat v \<noteq> unat (buf ! i)" using v by (simp add: word_unat_eq_iff)
    consider "i < 22" | "i = 22" | "i = 23" using i by linarith
    then show False
    proof cases
      case 1
      then show False
        using ok len nv sum_list_take_update [OF len 1, of v] by (simp add: pm_checksum_alt)
    next
      case 2
      then show False
        using ok len nv by (simp add: pm_checksum_alt)
    next
      case 3
      then show False
        using ok len nv by (simp add: pm_checksum_alt)
    qed
  qed
qed

subsection \<open>Refinement of an exact mean\<close>

text \<open>
  Abstractly the driver keeps the list of the samples (PM1, PM2.5, PM10) received since the
  last reset. The step relation below runs the code's operations in any order, with any
  environment, and carries that list along.
\<close>

definition pm_valid :: "u8 list \<Rightarrow> bool" where
  "pm_valid buf \<longleftrightarrow> buf ! 0 = 0x42 \<and> buf ! 1 = 0x4D \<and> pm_checksum buf"

definition pm_sample :: "u8 list \<Rightarrow> nat \<times> nat \<times> nat" where
  "pm_sample buf = (unat (be16 (buf ! 4) (buf ! 5)), unat (be16 (buf ! 6) (buf ! 7)),
                    unat (be16 (buf ! 8) (buf ! 9)))"

definition pm_spec_event :: "uart_event \<Rightarrow> u8 list \<Rightarrow> (nat \<times> nat \<times> nat) list \<Rightarrow> (nat \<times> nat \<times> nat) list" where
  "pm_spec_event ev buf xs = (if ev = UART_DATA 24 \<and> pm_valid buf then xs @ [pm_sample buf] else xs)"

inductive pm_run :: "env \<Rightarrow> (nat \<times> nat \<times> nat) list \<Rightarrow> pm_state \<Rightarrow> bool" for e where
  start: "length (pm_buf st) = BUF_SIZE \<Longrightarrow> pm_run e [] (pm_accum_rst st)"
| uart: "pm_run e xs st \<Longrightarrow> uart_pm_event ev st e tr = Inr (st', tr') \<Longrightarrow>
     pm_run e (pm_spec_event ev (pm_buf st') xs) st'"
| silence: "pm_run e xs st \<Longrightarrow> vTimerCallback st e tr = Inr (st', tr') \<Longrightarrow> pm_run e [] st'"
| poll: "pm_run e xs st \<Longrightarrow> PMS_Poll dat st = (err, dat', st') \<Longrightarrow>
     pm_run e (if err = ESP_OK then [] else xs) st'"

abbreviation exact_sum :: "((nat \<times> nat \<times> nat) \<Rightarrow> nat) \<Rightarrow> (nat \<times> nat \<times> nat) list \<Rightarrow> rat" where
  "exact_sum f xs \<equiv> of_nat (sum_list (map f xs))"

definition pm_exact :: "(nat \<times> nat \<times> nat) list \<Rightarrow> pm_data \<Rightarrow> bool" where
  "pm_exact xs acc \<longleftrightarrow> pm1 acc = exact_sum fst xs \<and> pm2_5 acc = exact_sum (fst \<circ> snd) xs
     \<and> pm10 acc = exact_sum (snd \<circ> snd) xs"

definition pm_rel :: "(nat \<times> nat \<times> nat) list \<Rightarrow> pm_state \<Rightarrow> bool" where
  "pm_rel xs st \<longleftrightarrow> length (pm_buf st) = BUF_SIZE
     \<and> (\<forall>x\<in>set xs. fst x < 65536 \<and> fst (snd x) < 65536 \<and> snd (snd x) < 65536)
     \<and> sample_count (pm_accum st) = of_nat (length xs)
     \<and> (length xs \<le> 256 \<longrightarrow> pm_exact xs (pm_accum st))"

lemma pm_rel_rst: "length (pm_buf st) = BUF_SIZE \<Longrightarrow> pm_rel [] (pm_accum_rst st)"
  by (simp add: pm_rel_def pm_accum_rst_def pm_exact_def)

text \<open>Adding one 16-bit sample to a sum of at most 255 others is exact in \<open>float\<close>.\<close>

lemma f32_accumulate:
  assumes "s \<le> n * 65535" "n < 256" "v < 65536"
  shows "f32 (of_nat s + f32 (of_nat v)) = of_nat (s + v)"
proof -
  have "n * 65535 \<le> 255 * 65535" using assms(2) by (intro mult_le_mono1) simp
  then have "s + v \<le> 2 ^ 24" using assms by simp
  moreover have "f32 (of_nat v) = of_nat v" using assms(3) by (simp add: fl_of_nat)
  ultimately show ?thesis by (simp add: fl_of_nat flip: of_nat_add)
qed

lemma sum_samples_le:
  "(\<And>x. x \<in> set xs \<Longrightarrow> f x < 65536) \<Longrightarrow> sum_list (map f xs) \<le> length xs * 65535"
  using sum_list_le_bound [of "map f xs" 65535] by fastforce

lemma pm_packet_rel:
  assumes rel: "pm_rel xs st" and run: "get_packet_from_buffer st e tr = Inr ((err, st'), tr')"
  shows "pm_rel (if pm_valid (pm_buf st) then xs @ [pm_sample (pm_buf st)] else xs) st'
    \<and> pm_buf st' = pm_buf st"
proof (cases "pm_valid (pm_buf st)")
  case False
  then show ?thesis
    using run rel by (auto simp: get_packet_from_buffer_def pm_valid_def cmd_simps)
next
  case True
  let ?b = "pm_buf st" and ?acc = "pm_accum st"
  have st': "st' = st\<lparr>pm_accum := ?acc\<lparr>
      pm1 := f32 (pm1 ?acc + f32 (of_nat (fst (pm_sample ?b)))),
      pm2_5 := f32 (pm2_5 ?acc + f32 (of_nat (fst (snd (pm_sample ?b))))),
      pm10 := f32 (pm10 ?acc + f32 (of_nat (snd (snd (pm_sample ?b))))),
      sample_count := sample_count ?acc + 1\<rparr>\<rparr>"
    using run True
    by (simp add: get_packet_from_buffer_def pm_valid_def pm_sample_def cmd_simps)
  have small: "fst (pm_sample ?b) < 65536" "fst (snd (pm_sample ?b)) < 65536"
    "snd (snd (pm_sample ?b)) < 65536"
    by (simp_all add: pm_sample_def unat_u16_less)
  have old: "fst x < 65536 \<and> (fst \<circ> snd) x < 65536 \<and> (snd \<circ> snd) x < 65536" if "x \<in> set xs" for x
    using rel that by (simp add: pm_rel_def)
  have "pm_exact (xs @ [pm_sample ?b]) (pm_accum st')" if "length xs < 256"
  proof -
    have "pm_exact xs ?acc" using rel that by (simp add: pm_rel_def)
    then show ?thesis
      using that small old sum_samples_le [of xs fst] sum_samples_le [of xs "fst \<circ> snd"]
        sum_samples_le [of xs "snd \<circ> snd"]
      by (simp add: pm_exact_def st' f32_accumulate [of _ "length xs"])
  qed
  then show ?thesis
    using rel True small old by (auto simp: pm_rel_def st')
qed

lemma length_fill_front: "length (fill_front n bs buf) = length buf"
  by (auto simp: fill_front_def Let_def)

lemma pm_rel_buf: "pm_rel xs st \<Longrightarrow> length b = BUF_SIZE \<Longrightarrow> pm_rel xs (st\<lparr>pm_buf := b\<rparr>)"
  by (simp add: pm_rel_def)

lemma pm_event_rel:
  assumes rel: "pm_rel xs st" and run: "uart_pm_event ev st e tr = Inr (st', tr')"
  shows "pm_rel (pm_spec_event ev (pm_buf st') xs) st'"
proof (cases "ev = UART_DATA 24")
  case True
  let ?st = "st\<lparr>pm_buf := fill_front 24 (ans_bytes e tr (Uart (UartReadBytes 2 24))) (pm_buf st)\<rparr>"
  obtain err tr1 where "get_packet_from_buffer ?st e (tr @ [Uart (UartReadBytes 2 24)]) = Inr ((err, st'), tr1)"
    using run True by (auto simp: uart_pm_event_def cmd_simps bindE_eq_Inr split: prod.splits)
  moreover have "pm_rel xs ?st"
    using rel by (intro pm_rel_buf) (simp_all add: length_fill_front pm_rel_def)
  ultimately show ?thesis
    using pm_packet_rel True by (fastforce simp: pm_spec_event_def)
next
  case False
  then show ?thesis
    using run rel by (auto simp: uart_pm_event_def pm_spec_event_def cmd_simps split: uart_event.splits)
qed

lemma pm_poll_rel:
  assumes "pm_rel xs st" "PMS_Poll dat st = (err, dat', st')"
  shows "pm_rel (if err = ESP_OK then [] else xs) st'"
proof -
  have "length (pm_buf st) = BUF_SIZE" using assms(1) by (simp add: pm_rel_def)
  then show ?thesis
    using assms pm_rel_rst [of st] by (auto simp: PMS_Poll_def Let_def split: if_splits)
qed

lemma pm_run_rel: "pm_run e xs st \<Longrightarrow> pm_rel xs st"
proof (induction rule: pm_run.induct)
  case (start st)
  then show ?case by (rule pm_rel_rst)
next
  case (uart xs st ev tr st' tr')
  then show ?case by (blast intro: pm_event_rel)
next
  case (silence xs st tr st' tr')
  then show ?case
    using pm_rel_rst [of st] by (auto simp: vTimerCallback_def cmd_simps pm_rel_def)
next
  case (poll xs st dat err dat' st')
  then show ?case by (blast intro: pm_poll_rel)
qed

text \<open>A poll in a state that stands for a list of samples.\<close>

lemma pm_poll_empty:
  "pm_rel [] st \<Longrightarrow> PMS_Poll dat st = (ESP_FAIL, dat\<lparr>pm1 := - 1, pm2_5 := - 1, pm10 := - 1\<rparr>, st)"
  by (simp add: PMS_Poll_def pm_rel_def Let_def)

lemma pm_poll_mean:
  assumes rel: "pm_rel xs st" and n: "xs \<noteq> []" "length xs \<le> 256"
  shows "PMS_Poll dat st = (ESP_OK,
      dat\<lparr>pm1 := f32 (exact_sum fst xs / of_nat (length xs)),
          pm2_5 := f32 (exact_sum (fst \<circ> snd) xs / of_nat (length xs)),
          pm10 := f32 (exact_sum (snd \<circ> snd) xs / of_nat (length xs))\<rparr>, pm_accum_rst st)"
proof -
  have ex: "pm_exact xs (pm_accum st)"
    and cnt: "sample_count (pm_accum st) = of_nat (length xs)"
    using rel n by (simp_all add: pm_rel_def)
  have len: "length xs < 2 ^ 32" using n by simp
  then have u: "unat (sample_count (pm_accum st)) = length xs"
    unfolding cnt by (simp add: unat_of_nat take_bit_nat_eq_self)
  then have "sample_count (pm_accum st) \<noteq> 0"
    using n by auto
  moreover have "f32 (of_nat (length xs)) = of_nat (length xs)"
    using n by (intro fl_of_nat) auto
  ultimately show ?thesis
    using ex u by (simp add: PMS_Poll_def pm_exact_def Let_def)
qed

text \<open>
  C9. In every run of the driver, over any interleaving of UART events, silence time-outs and
  polls, a poll after at most 256 valid packets since the last reset reports, for each of the three
  sizes, the exact mean of the received 16-bit values rounded once to a \<open>float\<close>: up to that many
  packets the \<open>float\<close> accumulators lose nothing. It then clears the accumulator. A poll after none
  fails, reports minus one three times and changes nothing.
\<close>

theorem pm_poll_exact_mean:
  assumes "pm_run e xs st" "length xs \<le> 256"
  shows "PMS_Poll dat st = (if xs = [] then (ESP_FAIL, dat\<lparr>pm1 := - 1, pm2_5 := - 1, pm10 := - 1\<rparr>, st)
    else (ESP_OK,
      dat\<lparr>pm1 := f32 (exact_sum fst xs / of_nat (length xs)),
          pm2_5 := f32 (exact_sum (fst \<circ> snd) xs / of_nat (length xs)),
          pm10 := f32 (exact_sum (snd \<circ> snd) xs / of_nat (length xs))\<rparr>, pm_accum_rst st))"
proof (cases "xs = []")
  case True
  then show ?thesis using pm_run_rel [OF assms(1)] pm_poll_empty by simp
next
  case False
  then show ?thesis using pm_poll_mean [OF pm_run_rel [OF assms(1)] False assms(2)] by simp
qed

subsection \<open>A run with one packet\<close>

definition pm_demo_bytes :: "u8 list" where
  "pm_demo_bytes = [0x42, 0x4D, 0, 20, 0, 10, 0, 25, 0, 40, 0, 0, 0, 0, 0, 0, 0, 0, 0, 0, 0, 0, 0, 238]"

definition pm_demo_env :: env where
  "pm_demo_env = silent_env\<lparr>ans_int := (\<lambda>_ _. 24),
     ans_bytes := (\<lambda>_ _. map (\<lambda>b. char_of (unat b)) pm_demo_bytes)\<rparr>"

definition pm_demo_init :: pm_state where
  "pm_demo_init = \<lparr>pm_accum = \<lparr>sample_count = 0, pm1 = 0, pm2_5 = 0, pm10 = 0\<rparr>,
     pm_buf = replicate BUF_SIZE 0\<rparr>"

definition pm_demo_state :: pm_state where
  "pm_demo_state = \<lparr>pm_accum = \<lparr>sample_count = 1, pm1 = 10, pm2_5 = 25, pm10 = 40\<rparr>,
     pm_buf = pm_demo_bytes @ replicate 120 0\<rparr>"

lemma pm_demo_event:
  "uart_pm_event (UART_DATA 24) (pm_accum_rst pm_demo_init) pm_demo_env [] =
     Inr (pm_demo_state, [Uart (UartReadBytes 2 24), Rtos (TimerReset ''pm_timer''), Uart (UartFlushInput 2)])"
  by code_simp

lemma pm_demo_run: "pm_run pm_demo_env [(10, 25, 40)] pm_demo_state"
proof -
  have "pm_run pm_demo_env [] (pm_accum_rst pm_demo_init)"
    by (rule pm_run.start) (simp add: pm_demo_init_def)
  from pm_run.uart [OF this pm_demo_event] show ?thesis
    by (rule back_subst [of "\<lambda>xs. pm_run pm_demo_env xs pm_demo_state"]) code_simp
qed

theorem pm_poll_exact_mean_witness:
  "PMS_Poll (pm_accum pm_demo_init) pm_demo_state =
     (ESP_OK, \<lparr>sample_count = 0, pm1 = 10, pm2_5 = 25, pm10 = 40\<rparr>, pm_accum_rst pm_demo_state)"
proof -
  have "f32 10 = 10" "f32 25 = 25" "f32 40 = 40" by code_simp+
  with pm_poll_exact_mean [OF pm_demo_run, of "pm_accum pm_demo_init"] show ?thesis
    by (simp add: pm_demo_init_def)
qed

theorem pm_checksum_detects_witness:
  "length (pm_buf pm_demo_state) = BUF_SIZE \<and> pm_checksum (pm_buf pm_demo_state)
   \<and> \<not> pm_checksum ((pm_buf pm_demo_state)[5 := 11])"
proof -
  have len: "length (pm_buf pm_demo_state) = BUF_SIZE"
    and ok: "pm_checksum (pm_buf pm_demo_state)"
    and ne: "11 \<noteq> pm_buf pm_demo_state ! 5"
    by code_simp+
  show ?thesis
    using len ok ne pm_checksum_detects [OF len, of 5 11] by simp
qed

end
