(* ===== verification/ApFilter.thy ===== *)
theory ApFilter
  imports Platform
begin

text \<open>
  The list of scanned access points and \<open>wifi_manager_filter_unique\<close> of
  \<open>main/wifi_manager.c\<close>: in place, records with the same SSID and authentication mode are
  merged into the first one, which keeps the strongest signal, cleared records are squeezed out
  and the length is updated. The model keeps both passes over the array with their indices and
  the search for the next free slot; it is shown to compute the list of the distinct networks.
\<close>

subsection \<open>Records\<close>

definition zero_ap :: wifi_ap_record where
  "zero_ap = \<lparr>ssid = [], primary = 0, rssi = 0, authmode = 0, ap_other = []\<rparr>"

subsection \<open>The code\<close>

text \<open>The body of the inner loop: merge record \<open>j\<close> into record \<open>i\<close> when they agree.\<close>

definition filter_merge :: "nat \<Rightarrow> nat \<Rightarrow> wifi_ap_record list \<Rightarrow> wifi_ap_record list" where
  "filter_merge i j l =
     (let ap = l ! i; ap1 = l ! j in
      if ssid ap = ssid ap1 \<and> authmode ap = authmode ap1
      then (let l = (if rssi ap < rssi ap1 then l[i := ap\<lparr>rssi := rssi ap1\<rparr>] else l)
            in l[j := zero_ap])
      else l)"

definition filter_pass1 :: "nat \<Rightarrow> wifi_ap_record list \<Rightarrow> wifi_ap_record list" where
  "filter_pass1 n l =
     fold (\<lambda>i l. if ssid (l ! i) = [] then l else fold (filter_merge i) [i + 1..<n] l) [0..<n - 1] l"

text \<open>The search for the next free slot, which leaves \<open>first_free\<close> alone when there is none.\<close>

fun find_free :: "wifi_ap_record list \<Rightarrow> nat list \<Rightarrow> nat \<Rightarrow> nat" where
  "find_free l [] old = old"
| "find_free l (j # js) old = (if ssid (l ! j) = [] then j else find_free l js old)"

type_synonym compact_state = "wifi_ap_record list \<times> nat option \<times> int"

definition filter_compact :: "nat \<Rightarrow> nat \<Rightarrow> compact_state \<Rightarrow> compact_state" where
  "filter_compact n i s =
     (let (l, first_free, total_unique) = s in
      if ssid (l ! i) = []
      then (l, (case first_free of None \<Rightarrow> Some i | Some f \<Rightarrow> Some f), total_unique - 1)
      else (case first_free of
              None \<Rightarrow> (l, None, total_unique)
            | Some f \<Rightarrow>
                let l = l[f := l ! i]; l = l[i := zero_ap]
                in (l, Some (find_free l [0..<n] f), total_unique)))"

definition filter_pass2 :: "nat \<Rightarrow> wifi_ap_record list \<Rightarrow> wifi_ap_record list \<times> int" where
  "filter_pass2 n l =
     (let (l, _, total_unique) = fold (filter_compact n) [0..<n] (l, None, int n)
      in (l, total_unique))"

definition wifi_manager_filter_unique ::
    "wifi_ap_record list \<Rightarrow> u16 \<Rightarrow> (wifi_ap_record list \<times> u16) cmd" where
  "wifi_manager_filter_unique aplist aps =
     (let (l, total_unique) = filter_pass2 (unat aps) (filter_pass1 (unat aps) aplist)
      in thenC (doC (Wifi WifiDeinit)) (ret (l, word_of_int total_unique)))"

subsection \<open>The first pass, as recursion on the list\<close>

definition same_net :: "wifi_ap_record \<Rightarrow> wifi_ap_record \<Rightarrow> bool" where
  "same_net a b \<longleftrightarrow> ssid a = ssid b \<and> authmode a = authmode b"

fun merge_into :: "wifi_ap_record \<Rightarrow> wifi_ap_record list \<Rightarrow> wifi_ap_record" where
  "merge_into a [] = a"
| "merge_into a (x # xs) =
     merge_into (if same_net a x \<and> rssi a < rssi x then a\<lparr>rssi := rssi x\<rparr> else a) xs"

definition clear_same :: "wifi_ap_record \<Rightarrow> wifi_ap_record list \<Rightarrow> wifi_ap_record list" where
  "clear_same a xs = map (\<lambda>x. if same_net a x then zero_ap else x) xs"

lemma length_clear_same [simp]: "length (clear_same a xs) = length xs"
  by (simp add: clear_same_def)

function uniq :: "wifi_ap_record list \<Rightarrow> wifi_ap_record list" where
  "uniq [] = []"
| "uniq (a # r) =
     (if ssid a = [] then a # uniq r else merge_into a r # uniq (clear_same a r))"
  by pat_completeness auto
termination
  by (relation "measure length") auto

lemma clear_same_rssi [simp]: "clear_same (a\<lparr>rssi := v\<rparr>) xs = clear_same a xs"
  by (simp add: clear_same_def same_net_def)

lemma same_net_rssi [simp]: "same_net (a\<lparr>rssi := v\<rparr>) x = same_net a x"
  by (simp add: same_net_def)

lemma filter_merge_at:
  "filter_merge (length p) (length p + Suc (length q)) (p @ a # q @ x # r) =
     p @ (if same_net a x \<and> rssi a < rssi x then a\<lparr>rssi := rssi x\<rparr> else a)
       # q @ (if same_net a x then zero_ap else x) # r"
  by (simp add: filter_merge_def same_net_def list_update_append nth_append)

lemma filter_inner:
  "fold (filter_merge (length p)) [length p + Suc (length q)..<length p + Suc (length q) + length r]
     (p @ a # q @ r @ t) = p @ merge_into a r # q @ clear_same a r @ t"
proof (induction r arbitrary: a q)
  case Nil
  then show ?case by (simp add: clear_same_def)
next
  case (Cons x r)
  let ?a = "if same_net a x \<and> rssi a < rssi x then a\<lparr>rssi := rssi x\<rparr> else a"
  let ?x = "if same_net a x then zero_ap else x"
  have range: "[length p + Suc (length q)..<length p + Suc (length q) + length (x # r)] =
      (length p + Suc (length q)) # [length p + Suc (length (q @ [?x]))..<length p + Suc (length (q @ [?x])) + length r]"
    using upt_add_Suc [of "length p + Suc (length q)" "length r"] by (simp del: upt_Suc)
  show ?case
    using Cons.IH [of "q @ [?x]" ?a]
    by (simp only: range fold.simps comp_apply filter_merge_at append_Cons) (auto simp: clear_same_def)
qed

lemma filter_outer:
  assumes "n = length p + length s"
  shows "fold (\<lambda>i l. if ssid (l ! i) = [] then l else fold (filter_merge i) [i + 1..<n] l)
     [length p..<n - Suc 0] (p @ s @ t) = p @ uniq s @ t"
  using assms
proof (induction s arbitrary: p rule: uniq.induct)
  case 1
  then show ?case by simp
next
  case (2 a r)
  show ?case
  proof (cases r)
    case Nil
    then show ?thesis using "2.prems" by (simp add: clear_same_def)
  next
    case (Cons x r')
    have range: "[length p..<n - Suc 0] = length p # [Suc (length p)..<n - Suc 0]"
      using "2.prems" Cons by (subst upt_conv_Cons) simp_all
    have len: "n = length (p @ [y]) + length r" for y
      using "2.prems" by simp
    have len': "n = length (p @ [y]) + length (clear_same a r)" for y
      using "2.prems" by simp
    have inner: "fold (filter_merge (length p)) [length p + 1..<n] (p @ a # r @ t) =
        p @ merge_into a r # clear_same a r @ t"
      using filter_inner [of p "[]" r a t] "2.prems" by (simp add: add.commute)
    show ?thesis
    proof (cases "ssid a = []")
      case True
      then show ?thesis
        using "2.IH"(1) [OF True len] by (simp add: range)
    next
      case False
      then show ?thesis
        using "2.IH"(2) [OF False len', of "merge_into a r"] inner by (simp add: range)
    qed
  qed
qed

lemma filter_pass1_uniq: "filter_pass1 (length l) (l @ t) = uniq l @ t"
  using filter_outer [of "length l" "[]" l t] by (simp add: filter_pass1_def)

lemma length_uniq [simp]: "length (uniq l) = length l"
  by (induction l rule: uniq.induct) simp_all

subsection \<open>The second pass\<close>

definition named :: "wifi_ap_record \<Rightarrow> bool" where
  "named a \<longleftrightarrow> ssid a \<noteq> []"

lemma find_free_at:
  assumes "\<forall>a \<in> set as. named a" "\<not> named b" "n = length as + Suc m"
  shows "find_free (as @ b # bs) [0..<n] old = length as"
proof -
  have skip: "find_free l (js @ j # ks) old = j"
    if "\<forall>i \<in> set js. named (l ! i)" "\<not> named (l ! j)" for l js j ks
    using that by (induction js) (auto simp: named_def)
  have "[0..<n] = [0..<length as] @ length as # [Suc (length as)..<n]"
    using upt_add_eq_append [of 0 "length as" "Suc m"] upt_add_Suc [of "length as" m] assms(3)
    by (simp del: upt_Suc)
  then show ?thesis
    using skip [of "[0..<length as]" "as @ b # bs" "length as"] assms(1,2)
    by (auto simp: nth_append)
qed

text \<open>
  While the second pass runs, the array is: the named records seen so far, moved to the front;
  unnamed ones; the records not yet seen. The free slot is the first of the unnamed ones.
\<close>

definition compact_inv :: "wifi_ap_record list \<Rightarrow> wifi_ap_record list \<Rightarrow> nat \<Rightarrow> compact_state \<Rightarrow> bool" where
  "compact_inv u t i s \<longleftrightarrow>
     (\<exists>zs. let front = filter named (take i u) in
        (\<forall>z \<in> set zs. \<not> named z) \<and>
        length front + length zs = i \<and>
        s = (front @ zs @ drop i u @ t,
             (if zs = [] then None else Some (length front)),
             int (length u) - int (length zs)))"

lemma compact_step:
  assumes "compact_inv u t i s" "i < length u"
  shows "compact_inv u t (Suc i) (filter_compact (length u) i s)"
proof -
  define front where "front = filter named (take i u)"
  obtain zs where zs: "\<forall>z \<in> set zs. \<not> named z" and len: "length front + length zs = i"
    and s: "s = (front @ zs @ drop i u @ t, (if zs = [] then None else Some (length front)),
                 int (length u) - int (length zs))"
    using assms(1) by (auto simp: compact_inv_def front_def Let_def)
  define x where "x = u ! i"
  have rest: "drop i u = x # drop (Suc i) u" and front': "filter named (take (Suc i) u) = front @ (if named x then [x] else [])"
    using assms(2) by (simp_all add: x_def front_def nth_drop_hd take_Suc_conv_app_nth)
  have at: "(front @ zs @ drop i u @ t) ! i = x"
    using len rest by (auto simp: nth_append)
  have front_named: "\<forall>a \<in> set front. named a" by (simp add: front_def)
  consider (skip) "\<not> named x" | (stay) "named x" "zs = []" | (move) z zs' where "named x" "zs = z # zs'"
    by (cases zs) auto
  then show ?thesis
  proof cases
    case skip
    then have "filter_compact (length u) i s =
        (front @ (zs @ [x]) @ drop (Suc i) u @ t, Some (length front), int (length u) - int (length (zs @ [x])))"
      using at len rest by (auto simp: s filter_compact_def named_def)
    then show ?thesis
      using skip zs len unfolding compact_inv_def Let_def front'
      by (intro exI [of _ "zs @ [x]"]) simp
  next
    case stay
    then have "filter_compact (length u) i s = (front @ x # drop (Suc i) u @ t, None, int (length u))"
      using at rest by (simp add: s filter_compact_def named_def)
    then show ?thesis
      using stay len unfolding compact_inv_def Let_def front' by (intro exI [of _ "[]"]) simp
  next
    case move
    have moved: "(front @ z # zs' @ x # drop (Suc i) u @ t)[length front := x, i := zero_ap] =
        (front @ [x]) @ (zs' @ [zero_ap]) @ drop (Suc i) u @ t"
      using len move(2) by (auto simp: list_update_append)
    obtain y ys where ys: "(zs' @ [zero_ap]) @ drop (Suc i) u @ t = y # ys" "\<not> named y"
      using zs move(2) by (cases zs') (auto simp: named_def zero_ap_def)
    have "find_free ((front @ [x]) @ y # ys) [0..<length u] (length front) = length (front @ [x])"
      using move len assms(2) front_named ys(2)
      by (intro find_free_at [where m = "length u - length front - 2"]) auto
    then have "filter_compact (length u) i s =
        ((front @ [x]) @ (zs' @ [zero_ap]) @ drop (Suc i) u @ t, Some (length (front @ [x])),
         int (length u) - int (length zs))"
      using at move rest moved ys(1) by (simp add: s filter_compact_def named_def Let_def)
    then show ?thesis
      using move zs len unfolding compact_inv_def Let_def front'
      by (intro exI [of _ "zs' @ [zero_ap]"]) (auto simp: named_def zero_ap_def)
  qed
qed

lemma filter_pass2_compact:
  "\<exists>zs. (\<forall>z \<in> set zs. \<not> named z) \<and> length (filter named u) + length zs = length u \<and>
     filter_pass2 (length u) (u @ t) = (filter named u @ zs @ t, int (length (filter named u)))"
proof -
  have "compact_inv u t i (fold (filter_compact (length u)) [0..<i] (u @ t, None, int (length u)))"
    if "i \<le> length u" for i
    using that
  proof (induction i)
    case 0
    then show ?case by (simp add: compact_inv_def)
  next
    case (Suc i)
    then show ?case using compact_step [of u t i] by simp
  qed
  from this [of "length u"] show ?thesis
    by (fastforce simp: compact_inv_def filter_pass2_def Let_def)
qed

subsection \<open>What the filter promises\<close>

text \<open>
  A network is an SSID with an authentication mode. The specification lists the networks of the
  named records in the order of their first records; each is described by its first record,
  with the strongest signal of its records.
\<close>

definition net_key :: "wifi_ap_record \<Rightarrow> string \<times> nat" where
  "net_key a = (ssid a, authmode a)"

fun nub :: "'a list \<Rightarrow> 'a list" where
  "nub [] = []"
| "nub (x # xs) = x # nub (removeAll x xs)"

definition strongest :: "wifi_ap_record list \<Rightarrow> string \<times> nat \<Rightarrow> wifi_ap_record" where
  "strongest l k =
     (let g = filter (\<lambda>x. net_key x = k) l in (hd g)\<lparr>rssi := Max (rssi ` set g)\<rparr>)"

definition unique_aps :: "wifi_ap_record list \<Rightarrow> wifi_ap_record list" where
  "unique_aps l = map (strongest l) (nub (map net_key (filter named l)))"

lemma set_nub [simp]: "set (nub xs) = set xs"
  by (induction xs rule: nub.induct) auto

lemma distinct_nub [simp]: "distinct (nub xs)"
  by (induction xs rule: nub.induct) auto

lemma same_net_key: "same_net a x \<longleftrightarrow> net_key x = net_key a"
  by (auto simp: same_net_def net_key_def)

lemma Max_insert_dominated:
  assumes "finite S" "(b :: int) \<le> a"
  shows "Max (insert a (insert b S)) = Max (insert a S)"
proof -
  have "b \<le> Max (insert a S)"
    using assms by (meson Max_ge finite_insert insertI1 order_trans)
  then show ?thesis
    using assms(1) Max_insert [of "insert a S" b] by (simp add: insert_commute max_def)
qed

lemma merge_into_max:
  "merge_into a r = a\<lparr>rssi := Max (insert (rssi a) (rssi ` set (filter (same_net a) r)))\<rparr>"
proof (induction r arbitrary: a)
  case (Cons x r)
  let ?S = "rssi ` set (filter (same_net a) r)"
  consider (up) "same_net a x" "rssi a < rssi x" | (same) "same_net a x" "rssi x \<le> rssi a"
    | (other) "\<not> same_net a x" by linarith
  then show ?case
  proof cases
    case up
    then have "merge_into a (x # r) = a\<lparr>rssi := Max (insert (rssi x) ?S)\<rparr>"
      using Cons.IH [of "a\<lparr>rssi := rssi x\<rparr>"] by simp
    then show ?thesis
      using up Max_insert_dominated [of ?S "rssi a" "rssi x"] by (simp add: insert_commute)
  next
    case same
    then show ?thesis
      using Cons.IH [of a] Max_insert_dominated [of ?S "rssi x" "rssi a"] by simp
  qed (simp add: Cons.IH)
qed simp

lemma strongest_Cons_other: "net_key a \<noteq> k \<Longrightarrow> strongest (a # r) k = strongest r k"
  by (simp add: strongest_def)

lemma strongest_Cons_same: "strongest (a # r) (net_key a) = merge_into a r"
  by (simp add: strongest_def merge_into_max same_net_key [abs_def] eq_commute)

lemma filter_key_clear:
  assumes "fst k \<noteq> []" "net_key a \<noteq> k"
  shows "filter (\<lambda>x. net_key x = k) (clear_same a r) = filter (\<lambda>x. net_key x = k) r"
  using assms by (induction r) (auto simp: clear_same_def same_net_key net_key_def zero_ap_def)

lemma keys_clear_same:
  "map net_key (filter named (clear_same a r)) = removeAll (net_key a) (map net_key (filter named r))"
  by (induction r) (auto simp: clear_same_def same_net_key named_def zero_ap_def)

lemma uniq_unique_aps: "filter named (uniq l) = unique_aps l"
proof (induction l rule: uniq.induct)
  case 1
  then show ?case by (simp add: unique_aps_def)
next
  case (2 a r)
  show ?case
  proof (cases "ssid a = []")
    case True
    have "strongest (a # r) (net_key x) = strongest r (net_key x)" if "named x" for x
      using that True by (intro strongest_Cons_other) (simp add: net_key_def named_def)
    then show ?thesis
      using 2(1) [OF True] True by (auto simp: unique_aps_def named_def)
  next
    case False
    have "strongest (clear_same a r) (net_key x) = strongest (a # r) (net_key x)"
      if "named x" "net_key x \<noteq> net_key a" for x
    proof -
      have "filter (\<lambda>y. net_key y = net_key x) (clear_same a r) = filter (\<lambda>y. net_key y = net_key x) (a # r)"
        using that filter_key_clear [of "net_key x" a r] by (auto simp: named_def net_key_def)
      then show ?thesis by (simp only: strongest_def)
    qed
    then have "unique_aps (clear_same a r) =
        map (strongest (a # r)) (nub (removeAll (net_key a) (map net_key (filter named r))))"
      by (fastforce simp: unique_aps_def keys_clear_same)
    moreover have "named (merge_into a r)"
      using False by (simp add: merge_into_max named_def)
    ultimately show ?thesis
      using 2(2) [OF False] False by (simp add: unique_aps_def named_def strongest_Cons_same)
  qed
qed

lemma length_unique_aps: "length (unique_aps l) \<le> length l"
  by (metis length_filter_le length_uniq uniq_unique_aps)

lemma unique_aps_keys: "map net_key (unique_aps l) = nub (map net_key (filter named l))"
proof -
  have "net_key (strongest l k) = k" if "k \<in> set (map net_key (filter named l))" for k
  proof -
    have "filter (\<lambda>x. net_key x = k) l \<noteq> []"
      using that by (auto simp: filter_empty_conv)
    then have "net_key (hd (filter (\<lambda>x. net_key x = k) l)) = k"
      using hd_in_set [of "filter (\<lambda>x. net_key x = k) l"] by auto
    then show ?thesis by (simp add: strongest_def Let_def net_key_def)
  qed
  then show ?thesis
    unfolding unique_aps_def map_map by (intro map_idI) simp
qed

lemma filter_unique_run:
  assumes "length l < 2 ^ 16"
  shows "\<exists>zs. wifi_manager_filter_unique (l @ t) (word_of_nat (length l)) e tr =
           Inr ((unique_aps l @ zs @ t, word_of_nat (length (unique_aps l))), tr @ [Wifi WifiDeinit]) \<and>
         (\<forall>z \<in> set zs. ssid z = []) \<and> length (unique_aps l) + length zs = length l"
proof -
  have n: "unat (word_of_nat (length l) :: u16) = length l"
    using assms by (simp add: unat_of_nat take_bit_nat_eq_self)
  obtain zs where "\<forall>z \<in> set zs. \<not> named z" "length (filter named (uniq l)) + length zs = length (uniq l)"
    "filter_pass2 (length (uniq l)) (uniq l @ t) = (filter named (uniq l) @ zs @ t, int (length (filter named (uniq l))))"
    using filter_pass2_compact by metis
  then show ?thesis
    by (intro exI [of _ zs])
       (auto simp: wifi_manager_filter_unique_def n filter_pass1_uniq uniq_unique_aps cmd_simps named_def)
qed

text \<open>Every record of the result is a record of the scan, but for its signal, which is another's.\<close>

lemma unique_aps_from:
  assumes "a \<in> set (unique_aps l)"
  obtains b c where "b \<in> set l" "c \<in> set l" "a = b\<lparr>rssi := rssi c\<rparr>"
proof -
  obtain x where x: "x \<in> set l" "a = strongest l (net_key x)" using assms by (auto simp: unique_aps_def)
  let ?g = "filter (\<lambda>y. net_key y = net_key x) l"
  have g: "set ?g \<noteq> {}" "?g \<noteq> []" using x(1) by (auto simp: filter_empty_conv)
  then have "Max (rssi ` set ?g) \<in> rssi ` set ?g" by (intro Max_in) (simp_all only: finite_imageI finite_set image_is_empty not_False_eq_True)
  then obtain c where "c \<in> set l" "rssi c = Max (rssi ` set ?g)" by auto
  moreover have "hd ?g \<in> set l" using hd_in_set [OF g(2)] by simp
  ultimately show ?thesis using that x(2) by (simp add: strongest_def Let_def)
qed

text \<open>
  C13: on an array whose first \<open>*aps\<close> records are a scan result, the filter never reads or writes
  past these records; it leaves the networks of the scan, each once, in the order of first
  appearance, each with its strongest signal, in front, unnamed records behind them up to the
  old length, sets \<open>*aps\<close> to the number of networks, and stops the Wi-Fi driver.
\<close>

theorem wifi_manager_filter_unique_spec:
  assumes "length l < 2 ^ 16"
  shows "\<exists>zs. wifi_manager_filter_unique (l @ t) (word_of_nat (length l)) e tr =
           Inr ((unique_aps l @ zs @ t, word_of_nat (length (unique_aps l))), tr @ [Wifi WifiDeinit]) \<and>
         (\<forall>z \<in> set zs. ssid z = []) \<and> length (unique_aps l) + length zs = length l \<and>
         distinct (map net_key (unique_aps l)) \<and>
         set (map net_key (unique_aps l)) = net_key ` {a \<in> set l. ssid a \<noteq> []}"
proof -
  have "set (map net_key (unique_aps l)) = net_key ` {a \<in> set l. ssid a \<noteq> []}"
    unfolding unique_aps_keys by (simp add: named_def)
  moreover have "distinct (map net_key (unique_aps l))"
    unfolding unique_aps_keys by simp
  ultimately show ?thesis using filter_unique_run [OF assms, of t e tr] by blast
qed

definition demo_scan :: "wifi_ap_record list" where
  "demo_scan =
     [\<lparr>ssid = ''home'', primary = 1, rssi = - 70, authmode = 3, ap_other = []\<rparr>,
      \<lparr>ssid = ''cafe'', primary = 6, rssi = - 60, authmode = 0, ap_other = []\<rparr>,
      \<lparr>ssid = ''home'', primary = 11, rssi = - 50, authmode = 3, ap_other = []\<rparr>]"

lemma wifi_manager_filter_unique_spec_witness:
  "length demo_scan < 2 ^ 16 \<and> map rssi (unique_aps demo_scan) = [- 50, - 60] \<and>
   (\<exists>zs. wifi_manager_filter_unique (demo_scan @ [zero_ap]) (word_of_nat 3)
       silent_env [] =
     Inr ((unique_aps demo_scan @ zs @ [zero_ap], 2), [Wifi WifiDeinit]))"
proof -
  have "length demo_scan = 3" "length (unique_aps demo_scan) = 2"
       "map rssi (unique_aps demo_scan) = [- 50, - 60]"
    by (simp_all add: demo_scan_def unique_aps_def strongest_def net_key_def named_def)
  then show ?thesis
    using wifi_manager_filter_unique_spec [of demo_scan "[zero_ap]"
        silent_env "[]"]
    by auto
qed

end
