(* ===== verification/Hdc1080.thy ===== *)
theory Hdc1080
  imports Platform Fp
begin

text \<open>
  The temperature and humidity sensor driver, \<open>main/hdc1080_if.c\<close>. The conversion of the raw
  16-bit readings is in double precision; it is shown to be exact. The I2C command links the
  driver allocates are part of the calls, so that their release can be stated.
\<close>

subsection \<open>The code\<close>

definition I2C_MASTER_SCL_GPIO :: nat where [simp]: "I2C_MASTER_SCL_GPIO = 27"
definition I2C_MASTER_SDA_GPIO :: nat where [simp]: "I2C_MASTER_SDA_GPIO = 26"
definition I2C_MASTER_FREQ_HZ :: nat where [simp]: "I2C_MASTER_FREQ_HZ = 100000"
definition HDC1080_CONF_COMB :: u16 where [simp]: "HDC1080_CONF_COMB = push_bit 12 1"
definition ACK_VAL :: bool where [simp]: "ACK_VAL = True"
definition NACK_VAL :: bool where [simp]: "NACK_VAL = False"
definition HDC1080_DEV_ADDR :: u8 where "HDC1080_DEV_ADDR = 0x40"
definition HDC1080_CONF_ADDR :: u8 where "HDC1080_CONF_ADDR = 0x02"
definition HDC1080_TEMP_REG :: u8 where "HDC1080_TEMP_REG = 0x00"

definition i2c_write :: "u8 \<Rightarrow> unit cmd" where
  "i2c_write b = doC (Io (I2cWriteByte b))"

definition HDC1080_Initialize :: "esp_err cmd" where
  "HDC1080_Initialize =
     (let hdc1080_conf = (0 :: u16) OR HDC1080_CONF_COMB in
      thenC (seqC [doC (Io (I2cParamConfig I2C_MASTER_SDA_GPIO I2C_MASTER_SCL_GPIO I2C_MASTER_FREQ_HZ)), doC (Io I2cDriverInstall),
                   doC (Io I2cCmdLinkCreate),
                   i2c_write (push_bit 1 HDC1080_DEV_ADDR OR 0),
                   i2c_write HDC1080_CONF_ADDR,
                   i2c_write (ucast (drop_bit 8 hdc1080_conf)),
                   i2c_write (ucast (hdc1080_conf AND 0xff))])
        (bindC (askI (Io I2cCmdBegin)) (\<lambda>r.
         thenC (doC (Io I2cCmdLinkDelete)) (ret r))))"

text \<open>
  The four bytes of a measurement are the bytes the read transaction delivers; a transaction
  that succeeds with fewer would leave \<open>data\<close> uninitialised.
\<close>

definition hdc_raw :: "u8 \<Rightarrow> u8 \<Rightarrow> nat" where
  "hdc_raw hi lo = unat hi * 256 + unat lo"

definition hdc_convert :: "rat \<Rightarrow> u8 \<Rightarrow> u8 \<Rightarrow> rat" where
  "hdc_convert scale hi lo = f64 (f64 (f64 (of_nat (hdc_raw hi lo)) / 65536) * scale)"

definition HDC1080_Poll :: "rat \<Rightarrow> rat \<Rightarrow> (esp_err \<times> rat \<times> rat) cmd" where
  "HDC1080_Poll temp hum =
     thenC (seqC [doC (Io I2cCmdLinkCreate),
                  i2c_write (push_bit 1 HDC1080_DEV_ADDR OR 0), i2c_write HDC1080_TEMP_REG])
     (bindC (askI (Io I2cCmdBegin)) (\<lambda>r.
      if r \<noteq> ESP_OK then ret (r, temp, hum) else
      thenC (seqC [doC (Io I2cCmdLinkDelete), doC (Rtos (TaskDelay 100)),
                   doC (Io I2cCmdLinkCreate), i2c_write (push_bit 1 HDC1080_DEV_ADDR OR 1),
                   doC (Io (I2cReadByte ACK_VAL)), doC (Io (I2cReadByte ACK_VAL)),
                   doC (Io (I2cReadByte ACK_VAL)), doC (Io (I2cReadByte NACK_VAL))])
      (bindC (askIS (Io I2cCmdBegin)) (\<lambda>(r, bs).
       thenC (doC (Io I2cCmdLinkDelete))
       (if r \<noteq> ESP_OK then ret (r, temp, hum) else
        if length bs < 4 then failC Undefined else
        ret (r, f64 (hdc_convert 165 (of_char (bs ! 0)) (of_char (bs ! 1)) - 40),
             hdc_convert 100 (of_char (bs ! 2)) (of_char (bs ! 3))))))))"

subsection \<open>Exactness\<close>

lemma hdc_raw_less: "hdc_raw hi lo < 65536"
  using unat_u8_le [of hi] unat_u8_le [of lo] by (simp add: hdc_raw_def)

lemma hdc_raw_le: "(of_nat (hdc_raw hi lo) :: rat) \<le> 65535"
proof -
  have "hdc_raw hi lo \<le> 65535" using hdc_raw_less [of hi lo] by simp
  then show ?thesis by (metis of_nat_le_iff of_nat_numeral)
qed

lemma hdc_convert_exact:
  assumes "scale \<le> 165"
  shows "hdc_convert (of_nat scale) hi lo = of_nat (hdc_raw hi lo) * of_nat scale / 65536"
proof -
  let ?raw = "hdc_raw hi lo"
  have 1: "f64 (of_nat ?raw) = of_nat ?raw"
    using hdc_raw_less [of hi lo] by (intro fl_of_nat) auto
  have 2: "f64 (of_nat ?raw / 65536) = of_nat ?raw / 65536"
    using fl_dyadic [of "int ?raw" 53 16] hdc_raw_less [of hi lo] by simp
  have "?raw * scale \<le> 65536 * 165" using hdc_raw_less [of hi lo] assms by (intro mult_mono) auto
  then have "int (?raw * scale) < 2 ^ 53" by (simp flip: of_nat_mult)
  then have 3: "f64 (of_nat ?raw / 65536 * of_nat scale) = of_nat ?raw * of_nat scale / 65536"
    using fl_dyadic [of "int (?raw * scale)" 53 16] by simp
  show ?thesis
    unfolding hdc_convert_def by (simp only: 1 2 3)
qed

lemma hdc_hum_exact: "hdc_convert 100 hi lo = of_nat (hdc_raw hi lo) * 100 / 65536"
  using hdc_convert_exact [of 100 hi lo] by simp

lemma hdc_temp_exact:
  "f64 (hdc_convert 165 hi lo - 40) = of_nat (hdc_raw hi lo) * 165 / 65536 - 40"
proof -
  let ?raw = "hdc_raw hi lo"
  have "f64 (of_int (int ?raw * 165 - 40 * 65536) / 2 ^ 16) = of_int (int ?raw * 165 - 40 * 65536) / 2 ^ 16"
    using hdc_raw_less [of hi lo] by (intro fl_dyadic) auto
  moreover have "of_int (int ?raw * 165 - 40 * 65536) / 2 ^ 16 = (of_nat ?raw * 165 / 65536 - 40 :: rat)"
    by (simp add: field_simps)
  moreover have "hdc_convert 165 hi lo = of_nat ?raw * 165 / 65536"
    using hdc_convert_exact [of 165 hi lo] by simp
  ultimately show ?thesis by (simp only:)
qed

text \<open>Command links: how many of those a trace creates it also deletes.\<close>

fun open_links :: "call list \<Rightarrow> int" where
  "open_links [] = 0"
| "open_links (Io I2cCmdLinkCreate # cs) = open_links cs + 1"
| "open_links (Io I2cCmdLinkDelete # cs) = open_links cs - 1"
| "open_links (_ # cs) = open_links cs"

lemma open_links_append: "open_links (cs @ ds) = open_links cs + open_links ds"
  by (induction cs rule: open_links.induct) simp_all

definition hdc_start :: "call list" where
  "hdc_start = [Io I2cCmdLinkCreate, Io (I2cWriteByte 0x80), Io (I2cWriteByte 0x00)]"

definition hdc_read :: "call list" where
  "hdc_read = hdc_start @ [Io I2cCmdBegin, Io I2cCmdLinkDelete, Rtos (TaskDelay 100),
     Io I2cCmdLinkCreate, Io (I2cWriteByte 0x81),
     Io (I2cReadByte True), Io (I2cReadByte True), Io (I2cReadByte True), Io (I2cReadByte False)]"

text \<open>The run of a poll on every branch.\<close>

lemma HDC1080_Poll_run:
  "HDC1080_Poll temp hum e tr =
     (let r1 = ans_int e (tr @ hdc_start) (Io I2cCmdBegin);
          tr2 = tr @ hdc_read;
          r2 = ans_int e tr2 (Io I2cCmdBegin);
          bs = ans_bytes e tr2 (Io I2cCmdBegin);
          done = tr2 @ [Io I2cCmdBegin, Io I2cCmdLinkDelete]
      in if r1 \<noteq> ESP_OK then Inr ((r1, temp, hum), tr @ hdc_start @ [Io I2cCmdBegin])
         else if r2 \<noteq> ESP_OK then Inr ((r2, temp, hum), done)
         else if length bs < 4 then Inl Undefined
         else Inr ((ESP_OK, f64 (hdc_convert 165 (of_char (bs ! 0)) (of_char (bs ! 1)) - 40),
                    hdc_convert 100 (of_char (bs ! 2)) (of_char (bs ! 3))), done))"
  by (auto simp: HDC1080_Poll_def i2c_write_def cmd_simps hdc_start_def hdc_read_def HDC1080_DEV_ADDR_def HDC1080_TEMP_REG_def)

text \<open>
  C29: a poll whose transactions succeed returns the readings with no rounding error at all,
  temperature \<open>165 * raw / 2^16 - 40\<close> and relative humidity \<open>100 * raw / 2^16\<close>, hence a
  temperature in \<open>[-40, 125)\<close> and a humidity in \<open>[0, 100)\<close>; a failed transaction gives its error
  code and leaves the readings alone. Every path frees the command links it created, except the
  one on which starting the measurement fails, which leaks one.
\<close>

theorem HDC1080_Poll_exact:
  assumes "\<And>tr. ans_int e tr (Io I2cCmdBegin) = ESP_OK \<Longrightarrow> length (ans_bytes e tr (Io I2cCmdBegin)) = 4"
  shows "\<exists>r t h cs. HDC1080_Poll temp hum e tr = Inr ((r, t, h), tr @ cs) \<and>
    (r \<noteq> ESP_OK \<longrightarrow> t = temp \<and> h = hum) \<and>
    (r = ESP_OK \<longrightarrow>
       (let bs = ans_bytes e (tr @ hdc_read) (Io I2cCmdBegin)
        in t = of_nat (hdc_raw (of_char (bs ! 0)) (of_char (bs ! 1))) * 165 / 65536 - 40 \<and>
           h = of_nat (hdc_raw (of_char (bs ! 2)) (of_char (bs ! 3))) * 100 / 65536) \<and>
       - 40 \<le> t \<and> t < 125 \<and> 0 \<le> h \<and> h < 100) \<and>
    open_links cs = (if ans_int e (tr @ hdc_start) (Io I2cCmdBegin) = ESP_OK then 0 else 1)"
proof -
  let ?bs = "ans_bytes e (tr @ hdc_read) (Io I2cCmdBegin)"
  have links: "open_links (hdc_start @ [Io I2cCmdBegin]) = 1"
    "open_links (hdc_read @ [Io I2cCmdBegin, Io I2cCmdLinkDelete]) = 0"
    by (simp_all add: hdc_start_def hdc_read_def)
  consider (first) "ans_int e (tr @ hdc_start) (Io I2cCmdBegin) \<noteq> 0"
    | (second) "ans_int e (tr @ hdc_start) (Io I2cCmdBegin) = 0" "ans_int e (tr @ hdc_read) (Io I2cCmdBegin) \<noteq> 0"
    | (ok) "ans_int e (tr @ hdc_start) (Io I2cCmdBegin) = 0" "ans_int e (tr @ hdc_read) (Io I2cCmdBegin) = 0"
    by blast
  then show ?thesis
  proof cases
    case first
    then show ?thesis using links(1) by (auto simp: HDC1080_Poll_run Let_def)
  next
    case second
    then show ?thesis using links(2) by (auto simp: HDC1080_Poll_run Let_def)
  next
    case ok
    then have len: "length ?bs = 4" using assms by blast
    let ?t = "of_nat (hdc_raw (of_char (?bs ! 0)) (of_char (?bs ! 1))) * 165 / 65536 - 40 :: rat"
    let ?h = "of_nat (hdc_raw (of_char (?bs ! 2)) (of_char (?bs ! 3))) * 100 / 65536 :: rat"
    have run: "HDC1080_Poll temp hum e tr = Inr ((0, ?t, ?h), tr @ hdc_read @ [Io I2cCmdBegin, Io I2cCmdLinkDelete])"
      using ok len by (simp only: HDC1080_Poll_run Let_def hdc_temp_exact hdc_hum_exact) simp
    have bounds: "- 40 \<le> ?t \<and> ?t < 125 \<and> 0 \<le> ?h \<and> ?h < 100"
      using hdc_raw_le [of "of_char (?bs ! 0)" "of_char (?bs ! 1)"]
        hdc_raw_le [of "of_char (?bs ! 2)" "of_char (?bs ! 3)"] by simp
    show ?thesis
    proof (intro exI conjI)
      show "HDC1080_Poll temp hum e tr = Inr ((0, ?t, ?h), tr @ hdc_read @ [Io I2cCmdBegin, Io I2cCmdLinkDelete])"
        by (rule run)
    qed (insert ok(1) links(2) bounds, simp_all add: Let_def)
  qed
qed

definition hdc_demo_env :: env where
  "hdc_demo_env = silent_env\<lparr>ans_bytes := (\<lambda>_ _. [CHR 0x66, CHR 0x66, CHR 0x80, CHR 0x00])\<rparr>"

lemma HDC1080_Poll_exact_witness:
  "\<exists>t cs. HDC1080_Poll 0 0 hdc_demo_env [] = Inr ((0, t, 50), cs) \<and> 25 < t \<and> t < 26 \<and> open_links cs = 0"
proof -
  have "hdc_raw (of_char CHR 0x66) (of_char CHR 0x66) = 26214"
    "hdc_raw (of_char CHR 0x80) (of_char CHR 0x00) = 32768"
    by (simp_all add: hdc_raw_def of_char_def)
  then show ?thesis
    using HDC1080_Poll_exact [of hdc_demo_env 0 0 "[]"]
    by (auto simp: hdc_demo_env_def HDC1080_Poll_run hdc_temp_exact hdc_hum_exact Let_def)
qed

end
