(* ===== verification/Mics4514.thy ===== *)
theory Mics4514
  imports Platform
begin

text \<open>
  The gas sensor driver, \<open>main/mics4514_if.c\<close>: both channels of the converter are sampled in
  turn and the truncated mean of each is reported.
\<close>

subsection \<open>The code\<close>

definition GPIO_MICS_ENABLE :: nat where [simp]: "GPIO_MICS_ENABLE = 33"
definition GPIO_MICS_HEATER :: nat where [simp]: "GPIO_MICS_HEATER = 32"
definition GPIO_OUTPUT_PIN_SEL :: "64 word" where
  [simp]: "GPIO_OUTPUT_PIN_SEL = push_bit GPIO_MICS_ENABLE 1 OR push_bit GPIO_MICS_HEATER 1"
definition DEFAULT_VREF :: nat where [simp]: "DEFAULT_VREF = 1100"
definition NO_OF_SAMPLES :: nat where "NO_OF_SAMPLES = 64"

definition check_efuse :: "unit cmd" where
  "check_efuse =
     bindC (askI (Io (AdcCalCheckEfuse ''TP''))) (\<lambda>_.
     bindC (askI (Io (AdcCalCheckEfuse ''VREF''))) (\<lambda>_. ret ()))"

definition MICS4514_GPIOEnable :: "unit cmd" where
  "MICS4514_GPIOEnable = doC (Io (GpioConfig GPIO_OUTPUT_PIN_SEL))"

definition MICS4514_Enable :: "unit cmd" where
  "MICS4514_Enable = doC (Io (GpioSetLevel GPIO_MICS_ENABLE 0))"

definition MICS4514_Disable :: "unit cmd" where
  "MICS4514_Disable = doC (Io (GpioSetLevel GPIO_MICS_ENABLE 1))"

definition MICS4514_HeaterEnable :: "unit cmd" where
  "MICS4514_HeaterEnable = doC (Io (GpioSetLevel GPIO_MICS_HEATER 1))"

definition MICS4514_HeaterDisable :: "unit cmd" where
  "MICS4514_HeaterDisable = doC (Io (GpioSetLevel GPIO_MICS_HEATER 0))"

definition MICS4514_Initialize :: "unit cmd" where
  "MICS4514_Initialize =
     seqC [check_efuse,
           doC (Io AdcConfigWidth), doC (Io (AdcConfigAtten 6)), doC (Io (AdcConfigAtten 7)),
           doC (Sys (Calloc ''esp_adc_cal_characteristics_t'')), doC (Io (AdcCalCharacterize DEFAULT_VREF)),
           MICS4514_GPIOEnable, MICS4514_Disable]"

text \<open>The sampling loop; a sum of 64 values of \<open>int\<close> cannot overflow \<open>int64_t\<close>.\<close>

fun mics_sample :: "nat \<Rightarrow> int \<Rightarrow> int \<Rightarrow> (int \<times> int) cmd" where
  "mics_sample 0 ch6 ch7 = ret (ch6, ch7)"
| "mics_sample (Suc n) ch6 ch7 =
     bindC (askI (Io (AdcGetRaw 6))) (\<lambda>a.
     bindC (askI (Io (AdcGetRaw 7))) (\<lambda>b. mics_sample n (ch6 + a) (ch7 + b)))"

definition MICS4514_Poll :: "(int \<times> int) cmd" where
  "MICS4514_Poll =
     bindC (mics_sample NO_OF_SAMPLES 0 0) (\<lambda>(ch6, ch7).
     ret (c_div ch6 (int NO_OF_SAMPLES), c_div ch7 (int NO_OF_SAMPLES)))"

subsection \<open>Means\<close>

definition mics_round :: "call list" where
  "mics_round = [Io (AdcGetRaw 6), Io (AdcGetRaw 7)]"

definition mics_before :: "nat \<Rightarrow> call list" where
  "mics_before i = concat (replicate i mics_round)"

lemma mics_before_Suc: "mics_before (Suc i) = mics_before i @ mics_round"
proof -
  have "concat (replicate (Suc i) mics_round) = concat (replicate i mics_round @ [mics_round])"
    by (simp only: replicate_append_same replicate.simps)
  then show ?thesis by (simp add: mics_before_def)
qed

definition ox_reading :: "env \<Rightarrow> call list \<Rightarrow> nat \<Rightarrow> int" where
  "ox_reading e tr i = ans_int e (tr @ mics_before i) (Io (AdcGetRaw 6))"

definition red_reading :: "env \<Rightarrow> call list \<Rightarrow> nat \<Rightarrow> int" where
  "red_reading e tr i = ans_int e (tr @ mics_before i @ [Io (AdcGetRaw 6)]) (Io (AdcGetRaw 7))"

lemma mics_sample_run:
  "mics_sample n a b e (tr @ mics_before k) =
     Inr ((a + (\<Sum>i = k..<k + n. ox_reading e tr i), b + (\<Sum>i = k..<k + n. red_reading e tr i)),
          tr @ mics_before (k + n))"
proof (induction n arbitrary: a b k)
  case (Suc n)
  have split: "(\<Sum>i = k..<k + Suc n. f i) = f k + (\<Sum>i = Suc k..<Suc k + n. f i)" for f :: "nat \<Rightarrow> int"
    by (simp add: sum.atLeast_Suc_lessThan)
  have next_tr: "tr @ mics_before k @ [Io (AdcGetRaw 6), Io (AdcGetRaw 7)] = tr @ mics_before (Suc k)"
    by (simp add: mics_before_Suc mics_round_def)
  have "mics_sample (Suc n) a b e (tr @ mics_before k) =
      mics_sample n (a + ox_reading e tr k) (b + red_reading e tr k) e (tr @ mics_before (Suc k))"
    by (simp add: cmd_simps next_tr ox_reading_def red_reading_def)
  then show ?case
    using split [of "ox_reading e tr"] split [of "red_reading e tr"] by (simp only: Suc.IH add.assoc) simp
qed (simp add: cmd_simps)

lemma c_div_mean_bounds:
  assumes "\<And>i. i < n \<Longrightarrow> lo \<le> f i \<and> f i \<le> hi" and "0 < n"
  shows "lo \<le> c_div (\<Sum>i<n. f i) (int n) \<and> c_div (\<Sum>i<n. f i) (int n) \<le> hi"
proof -
  have lo: "int n * lo \<le> (\<Sum>i<n. f i)" and hi: "(\<Sum>i<n. f i) \<le> int n * hi"
    using sum_mono [of "{..<n}" "\<lambda>_. lo" f] sum_mono [of "{..<n}" f "\<lambda>_. hi"] assms(1) by simp_all
  have div: "l \<le> s div int n" "s div int n \<le> h" if "int n * l \<le> s" "s \<le> int n * h" for s l h
    using that assms(2) zdiv_mono1 [of "int n * l" s "int n"] zdiv_mono1 [of s "int n * h" "int n"] by simp_all
  show ?thesis
  proof (cases "0 \<le> (\<Sum>i<n. f i)")
    case True
    then show ?thesis using div [OF lo hi] by (simp add: c_div_def)
  next
    case False
    have "int n * - hi \<le> - (\<Sum>i<n. f i)" "- (\<Sum>i<n. f i) \<le> int n * - lo"
      using lo hi by simp_all
    from div [OF this] show ?thesis using False by (simp add: c_div_def)
  qed
qed

text \<open>
  C30: a poll reads each of the two channels 64 times, in turn and nothing else, and reports for
  each the sum of its own readings divided by 64 towards zero; so each value lies between any
  bounds its readings respect (a 12-bit converter gives 0 to 4095).
\<close>

theorem MICS4514_Poll_mean:
  assumes "\<And>tr ch. lo \<le> ans_int e tr (Io (AdcGetRaw ch)) \<and> ans_int e tr (Io (AdcGetRaw ch)) \<le> hi"
  shows "\<exists>ox red. MICS4514_Poll e tr = Inr ((ox, red), tr @ concat (replicate 64 mics_round)) \<and>
    ox = c_div (\<Sum>i<64. ox_reading e tr i) 64 \<and> red = c_div (\<Sum>i<64. red_reading e tr i) 64 \<and>
    lo \<le> ox \<and> ox \<le> hi \<and> lo \<le> red \<and> red \<le> hi"
proof -
  let ?ox = "c_div (\<Sum>i<64. ox_reading e tr i) 64" and ?red = "c_div (\<Sum>i<64. red_reading e tr i) 64"
  have "mics_sample 64 0 0 e tr =
      Inr ((\<Sum>i<64. ox_reading e tr i, \<Sum>i<64. red_reading e tr i), tr @ mics_before 64)"
    using mics_sample_run [of 64 0 0 e tr 0] by (simp add: mics_before_def atLeast0LessThan)
  then have "MICS4514_Poll e tr = Inr ((?ox, ?red), tr @ concat (replicate 64 mics_round))"
    by (simp only: MICS4514_Poll_def NO_OF_SAMPLES_def cmd_simps bindE_simps prod.case mics_before_def) simp
  moreover have "lo \<le> ?ox \<and> ?ox \<le> hi \<and> lo \<le> ?red \<and> ?red \<le> hi"
    using c_div_mean_bounds [of 64 lo "ox_reading e tr" hi] c_div_mean_bounds [of 64 lo "red_reading e tr" hi] assms
    by (simp add: ox_reading_def red_reading_def)
  ultimately show ?thesis by blast
qed

lemma MICS4514_Poll_mean_witness:
  "\<exists>ox red. MICS4514_Poll (silent_env\<lparr>ans_int := (\<lambda>_ _. 700)\<rparr>) [] =
     Inr ((ox, red), concat (replicate 64 mics_round)) \<and> ox = 700 \<and> red = 700"
  using MICS4514_Poll_mean [of 700 "silent_env\<lparr>ans_int := (\<lambda>_ _. 700)\<rparr>" 700 "[]"] by auto

end
