(* ===== verification/Led.thy ===== *)
theory Led
  imports Platform
begin

text \<open>
  The status LEDs, \<open>main/led_if.c\<close>: other tasks post events as bits of an event group, the LED
  task waits for bits and sets the duty of the red (Wi-Fi) and blue (GPS clock) channels.
\<close>

subsection \<open>The code\<close>

definition LED_EVENT_WIFI_DISCONNECTED_BIT :: u32 where "LED_EVENT_WIFI_DISCONNECTED_BIT = 1"
definition LED_EVENT_WIFI_CONNECTED_BIT :: u32 where "LED_EVENT_WIFI_CONNECTED_BIT = 2"
definition LED_EVENT_GPS_RTC_NOT_SET_BIT :: u32 where "LED_EVENT_GPS_RTC_NOT_SET_BIT = 4"
definition LED_EVENT_GPS_RTC_SET_BIT :: u32 where "LED_EVENT_GPS_RTC_SET_BIT = 8"
definition LED_EVENT_ALL_BITS :: u32 where "LED_EVENT_ALL_BITS = 1 OR 2 OR 4 OR 8"

lemmas led_bits =
  LED_EVENT_WIFI_DISCONNECTED_BIT_def LED_EVENT_WIFI_CONNECTED_BIT_def
  LED_EVENT_GPS_RTC_NOT_SET_BIT_def LED_EVENT_GPS_RTC_SET_BIT_def LED_EVENT_ALL_BITS_def

definition STAT1_LED :: nat where [simp]: "STAT1_LED = 21"
definition STAT2_LED :: nat where [simp]: "STAT2_LED = 19"
definition STAT3_LED :: nat where [simp]: "STAT3_LED = 18"
definition STAT1_CH :: nat where [simp]: "STAT1_CH = 0"
definition STAT2_CH :: nat where [simp]: "STAT2_CH = 1"
definition STAT3_CH :: nat where [simp]: "STAT3_CH = 2"
definition LEDC_RESOLUTION :: nat where [simp]: "LEDC_RESOLUTION = 8"
definition LEDC_DUTY :: nat where "LEDC_DUTY = push_bit (LEDC_RESOLUTION - 2) 1"

text \<open>The table of channels: number, duty, pin.\<close>

definition ledc_channel :: "(nat \<times> nat \<times> nat) list" where
  "ledc_channel = [(STAT1_CH, LEDC_DUTY, STAT1_LED), (STAT2_CH, 0, STAT2_LED), (STAT3_CH, 0, STAT3_LED)]"

definition LED_Initialize :: "unit cmd" where
  "LED_Initialize =
     seqC ([doC (Io (LedcTimerConfig 8 500))] @
           map (\<lambda>(ch, duty, pin). doC (Io (LedcChannelConfig ch duty pin))) ledc_channel @
           [doC (Rtos (EventGroupCreate LedGroup)),
            doC (Rtos (EventGroupClearBits LedGroup LED_EVENT_ALL_BITS))])"

definition LED_SetEventBit :: "u32 \<Rightarrow> unit cmd" where
  "LED_SetEventBit b = doC (Rtos (EventGroupSetBits LedGroup b))"

definition led_set :: "nat \<Rightarrow> nat \<Rightarrow> unit cmd" where
  "led_set ch duty =
     (let channel = fst (ledc_channel ! ch)
      in seqC [doC (Io (LedcSetDuty channel duty)), doC (Io (LedcUpdateDuty channel))])"

text \<open>One turn of the task's loop.\<close>

definition led_task_turn :: "unit cmd" where
  "led_task_turn =
     bindC (askB (Rtos (EventGroupWaitBits LedGroup LED_EVENT_ALL_BITS True False None))) (\<lambda>uxBits.
     seqC [whenC (uxBits AND LED_EVENT_WIFI_DISCONNECTED_BIT \<noteq> 0) (led_set STAT1_CH LEDC_DUTY),
           whenC (uxBits AND LED_EVENT_WIFI_CONNECTED_BIT \<noteq> 0) (led_set STAT1_CH 0),
           whenC (uxBits AND LED_EVENT_GPS_RTC_NOT_SET_BIT \<noteq> 0) (led_set STAT3_CH LEDC_DUTY),
           whenC (uxBits AND LED_EVENT_GPS_RTC_SET_BIT \<noteq> 0) (led_set STAT3_CH 0)])"

subsection \<open>What the LEDs show\<close>

text \<open>
  The LED controller: a duty that is set takes effect when the channel is updated, a channel
  that is configured takes its duty at once. The state of a channel is the pending duty and the
  one shown.
\<close>

fun duty_step :: "nat \<Rightarrow> nat \<times> nat \<Rightarrow> call \<Rightarrow> nat \<times> nat" where
  "duty_step ch (pending, shown) (Io (LedcSetDuty c d)) = (if c = ch then (d, shown) else (pending, shown))"
| "duty_step ch (pending, shown) (Io (LedcUpdateDuty c)) = (if c = ch then (pending, pending) else (pending, shown))"
| "duty_step ch (pending, shown) (Io (LedcChannelConfig c d _)) = (if c = ch then (d, d) else (pending, shown))"
| "duty_step ch s _ = s"

definition duty_after :: "nat \<Rightarrow> nat \<times> nat \<Rightarrow> call list \<Rightarrow> nat \<times> nat" where
  "duty_after ch s cs = foldl (duty_step ch) s cs"

lemma duty_after_simps [simp]:
  "duty_after ch s [] = s"
  "duty_after ch s (c # cs) = duty_after ch (duty_step ch s c) cs"
  "duty_after ch s (cs @ ds) = duty_after ch (duty_after ch s cs) ds"
  by (simp_all add: duty_after_def)

definition led_turn_calls :: "u32 \<Rightarrow> call list" where
  "led_turn_calls b =
     (let set = (\<lambda>ch d. [Io (LedcSetDuty ch d), Io (LedcUpdateDuty ch)]) in
      Rtos (EventGroupWaitBits LedGroup 15 True False None) #
      (if b AND 1 \<noteq> 0 then set 0 64 else []) @ (if b AND 2 \<noteq> 0 then set 0 0 else []) @
      (if b AND 4 \<noteq> 0 then set 2 64 else []) @ (if b AND 8 \<noteq> 0 then set 2 0 else []))"

lemma led_task_turn_run:
  "led_task_turn e tr =
     Inr ((), tr @ led_turn_calls (ans_bits e tr (Rtos (EventGroupWaitBits LedGroup 15 True False None))))"
  by (auto simp: led_task_turn_def led_turn_calls_def led_set_def ledc_channel_def
      LEDC_DUTY_def led_bits cmd_simps)

text \<open>
  After initialisation the red LED is on and the others are off; one turn of the task drives
  the red LED off when it finds the connected bit, on when it finds only the disconnected bit,
  and leaves it alone otherwise, the same for the blue LED and the clock bits, and never touches
  the green one. When both bits of a pair are found, off wins, whichever was posted last.
\<close>

theorem led_task_shows:
  "(\<exists>cs. LED_Initialize e tr = Inr ((), tr @ cs) \<and>
     map (\<lambda>ch. snd (duty_after ch s cs)) [0, 1, 2] = [64, 0, 0] \<and> group_bits LedGroup g cs = 0) \<and>
   (\<exists>b cs. b = ans_bits e tr (Rtos (EventGroupWaitBits LedGroup LED_EVENT_ALL_BITS True False None)) \<and>
     led_task_turn e tr = Inr ((), tr @ cs) \<and>
     snd (duty_after 0 s cs) = (if b AND LED_EVENT_WIFI_CONNECTED_BIT \<noteq> 0 then 0
        else if b AND LED_EVENT_WIFI_DISCONNECTED_BIT \<noteq> 0 then LEDC_DUTY else snd s) \<and>
     snd (duty_after 2 s cs) = (if b AND LED_EVENT_GPS_RTC_SET_BIT \<noteq> 0 then 0
        else if b AND LED_EVENT_GPS_RTC_NOT_SET_BIT \<noteq> 0 then LEDC_DUTY else snd s) \<and>
     duty_after 1 s cs = s)"
proof
  show "\<exists>cs. LED_Initialize e tr = Inr ((), tr @ cs) \<and>
     map (\<lambda>ch. snd (duty_after ch s cs)) [0, 1, 2] = [64, 0, 0] \<and> group_bits LedGroup g cs = 0"
    by (cases s) (simp add: LED_Initialize_def ledc_channel_def LEDC_DUTY_def led_bits cmd_simps)
  show "\<exists>b cs. b = ans_bits e tr (Rtos (EventGroupWaitBits LedGroup LED_EVENT_ALL_BITS True False None)) \<and>
     led_task_turn e tr = Inr ((), tr @ cs) \<and>
     snd (duty_after 0 s cs) = (if b AND LED_EVENT_WIFI_CONNECTED_BIT \<noteq> 0 then 0
        else if b AND LED_EVENT_WIFI_DISCONNECTED_BIT \<noteq> 0 then LEDC_DUTY else snd s) \<and>
     snd (duty_after 2 s cs) = (if b AND LED_EVENT_GPS_RTC_SET_BIT \<noteq> 0 then 0
        else if b AND LED_EVENT_GPS_RTC_NOT_SET_BIT \<noteq> 0 then LEDC_DUTY else snd s) \<and>
     duty_after 1 s cs = s"
    by (cases s) (simp add: led_task_turn_run led_turn_calls_def Let_def LEDC_DUTY_def led_bits)
qed

end
