(* ===== verification/WifiBits.thy ===== *)
theory WifiBits
  imports Platform
begin

text \<open>
  The event bits of the Wi-Fi manager and the operations other tasks call to wait for a bit or
  to post a request (\<open>main/wifi_manager.c\<close>).
\<close>

definition WIFI_MANAGER_WIFI_CONNECTED_BIT :: u32 where "WIFI_MANAGER_WIFI_CONNECTED_BIT = 0x001"
definition WIFI_MANAGER_AP_STA_CONNECTED_BIT :: u32 where "WIFI_MANAGER_AP_STA_CONNECTED_BIT = 0x002"
definition WIFI_MANAGER_AP_STARTED :: u32 where "WIFI_MANAGER_AP_STARTED = 0x004"
definition WIFI_MANAGER_REQUEST_STA_CONNECT_BIT :: u32 where "WIFI_MANAGER_REQUEST_STA_CONNECT_BIT = 0x008"
definition WIFI_MANAGER_STA_DISCONNECT_BIT :: u32 where "WIFI_MANAGER_STA_DISCONNECT_BIT = 0x010"
definition WIFI_MANAGER_REQUEST_WIFI_SCAN :: u32 where "WIFI_MANAGER_REQUEST_WIFI_SCAN = 0x020"
definition WIFI_MANAGER_REQUEST_WIFI_DISCONNECT :: u32 where "WIFI_MANAGER_REQUEST_WIFI_DISCONNECT = 0x040"
definition WIFI_MANAGER_REQUEST_RECONNECT :: u32 where "WIFI_MANAGER_REQUEST_RECONNECT = 0x080"
definition WIFI_MANAGER_HAVE_INTERNET_BIT :: u32 where "WIFI_MANAGER_HAVE_INTERNET_BIT = 0x100"
definition WIFI_MANAGER_REQUEST_PING_TEST :: u32 where "WIFI_MANAGER_REQUEST_PING_TEST = 0x200"

lemmas wifi_bits =
  WIFI_MANAGER_WIFI_CONNECTED_BIT_def WIFI_MANAGER_AP_STA_CONNECTED_BIT_def
  WIFI_MANAGER_AP_STARTED_def WIFI_MANAGER_REQUEST_STA_CONNECT_BIT_def
  WIFI_MANAGER_STA_DISCONNECT_BIT_def WIFI_MANAGER_REQUEST_WIFI_SCAN_def
  WIFI_MANAGER_REQUEST_WIFI_DISCONNECT_def WIFI_MANAGER_REQUEST_RECONNECT_def
  WIFI_MANAGER_HAVE_INTERNET_BIT_def WIFI_MANAGER_REQUEST_PING_TEST_def

definition wm_set :: "u32 \<Rightarrow> unit cmd" where
  "wm_set b = doC (Rtos (EventGroupSetBits WifiGroup b))"

definition wm_clear :: "u32 \<Rightarrow> unit cmd" where
  "wm_clear b = doC (Rtos (EventGroupClearBits WifiGroup b))"

definition wm_get :: "u32 cmd" where
  "wm_get = askB (Rtos (EventGroupGetBits WifiGroup))"

definition wifi_manager_wait_connect :: "u32 cmd" where
  "wifi_manager_wait_connect =
     askB (Rtos (EventGroupWaitBits WifiGroup WIFI_MANAGER_WIFI_CONNECTED_BIT False True None))"

definition wifi_manager_wait_internet_access :: "u32 cmd" where
  "wifi_manager_wait_internet_access =
     askB (Rtos (EventGroupWaitBits WifiGroup WIFI_MANAGER_HAVE_INTERNET_BIT False True None))"

definition wifi_manager_wait_disconnect :: "u32 cmd" where
  "wifi_manager_wait_disconnect =
     askB (Rtos (EventGroupWaitBits WifiGroup WIFI_MANAGER_STA_DISCONNECT_BIT False True None))"

definition wifi_manager_scan_async :: "unit cmd" where
  "wifi_manager_scan_async = wm_set WIFI_MANAGER_REQUEST_WIFI_SCAN"

definition wifi_manager_disconnect_async :: "unit cmd" where
  "wifi_manager_disconnect_async = wm_set WIFI_MANAGER_REQUEST_WIFI_DISCONNECT"

definition wifi_manager_check_connection_async :: "unit cmd" where
  "wifi_manager_check_connection_async = wm_set WIFI_MANAGER_REQUEST_PING_TEST"

text \<open>The masked bits are converted to \<open>bool\<close>.\<close>

definition wifi_manager_connected_to_access_point :: "bool cmd" where
  "wifi_manager_connected_to_access_point =
     bindC wm_get (\<lambda>b. ret (b AND WIFI_MANAGER_WIFI_CONNECTED_BIT \<noteq> 0))"

lemma wm_run [cmd_simps]:
  "wm_set b e tr = Inr ((), tr @ [Rtos (EventGroupSetBits WifiGroup b)])"
  "wm_clear b e tr = Inr ((), tr @ [Rtos (EventGroupClearBits WifiGroup b)])"
  "wm_get e tr = Inr (ans_bits e tr (Rtos (EventGroupGetBits WifiGroup)), tr @ [Rtos (EventGroupGetBits WifiGroup)])"
  by (simp_all add: wm_set_def wm_clear_def wm_get_def cmd_run)

end
