(* ===== verification/TimeIf.thy ===== *)
theory TimeIf
  imports WifiBits
begin

text \<open>
  The clock, \<open>main/time_if.c\<close>: the time is taken from the system clock, which the SNTP client
  sets, and extrapolated with the millisecond counter for ten minutes. \<open>time_t\<close> is a signed and
  \<open>clock_t\<close> and \<open>unsigned long\<close> are unsigned 32-bit types on the ESP32: the comparisons of the
  source with the unsigned constant \<open>SEC_JAN1_2018\<close> are unsigned, except the one it casts.
\<close>

subsection \<open>The code\<close>

definition SEC_JAN1_2018 :: u32 where "SEC_JAN1_2018 = 1514764800"
definition MS_BETWEEN_NTP_UPDATE :: u32 where "MS_BETWEEN_NTP_UPDATE = 600000"
definition NTP_WIFI_CONNECTED_BIT :: u32 where "NTP_WIFI_CONNECTED_BIT = 1"
definition GOT_TS_BIT :: u32 where "GOT_TS_BIT = 2"

record time_state =
  utc_time :: u32
  ms_active :: u32

definition SNTP_time_is_set :: "unit cmd" where
  "SNTP_time_is_set =
     bindC (askB (Rtos (EventGroupWaitBits NtpGroup GOT_TS_BIT False True None))) (\<lambda>_. ret ())"

definition sntp_wifi_connected :: "unit cmd" where
  "sntp_wifi_connected = doC (Rtos (EventGroupSetBits NtpGroup NTP_WIFI_CONNECTED_BIT))"

definition retry_count :: nat where "retry_count = 25"

function sntp_retry :: "nat \<Rightarrow> nat \<Rightarrow> u32 \<Rightarrow> u32 cmd" where
  "sntp_retry wait_seconds retry now =
     (if sint now < sint SEC_JAN1_2018 \<and> retry + 1 < retry_count
      then thenC (doC (Rtos (TaskDelay (wait_seconds * 1000))))
             (bindC (askB (Sys Time)) (\<lambda>now. sntp_retry wait_seconds (retry + 1) now))
      else ret now)"
  by pat_completeness auto
termination
  by (relation "measure (\<lambda>(_, retry, _). retry_count - retry)") auto

declare sntp_retry.simps [simp del]

definition sntp_obtain_time :: "nat \<Rightarrow> u32 cmd" where
  "sntp_obtain_time wait_seconds =
     bindC (sntp_retry wait_seconds 0 0) (\<lambda>now.
     thenC (if SEC_JAN1_2018 < now then doC (Rtos (EventGroupSetBits NtpGroup GOT_TS_BIT)) else ret ())
       (ret now))"

definition time_gmtime :: "time_state \<Rightarrow> (u32 \<times> time_state) cmd" where
  "time_gmtime st =
     bindC (askB (Sys Clock)) (\<lambda>current_ms.
     if MS_BETWEEN_NTP_UPDATE < current_ms - ms_active st \<or> utc_time st < SEC_JAN1_2018
     then bindC (sntp_obtain_time 2) (\<lambda>t.
          bindC (askB (Sys Clock)) (\<lambda>c.
          let st = st\<lparr>utc_time := t, ms_active := c\<rparr>
          in ret (if sint (utc_time st) < 0 then ms_active st else utc_time st, st)))
     else ret (utc_time st + (current_ms - ms_active st) div 1000, st))"

definition SNTP_Initialize :: "int cmd" where
  "SNTP_Initialize =
     thenC (seqC [doC (Rtos (EventGroupCreate NtpGroup)),
                  doC (Rtos (EventGroupClearBits NtpGroup (NTP_WIFI_CONNECTED_BIT OR GOT_TS_BIT))),
                  bindC wifi_manager_wait_internet_access (\<lambda>_. ret ()),
                  doC (Sys (SntpStart [''pool.ntp.org'', ''north-america.pool.ntp.org'',
                     ''us.pool.ntp.org'', ''time-a-g-nist.gov'', ''129.6.15.29''])),
                  doC (Sys (Setenv ''TZ'' ''Etc/GMT''))])
     (bindC (askB (Sys Time)) (\<lambda>_.
      bindC (sntp_obtain_time 2) (\<lambda>now.
      ret (if now < SEC_JAN1_2018 then - 1 else 0))))"

subsection \<open>Waiting for the time\<close>

definition sntp_round :: "nat \<Rightarrow> call list" where
  "sntp_round w = [Rtos (TaskDelay (w * 1000)), Sys Time]"

definition sntp_rounds :: "nat \<Rightarrow> nat \<Rightarrow> call list" where
  "sntp_rounds w n = concat (replicate n (sntp_round w))"

text \<open>The time the \<open>i\<close>-th reading returns.\<close>

definition sntp_reading :: "env \<Rightarrow> call list \<Rightarrow> nat \<Rightarrow> nat \<Rightarrow> u32" where
  "sntp_reading e tr w i = ans_bits e (tr @ sntp_rounds w i @ [Rtos (TaskDelay (w * 1000))]) (Sys Time)"

lemma sntp_rounds_Suc: "sntp_rounds w (Suc n) = sntp_rounds w n @ sntp_round w"
proof -
  have "concat (replicate (Suc n) (sntp_round w)) = concat (replicate n (sntp_round w) @ [sntp_round w])"
    by (simp only: replicate_append_same replicate.simps)
  then show ?thesis by (simp add: sntp_rounds_def)
qed

lemma sntp_rounds_0 [simp]: "sntp_rounds w 0 = []"
  by (simp add: sntp_rounds_def)

definition early :: "u32 \<Rightarrow> bool" where
  "early t \<longleftrightarrow> sint t < sint SEC_JAN1_2018"

lemma sntp_retry_run:
  assumes "k \<le> 24" "k = 0 \<longrightarrow> now = 0" "0 < k \<longrightarrow> now = sntp_reading e tr w (k - 1)"
    and "\<forall>i < k - 1. early (sntp_reading e tr w i)"
  shows "\<exists>n. 1 \<le> n \<and> k \<le> n \<and> n \<le> 24 \<and>
    sntp_retry w k now e (tr @ sntp_rounds w k) =
      Inr (sntp_reading e tr w (n - 1), tr @ sntp_rounds w n) \<and>
    (\<forall>i < n - 1. early (sntp_reading e tr w i)) \<and>
    (n < 24 \<longrightarrow> \<not> early (sntp_reading e tr w (n - 1)))"
  using assms
proof (induction "24 - k" arbitrary: k now)
  case 0
  then have "k = 24" by simp
  then show ?case
    using 0 by (intro exI [of _ 24]) (simp add: sntp_retry.simps [of w 24] retry_count_def cmd_simps)
next
  case (Suc m)
  then have k: "k < 24" by simp
  show ?case
  proof (cases "early now")
    case True
    let ?now = "sntp_reading e tr w k"
    have "sntp_retry w k now e (tr @ sntp_rounds w k) =
        sntp_retry w (Suc k) ?now e (tr @ sntp_rounds w (Suc k))"
      using k True
      by (simp add: sntp_retry.simps [of w k now] early_def retry_count_def cmd_simps sntp_rounds_Suc
          sntp_round_def sntp_reading_def)
    moreover have "\<forall>i < Suc k - 1. early (sntp_reading e tr w i)"
    proof (intro allI impI)
      fix i assume "i < Suc k - 1"
      then consider "i < k - 1" | "i = k - 1" "0 < k" by linarith
      then show "early (sntp_reading e tr w i)"
        by cases (insert Suc.prems(3,4) True, auto)
    qed
    moreover have "m = 24 - Suc k" "Suc k \<le> 24" using Suc.hyps(2) k by simp_all
    ultimately obtain n where "1 \<le> n \<and> Suc k \<le> n \<and> n \<le> 24 \<and>
        sntp_retry w k now e (tr @ sntp_rounds w k) =
          Inr (sntp_reading e tr w (n - 1), tr @ sntp_rounds w n) \<and>
        (\<forall>i < n - 1. early (sntp_reading e tr w i)) \<and>
        (n < 24 \<longrightarrow> \<not> early (sntp_reading e tr w (n - 1)))"
      using Suc.hyps(1) [of "Suc k" ?now] by fastforce
    then show ?thesis by (meson Suc_leD)
  next
    case False
    moreover have "early 0" by (simp add: early_def SEC_JAN1_2018_def)
    ultimately have "k \<noteq> 0" using Suc.prems(2) by metis
    moreover have "sntp_retry w k now e (tr @ sntp_rounds w k) = Inr (now, tr @ sntp_rounds w k)"
      using False by (simp add: sntp_retry.simps [of w k now] early_def cmd_simps)
    ultimately show ?thesis
      using False Suc.prems k by (intro exI [of _ k]) simp
  qed
qed

text \<open>
  C31: waiting for the time ends: the clock is read between 1 and 24 times, once after each
  delay, until a reading is not before 2018 (as a signed number), and the last reading is
  returned. The bit other tasks wait for is posted exactly when that reading, as an unsigned
  number, is after the first second of 2018; so never when all 24 readings were early and not
  negative. (The comment of the function says 10 tries.)
\<close>

theorem sntp_obtain_time_returns:
  "\<exists>n now. 1 \<le> n \<and> n \<le> 24 \<and>
     sntp_obtain_time w e tr = Inr (now, tr @ concat (replicate n (sntp_round w)) @
       (if SEC_JAN1_2018 < now then [Rtos (EventGroupSetBits NtpGroup GOT_TS_BIT)] else [])) \<and>
     now = sntp_reading e tr w (n - 1) \<and>
     (\<forall>i \<in> {..<n - 1}. sint (sntp_reading e tr w i) < sint SEC_JAN1_2018) \<and>
     (n = 24 \<or> sint SEC_JAN1_2018 \<le> sint now)"
proof -
  obtain n where n: "1 \<le> n" "n \<le> 24"
    "sntp_retry w 0 0 e tr = Inr (sntp_reading e tr w (n - 1), tr @ sntp_rounds w n)"
    "\<forall>i < n - 1. early (sntp_reading e tr w i)" "n < 24 \<longrightarrow> \<not> early (sntp_reading e tr w (n - 1))"
    using sntp_retry_run [of 0 0 e tr w] by auto
  show ?thesis
    using n(1,2,4,5)
    by (intro exI [of _ n] exI [of _ "sntp_reading e tr w (n - 1)"])
       (auto simp: sntp_obtain_time_def cmd_simps n(3) early_def sntp_rounds_def)
qed

definition sntp_demo_env :: env where
  "sntp_demo_env = silent_env\<lparr>ans_bits := (\<lambda>tr _. if length tr < 4 then 0 else 1600000000)\<rparr>"

lemma sntp_obtain_time_returns_witness:
  "\<exists>n now tr. sntp_obtain_time 2 sntp_demo_env [] = Inr (now, tr) \<and> n \<le> 24 \<and>
     now = sntp_reading sntp_demo_env [] 2 (n - 1)"
  using sntp_obtain_time_returns [of 2 sntp_demo_env "[]"] by auto

subsection \<open>Extrapolation\<close>

text \<open>
  C32: within ten minutes of the last synchronisation the time is the synchronised one plus the
  elapsed whole seconds, no state changes and the network is not asked; the 32-bit millisecond
  counter may wrap around in between.
\<close>

theorem time_gmtime_extrapolates:
  assumes "SEC_JAN1_2018 \<le> utc_time st" and "d \<le> 600000"
    and "ans_bits e tr (Sys Clock) = ms_active st + of_nat d"
    and "unat (utc_time st) + d div 1000 < 2 ^ 32"
  shows "\<exists>t. time_gmtime st e tr = Inr ((t, st), tr @ [Sys Clock]) \<and> unat t = unat (utc_time st) + d div 1000"
proof -
  have d: "unat (of_nat d :: u32) = d"
    using assms(2) by (simp add: unat_of_nat take_bit_nat_eq_self)
  have "\<not> MS_BETWEEN_NTP_UPDATE < (of_nat d :: u32)"
    using assms(2) d by (simp add: word_less_nat_alt MS_BETWEEN_NTP_UPDATE_def)
  then have run: "time_gmtime st e tr = Inr ((utc_time st + of_nat d div 1000, st), tr @ [Sys Clock])"
    using assms(1,3) by (simp add: time_gmtime_def cmd_simps not_less [symmetric])
  have q: "unat (of_nat d div 1000 :: u32) = d div 1000"
    using d by (simp add: unat_div)
  have "unat (utc_time st + of_nat d div 1000) = unat (utc_time st) + d div 1000"
    using assms(4) q unat_add_lem [of "utc_time st" "of_nat d div 1000"] by simp
  then show ?thesis using run by blast
qed

lemma time_gmtime_extrapolates_witness:
  "\<exists>t. time_gmtime \<lparr>utc_time = 1600000000, ms_active = 0xFFFFFFFF\<rparr>
        (silent_env\<lparr>ans_bits := (\<lambda>_ _. 4999)\<rparr>) [] =
      Inr ((t, \<lparr>utc_time = 1600000000, ms_active = 0xFFFFFFFF\<rparr>), [Sys Clock]) \<and> unat t = 1600000005"
  using time_gmtime_extrapolates [of "\<lparr>utc_time = 1600000000, ms_active = 0xFFFFFFFF\<rparr>" 5000
      "silent_env\<lparr>ans_bits := (\<lambda>_ _. 4999)\<rparr>" "[]"]
  by (simp add: SEC_JAN1_2018_def)

end
