(* ===== verification/AppUtils.thy ===== *)
theory AppUtils
  imports Platform
begin

text \<open>
  Start-up utilities, \<open>main/app_utils.c\<close>: the device's name, which is its MAC address in
  hexadecimal, the initialisation of the flash store and the printing of digests.
\<close>

subsection \<open>The code\<close>

definition ESP_ERR_NVS_NO_FREE_PAGES :: esp_err where "ESP_ERR_NVS_NO_FREE_PAGES = 0x110d"
definition ESP_ERR_NVS_NEW_VERSION_FOUND :: esp_err where "ESP_ERR_NVS_NEW_VERSION_FOUND = 0x1110"
definition SHA256_HASH_LEN :: nat where "SHA256_HASH_LEN = 32"

text \<open>The task is deleted; its busy loop is never reached by another caller.\<close>

definition task_fatal_error :: "unit cmd" where
  "task_fatal_error = doC (Rtos TaskDelete)"

text \<open>The six bytes of the address are what the fuse reader delivers.\<close>

definition APP_Setmac :: "string \<Rightarrow> string cmd" where
  "APP_Setmac DEVICE_MAC =
     bindC (askIS (Sys EfuseMacGet)) (\<lambda>(_, tmp).
     if length tmp < 6 then failC Undefined
     else liftE (sprintf DEVICE_MAC 0
       (fmt_0X 2 (of_char (tmp ! 0)) @ fmt_0X 2 (of_char (tmp ! 1)) @ fmt_0X 2 (of_char (tmp ! 2)) @
        fmt_0X 2 (of_char (tmp ! 3)) @ fmt_0X 2 (of_char (tmp ! 4)) @ fmt_0X 2 (of_char (tmp ! 5)))))"

definition APP_Initialize :: "string \<Rightarrow> string cmd" where
  "APP_Initialize DEVICE_MAC =
     bindC (APP_Setmac DEVICE_MAC) (\<lambda>DEVICE_MAC.
     bindC (askI (Sys NvsFlashInit)) (\<lambda>err.
     bindC (if err = ESP_ERR_NVS_NO_FREE_PAGES \<or> err = ESP_ERR_NVS_NEW_VERSION_FOUND
            then bindC (askI (Sys NvsFlashErase)) (\<lambda>r.
                 thenC (esp_error_check r) (askI (Sys NvsFlashInit)))
            else ret err) (\<lambda>err.
     thenC (esp_error_check err) (ret DEVICE_MAC))))"

text \<open>The text that is logged, in its buffer; the buffer's first contents are arbitrary.\<close>

definition print_sha256 :: "u8 list \<Rightarrow> string \<Rightarrow> string result" where
  "print_sha256 image_hash hash_print =
     bindE (buf_write hash_print (SHA256_HASH_LEN * 2) [nul]) (\<lambda>b.
     foldl (\<lambda>r i. bindE r (\<lambda>b. sprintf b (i * 2) (fmt_0x 2 (unat (image_hash ! i)))))
       (Inr b) [0..<SHA256_HASH_LEN])"

subsection \<open>The device's name\<close>

text \<open>Two hexadecimal digits as a byte.\<close>

fun unhex :: "string \<Rightarrow> nat list" where
  "unhex (a # b # cs) = (hexdig_val a * 16 + hexdig_val b) # unhex cs"
| "unhex _ = []"

definition mac_text :: "string \<Rightarrow> string" where
  "mac_text bs = concat (map (\<lambda>c. fmt_0X 2 (of_char c)) bs)"

lemma of_char_less: "(of_char c :: nat) < 256"
  using nat_of_char_less_256 [of c] by simp

lemma unhex_mac_text: "unhex (mac_text bs) = map of_char bs"
proof (induction bs)
  case (Cons c cs)
  have "(of_char c :: nat) div 16 < 16" using of_char_less [of c] by linarith
  then show ?case
    using Cons of_char_less [of c]
    by (simp add: mac_text_def fmt_0X_two hexdig_val_digit_char_upper)
qed (simp add: mac_text_def)

lemma length_mac_text: "length (mac_text bs) = 2 * length bs"
  by (induction bs) (simp_all add: mac_text_def fmt_0X_two of_char_less)

lemma nul_notin_mac_text: "nul \<notin> set (mac_text bs)"
proof (induction bs)
  case (Cons c cs)
  have "(of_char c :: nat) div 16 < 16" using of_char_less [of c] by linarith
  then show ?case
    using Cons nul_not_digit(2) [of "of_char c div 16"] nul_not_digit(2) [of "of_char c mod 16"]
      of_char_less [of c]
    by (auto simp: mac_text_def fmt_0X_two)
qed (simp add: mac_text_def)

lemma APP_Setmac_run:
  assumes "length b = 13" "length mac = 6" "ans_bytes e tr (Sys EfuseMacGet) = mac"
  shows "APP_Setmac b e tr = Inr (mac_text mac @ [nul], tr @ [Sys EfuseMacGet])"
proof -
  obtain c0 c1 c2 c3 c4 c5 where mac: "mac = [c0, c1, c2, c3, c4, c5]"
    using assms(2) by (auto simp: eval_nat_numeral length_Suc_conv)
  have "sprintf b 0 (mac_text mac) = Inr (mac_text mac @ [nul])"
    using assms(1,2) length_mac_text [of mac] by (simp add: sprintf_def buf_write_def)
  then show ?thesis
    using assms(3) by (simp add: APP_Setmac_def cmd_simps mac mac_text_def)
qed

text \<open>
  C33: with the six bytes the fuses hold, start-up writes exactly the 13 bytes of \<open>DEVICE_MAC\<close>:
  twelve upper-case hexadecimal digits, from which the address can be read back, so that
  different addresses give different names. Start-up completes exactly when the flash store can
  be initialised, possibly after erasing it once, and aborts otherwise.
\<close>

theorem APP_Initialize_names_device:
  assumes "length DEVICE_MAC0 = 13" and "length mac = 6"
    and "ans_bytes e tr (Sys EfuseMacGet) = mac"
  shows "let tr1 = tr @ [Sys EfuseMacGet, Sys NvsFlashInit];
             err = ans_int e (tr @ [Sys EfuseMacGet]) (Sys NvsFlashInit);
             full = (err = ESP_ERR_NVS_NO_FREE_PAGES \<or> err = ESP_ERR_NVS_NEW_VERSION_FOUND);
             again = ans_int e tr1 (Sys NvsFlashErase) = ESP_OK \<and>
               ans_int e (tr1 @ [Sys NvsFlashErase]) (Sys NvsFlashInit) = ESP_OK
         in (if err = ESP_OK \<or> full \<and> again
             then (\<exists>mac_buf cs. APP_Initialize DEVICE_MAC0 e tr = Inr (mac_buf, tr @ cs) \<and>
               length mac_buf = 13 \<and> length (c_str mac_buf) = 12 \<and> unhex (c_str mac_buf) = map of_char mac)
             else APP_Initialize DEVICE_MAC0 e tr = Inl Aborted)"
proof -
  have str: "c_str (mac_text mac @ [nul]) = mac_text mac"
    using nul_notin_mac_text [of mac] takeWhile_no [of nul "mac_text mac" "[]"] by (simp add: c_str_def)
  show ?thesis
    using assms(2)
    by (auto simp: APP_Initialize_def APP_Setmac_run [OF assms] cmd_simps str length_mac_text unhex_mac_text
        ESP_ERR_NVS_NO_FREE_PAGES_def ESP_ERR_NVS_NEW_VERSION_FOUND_def)
qed

lemma APP_Initialize_names_device_witness:
  "\<exists>mac_buf cs. APP_Initialize (replicate 13 nul) (silent_env\<lparr>ans_bytes := (\<lambda>_ _. ''012345'')\<rparr>) [] =
     Inr (mac_buf, cs) \<and> unhex (c_str mac_buf) = [48, 49, 50, 51, 52, 53]"
  using APP_Initialize_names_device [of "replicate 13 nul" "''012345''"
      "silent_env\<lparr>ans_bytes := (\<lambda>_ _. ''012345'')\<rparr>" "[]"]
  by auto

subsection \<open>Digests\<close>

definition hash_text :: "u8 list \<Rightarrow> string" where
  "hash_text bs = concat (map (\<lambda>b. fmt_0x 2 (unat b)) bs)"

lemma hash_text_append: "hash_text (xs @ ys) = hash_text xs @ hash_text ys"
  by (simp add: hash_text_def)

lemma length_hash_text: "length (hash_text bs) = 2 * length bs"
  by (induction bs) (simp_all add: hash_text_def fmt_0x_two unat_u8_less)

lemma hash_text_digits: "unhex (hash_text bs) = map unat bs \<and> nul \<notin> set (hash_text bs)"
proof (induction bs)
  case (Cons b bs)
  have "unat b div 16 < 16" using unat_u8_less [of b] by linarith
  then show ?case
    using Cons unat_u8_less [of b] nul_not_digit(1) [of "unat b div 16"] nul_not_digit(1) [of "unat b mod 16"]
    by (auto simp: hash_text_def fmt_0x_two hexdig_val_digit_char)
qed (simp add: hash_text_def)

lemma print_sha256_rounds:
  assumes "length image_hash = 32" "length b = 65" "i \<le> 32"
  shows "\<exists>rest. foldl (\<lambda>r i. bindE r (\<lambda>b. sprintf b (i * 2) (fmt_0x 2 (unat (image_hash ! i))))) (Inr b) [0..<i] =
      Inr (hash_text (take i image_hash) @ rest) \<and>
    length rest = 65 - 2 * i \<and> (0 < i \<longrightarrow> hd rest = nul)"
  using assms(3)
proof (induction i)
  case 0
  then show ?case using assms(2) by (simp add: hash_text_def)
next
  case (Suc i)
  then obtain rest where IH:
    "foldl (\<lambda>r i. bindE r (\<lambda>b. sprintf b (i * 2) (fmt_0x 2 (unat (image_hash ! i))))) (Inr b) [0..<i] =
      Inr (hash_text (take i image_hash) @ rest)" "length rest = 65 - 2 * i"
    by auto
  let ?t = "fmt_0x 2 (unat (image_hash ! i))"
  have len: "length (hash_text (take i image_hash)) = 2 * i" "length ?t = 2"
    using Suc.prems assms(1) by (simp_all add: length_hash_text fmt_0x_two unat_u8_less)
  have "sprintf (hash_text (take i image_hash) @ rest) (i * 2) ?t =
      Inr (hash_text (take i image_hash) @ ?t @ nul # drop 3 rest)"
    using Suc.prems IH(2) len by (simp add: sprintf_def buf_write_def mult.commute)
  moreover have "hash_text (take (Suc i) image_hash) = hash_text (take i image_hash) @ ?t"
    using Suc.prems assms(1) by (simp add: take_Suc_conv_app_nth hash_text_append) (simp add: hash_text_def)
  ultimately show ?case
    using IH Suc.prems by (intro exI [of _ "nul # drop 3 rest"]) simp
qed

text \<open>
  Printing a digest writes the 65 bytes of its buffer and nothing else, and the text is the
  64 hexadecimal digits of the digest.
\<close>

theorem print_sha256_in_bounds:
  assumes "length image_hash = SHA256_HASH_LEN" and "length hash_print = SHA256_HASH_LEN * 2 + 1"
  shows "\<exists>b. print_sha256 image_hash hash_print = Inr b \<and> length b = 65 \<and>
    unhex (c_str b) = map unat image_hash"
proof -
  let ?b = "take 64 hash_print @ [nul]"
  have b: "buf_write hash_print 64 [nul] = Inr ?b" "length ?b = 65"
    using assms(2) by (simp_all add: buf_write_def SHA256_HASH_LEN_def)
  obtain rest where "foldl (\<lambda>r i. bindE r (\<lambda>b. sprintf b (i * 2) (fmt_0x 2 (unat (image_hash ! i))))) (Inr ?b) [0..<32] =
      Inr (hash_text image_hash @ rest)" "length rest = 1" "hd rest = nul"
    using print_sha256_rounds [of image_hash ?b 32] b(2) assms(1) by (auto simp: SHA256_HASH_LEN_def)
  moreover from this have "rest = [nul]" by (cases rest) auto
  ultimately have "print_sha256 image_hash hash_print = Inr (hash_text image_hash @ [nul])"
    using b(1) by (simp add: print_sha256_def SHA256_HASH_LEN_def)
  moreover have "c_str (hash_text image_hash @ [nul]) = hash_text image_hash"
    using hash_text_digits [of image_hash] takeWhile_no [of nul "hash_text image_hash" "[]"] by (simp add: c_str_def)
  ultimately show ?thesis
    using hash_text_digits [of image_hash] assms(1) by (simp add: length_hash_text SHA256_HASH_LEN_def)
qed

lemma print_sha256_in_bounds_witness:
  "\<exists>b. print_sha256 (replicate 32 0xAB) (replicate 65 nul) = Inr b \<and> unhex (c_str b) = replicate 32 0xAB"
  using print_sha256_in_bounds [of "replicate 32 0xAB" "replicate 65 nul"] by (auto simp: SHA256_HASH_LEN_def)

end
