(* ===== verification/Sd.thy ===== *)
theory Sd
  imports Platform
begin

text \<open>
  The SD card, \<open>main/sd_if.c\<close>: mounting, the daily data files, the log file that several tasks
  share under a mutex, and the opening of a file for upload. A \<open>FILE *\<close> is the number the file
  system returned for it, 0 for a null pointer. \<open>CONFIG_SD_CARD_DEBUG\<close> is the parameter
  \<open>sd_debug\<close>.
\<close>

subsection \<open>The code\<close>

definition SD_FILENAME_LENGTH :: nat where "SD_FILENAME_LENGTH = 25"
definition MOUNT_CONFIG_MAXLOGFILE :: u8 where "MOUNT_CONFIG_MAXLOGFILE = 15"
definition MAX_MUTEX_WAIT_TICKS :: nat where
  "MAX_MUTEX_WAIT_TICKS = (30 + portTICK_PERIOD_MS - 1) div portTICK_PERIOD_MS"
definition MAX_FILE_SIZE_MB :: int where "MAX_FILE_SIZE_MB = 1"
definition SD_LOG_FILE_NAME :: string where "SD_LOG_FILE_NAME = ''/sdcard/LOGGING-0.log''"
definition SD_LOG_FILE_MOST_RECENT_NAME :: string where
  "SD_LOG_FILE_MOST_RECENT_NAME = ''/sdcard/LOGGING-15.log''"

definition SD_LOG_FILE_FORMAT :: "nat \<Rightarrow> string" where
  "SD_LOG_FILE_FORMAT i = ''/sdcard/LOGGING-'' @ fmt_0d 2 i @ ''.log''"

definition SD_HDR :: string where
  "SD_HDR = ''time,ID,topic,SecActive,Altitude,Latitude,Longitude,PM1,PM2.5,PM10,Temperature,Humidity,CO,NO'' @ [lf]"

text \<open>
  The globals and the static locals of \<open>periodic_timer_callback\<close>. The counter of log files is a
  \<open>uint8_t\<close>.
\<close>

record sd_state =
  fs_mounted :: bool
  s_log_mutex :: bool
  log_file :: int
  firstTime :: bool
  logFileCounting :: u8

definition releaseLogFileInstance :: "sd_state \<Rightarrow> sd_state cmd" where
  "releaseLogFileInstance st =
     (if s_log_mutex st
      then bindC (if log_file st \<noteq> 0
                  then thenC (doC (Fs (Fclose (log_file st)))) (ret (st\<lparr>log_file := 0\<rparr>))
                  else ret st)
             (\<lambda>st. thenC (doC (Rtos (MutexGive ''s_log_mutex''))) (ret st))
      else ret st)"

definition getLogFileInstance :: "sd_state \<Rightarrow> (int \<times> sd_state) cmd" where
  "getLogFileInstance st =
     bindC (if \<not> s_log_mutex st
            then bindC (askI (Rtos (MutexCreate ''s_log_mutex''))) (\<lambda>m. ret (st\<lparr>s_log_mutex := (m \<noteq> 0)\<rparr>))
            else ret st) (\<lambda>st.
     bindC (askI (Rtos (MutexTake ''s_log_mutex'' (Some MAX_MUTEX_WAIT_TICKS)))) (\<lambda>ok.
     if ok = 0 then ret (0, st)
     else if log_file st \<noteq> 0 then ret (log_file st, st)
     else bindC (askI (Fs (Fopen SD_LOG_FILE_NAME ''a''))) (\<lambda>f.
          let st = st\<lparr>log_file := f\<rparr> in
          if f = 0 then bindC (releaseLogFileInstance st) (\<lambda>st. ret (0, st))
          else ret (f, st))))"

text \<open>The loop over the old log files, with its condition as written; \<open>i\<close> is a \<open>uint8_t\<close>.\<close>

fun log_shift_loop :: "nat \<Rightarrow> u8 \<Rightarrow> unit cmd" where
  "log_shift_loop fuel i =
     (if \<not> MOUNT_CONFIG_MAXLOGFILE - 1 < i then ret ()
      else case fuel of 0 \<Rightarrow> failC NoFuel
           | Suc fuel \<Rightarrow>
               thenC (seqC [doC (Fs (Remove (SD_LOG_FILE_FORMAT (unat i)))),
                            doC (Fs (Rename (SD_LOG_FILE_FORMAT (unat i + 1)) (SD_LOG_FILE_FORMAT (unat i)))),
                            doC (Fs (Rename SD_LOG_FILE_NAME (SD_LOG_FILE_FORMAT (unat i))))])
                 (log_shift_loop fuel (i + 1)))"

text \<open>
  The size is read from \<open>st\<close> whether or not \<open>stat\<close> filled it in: the second component of the
  answer is whatever is in the field then.
\<close>

definition periodic_timer_callback :: "bool \<Rightarrow> sd_state \<Rightarrow> sd_state cmd" where
  "periodic_timer_callback sd_debug st =
     (if \<not> sd_debug then ret st else
      bindC (if \<not> firstTime st then getLogFileInstance st else ret (0, st)) (\<lambda>(logFileInstance, st).
      bindC (askIB (Fs (Stat SD_LOG_FILE_NAME))) (\<lambda>(_, size).
      bindC (if sint size > MAX_FILE_SIZE_MB * 1024 * 1024 \<and> log_file st \<noteq> 0 \<and> \<not> firstTime st
             then thenC (seqC [doC (Fs (Fclose (log_file st))),
                               doC (Fs (Remove (SD_LOG_FILE_FORMAT (unat (logFileCounting st))))),
                               doC (Fs (Rename SD_LOG_FILE_NAME (SD_LOG_FILE_FORMAT (unat (logFileCounting st)))))])
                    (ret (st\<lparr>log_file := 0, logFileCounting := logFileCounting st + 1\<rparr>))
             else ret st) (\<lambda>st.
      bindC (if MOUNT_CONFIG_MAXLOGFILE < logFileCounting st
             then thenC (seqC [log_shift_loop 256 1, doC (Fs (Remove SD_LOG_FILE_MOST_RECENT_NAME))])
                    (ret (st\<lparr>logFileCounting := 15\<rparr>))
             else ret st) (\<lambda>st.
      bindC (if firstTime st then ret (st\<lparr>firstTime := False\<rparr>)
             else if logFileInstance \<noteq> 0 then releaseLogFileInstance st
             else ret st) (\<lambda>st.
      ret (st\<lparr>log_file := logFileInstance\<rparr>)))))))"

definition SD_Initialize :: "bool \<Rightarrow> sd_state \<Rightarrow> (esp_err \<times> sd_state) cmd" where
  "SD_Initialize sd_debug st =
     thenC (seqC (map (\<lambda>p. doC (Fs (PullupOnly p))) [15, 2, 4, 12, 13]))
     (bindC (askI (Fs (FatMount ''/sdcard''))) (\<lambda>r.
      if r \<noteq> ESP_OK then ret (r, st) else
      bindC (if sd_debug
             then thenC (doC (Fs LogSetVprintf)) (periodic_timer_callback sd_debug st)
             else ret st) (\<lambda>st.
      ret (r, st\<lparr>fs_mounted := True\<rparr>))))"

definition sd_deinit :: "esp_err cmd" where
  "sd_deinit = askI (Fs FatUnmount)"

definition sd_filename :: "u8 \<Rightarrow> u8 \<Rightarrow> u8 \<Rightarrow> string" where
  "sd_filename year month day =
     ''/sdcard/'' @ fmt_0d 2 (unat year) @ ''-'' @ fmt_0d 2 (unat month) @ ''-'' @ fmt_0d 2 (unat day) @ ''.csv''"

definition sd_write_data :: "string \<Rightarrow> u8 \<Rightarrow> u8 \<Rightarrow> u8 \<Rightarrow> esp_err cmd" where
  "sd_write_data pkt year month day =
     bindC (liftE (sprintf (replicate 64 nul) 0 (sd_filename year month day))) (\<lambda>filename.
     bindC (askI (Fs (Stat (c_str filename)))) (\<lambda>r.
     let exists = (r = 0) in
     bindC (askI (Fs (Fopen (c_str filename) ''a''))) (\<lambda>f.
     if f = 0 then ret ESP_FAIL else
     thenC (seqC [whenC (\<not> exists) (doC (Fs (Fprintf f SD_HDR))),
                  doC (Fs (Fprintf f pkt)), doC (Fs (Fclose f))])
       (ret ESP_OK))))"

text \<open>The text is the result of formatting, which the C library does.\<close>

definition esp_sd_log_write :: "string \<Rightarrow> sd_state \<Rightarrow> (esp_err \<times> sd_state) cmd" where
  "esp_sd_log_write txt st =
     bindC (getLogFileInstance st) (\<lambda>(f, st).
     if f = 0 then ret (ESP_FAIL, st)
     else thenC (seqC [doC (Fs (Fprintf (log_file st) txt)), doC (Fs (Fflush (log_file st)))])
            (bindC (releaseLogFileInstance st) (\<lambda>st. ret (ESP_OK, st))))"

definition sd_fopen :: "bool \<Rightarrow> string \<Rightarrow> sd_state \<Rightarrow> (int \<times> sd_state) cmd" where
  "sd_fopen sd_debug filename st =
     bindC (if \<not> fs_mounted st then SD_Initialize sd_debug st else ret (ESP_OK, st)) (\<lambda>(err, st).
     if err \<noteq> ESP_OK then ret (0, st) else
     let txt = ''/sdcard/'' @ filename in
     bindC (liftE (snprintf (replicate SD_FILENAME_LENGTH nul) 0 SD_FILENAME_LENGTH txt)) (\<lambda>fn_full.
     if length txt > SD_FILENAME_LENGTH then ret (0, st)
     else bindC (askI (Fs (Fopen (c_str fn_full) ''r''))) (\<lambda>fp. ret (fp, st))))"

subsection \<open>Data files\<close>

lemma length_fmt_0d_byte: "length (fmt_0d 2 (unat (b :: u8))) \<le> 3"
proof -
  have "length (fmt_u (unat b)) \<le> 3"
    using unat_u8_less [of b] by (intro length_fmt_u) simp_all
  then show ?thesis by (auto simp: fmt_0d_def pad0_def)
qed

lemma nul_notin_fmt_0d: "nul \<notin> set (fmt_0d w n)"
  by (auto simp: fmt_0d_def pad0_def nul_notin_fmt_u)

lemma sd_filename_fits:
  "\<exists>b. sprintf (replicate 64 nul) 0 (sd_filename year month day) = Inr b \<and> c_str b = sd_filename year month day"
proof -
  let ?f = "sd_filename year month day"
  have len: "length ?f < 64"
    using length_fmt_0d_byte [of year] length_fmt_0d_byte [of month] length_fmt_0d_byte [of day]
    by (simp add: sd_filename_def)
  have nul: "nul \<notin> set ?f"
    using nul_notin_fmt_0d by (simp add: sd_filename_def)
  have "sprintf (replicate 64 nul) 0 ?f = Inr (?f @ nul # replicate (63 - length ?f) nul)"
    using len by (simp add: sprintf_def buf_write_def)
  then show ?thesis
    using takeWhile_no [OF nul] by (simp add: c_str_def)
qed

text \<open>
  C34: writing a data packet never overruns the file-name buffer, whatever the date bytes are.
  It asks whether the day's file exists, opens it for appending, and if that succeeds writes the
  header exactly when the file did not exist, then the packet, closes the file and reports
  success; if the file cannot be opened it writes nothing and reports failure.
\<close>

theorem sd_write_data_appends:
  "let fn = sd_filename year month day;
       exists = (ans_int e tr (Fs (Stat fn)) = 0);
       f = ans_int e (tr @ [Fs (Stat fn)]) (Fs (Fopen fn ''a''))
   in sd_write_data pkt year month day e tr =
        (if f = 0 then Inr (ESP_FAIL, tr @ [Fs (Stat fn), Fs (Fopen fn ''a'')])
         else Inr (ESP_OK, tr @ [Fs (Stat fn), Fs (Fopen fn ''a'')] @
                (if exists then [] else [Fs (Fprintf f SD_HDR)]) @ [Fs (Fprintf f pkt), Fs (Fclose f)]))"
proof -
  obtain b where "sprintf (replicate 64 nul) 0 (sd_filename year month day) = Inr b"
    "c_str b = sd_filename year month day"
    using sd_filename_fits by blast
  then show ?thesis
    by (simp add: sd_write_data_def cmd_simps)
qed

subsection \<open>The log file\<close>

lemma log_shift_loop_empty: "log_shift_loop fuel 1 = ret ()"
  by (simp add: MOUNT_CONFIG_MAXLOGFILE_def)

lemma getLogFileInstance_granted:
  assumes "s_log_mutex st" "log_file st = 0"
    and "ans_int e tr (Rtos (MutexTake ''s_log_mutex'' (Some MAX_MUTEX_WAIT_TICKS))) \<noteq> 0"
    and "ans_int e (tr @ [Rtos (MutexTake ''s_log_mutex'' (Some MAX_MUTEX_WAIT_TICKS))]) (Fs (Fopen SD_LOG_FILE_NAME ''a'')) = f"
    and "f \<noteq> 0"
  shows "getLogFileInstance st e tr =
    Inr ((f, st\<lparr>log_file := f\<rparr>),
         tr @ [Rtos (MutexTake ''s_log_mutex'' (Some MAX_MUTEX_WAIT_TICKS)), Fs (Fopen SD_LOG_FILE_NAME ''a'')])"
  using assms by (simp add: getLogFileInstance_def cmd_simps)

text \<open>
  C35: what a log line does from any state in which the mutex exists or can be created. The first
  line creates the mutex. Once it is granted, the line opens the log file unless one is open
  already, writes and flushes the text, closes the file it wrote to and gives the mutex back, and
  afterwards no file is open; when the file cannot be opened, the mutex is given back and nothing is
  written. When the mutex is not granted, nothing is written and it is not given back.
\<close>

theorem esp_sd_log_write_balanced:
  assumes "s_log_mutex st \<or> ans_int e tr (Rtos (MutexCreate ''s_log_mutex'')) \<noteq> 0"
  shows "let take = Rtos (MutexTake ''s_log_mutex'' (Some MAX_MUTEX_WAIT_TICKS)); give = Rtos (MutexGive ''s_log_mutex'');
             tr1 = tr @ (if s_log_mutex st then [] else [Rtos (MutexCreate ''s_log_mutex'')]);
             st1 = st\<lparr>s_log_mutex := True\<rparr>; is_open = (log_file st \<noteq> 0); open = Fs (Fopen SD_LOG_FILE_NAME ''a'');
             f = (if is_open then log_file st else ans_int e (tr1 @ [take]) open)
         in esp_sd_log_write txt st e tr =
              (if ans_int e tr1 take = 0 then Inr ((ESP_FAIL, st1), tr1 @ [take])
               else if f = 0 then Inr ((ESP_FAIL, st1), tr1 @ [take, open, give])
               else Inr ((ESP_OK, st1\<lparr>log_file := 0\<rparr>),
                      tr1 @ [take] @ (if is_open then [] else [open]) @
                      [Fs (Fprintf f txt), Fs (Fflush f), Fs (Fclose f), give]))"
proof -
  have same: "st\<lparr>s_log_mutex := True\<rparr> = st" if "s_log_mutex st" using that by (cases st) simp
  have closed: "st\<lparr>log_file := 0\<rparr> = st" if "log_file st = 0" using that by (cases st) simp
  show ?thesis
    using assms same closed
    by (auto simp: esp_sd_log_write_def getLogFileInstance_def releaseLogFileInstance_def cmd_simps Let_def)
qed

text \<open>
  C36: from its second call on, the periodic check opens the log file, closes it and leaves the
  closed file as the current one; the next log line then writes to it and closes it a second
  time without opening it again.
\<close>

theorem log_file_used_after_close:
  assumes "s_log_mutex st" "log_file st = 0" "\<not> firstTime st" "logFileCounting st \<le> 15" "f \<noteq> 0"
    and "\<And>tr. ans_int e tr (Rtos (MutexTake ''s_log_mutex'' (Some MAX_MUTEX_WAIT_TICKS))) \<noteq> 0"
    and "\<And>tr. ans_int e tr (Fs (Fopen SD_LOG_FILE_NAME ''a'')) = f"
    and "\<And>tr. sint (ans_bits e tr (Fs (Stat SD_LOG_FILE_NAME))) \<le> 1024 * 1024"
  shows "\<exists>st' cs. periodic_timer_callback True st e tr = Inr (st', tr @ cs) \<and> log_file st' = f \<and>
    cs = [Rtos (MutexTake ''s_log_mutex'' (Some MAX_MUTEX_WAIT_TICKS)), Fs (Fopen SD_LOG_FILE_NAME ''a''),
          Fs (Stat SD_LOG_FILE_NAME), Fs (Fclose f), Rtos (MutexGive ''s_log_mutex'')] \<and>
    esp_sd_log_write txt st' e (tr @ cs) =
      Inr ((ESP_OK, st'\<lparr>log_file := 0\<rparr>),
           tr @ cs @ [Rtos (MutexTake ''s_log_mutex'' (Some MAX_MUTEX_WAIT_TICKS)), Fs (Fprintf f txt), Fs (Fflush f),
                      Fs (Fclose f), Rtos (MutexGive ''s_log_mutex'')])"
proof -
  have cnt: "\<not> MOUNT_CONFIG_MAXLOGFILE < logFileCounting st"
    using assms(4) by (simp add: MOUNT_CONFIG_MAXLOGFILE_def)
  have size: "\<not> 1048576 < sint (ans_bits e tr (Fs (Stat SD_LOG_FILE_NAME)))" for tr
    using assms(8) [of tr] by simp
  have 1: "periodic_timer_callback True st e tr = Inr (st\<lparr>log_file := f\<rparr>,
      tr @ [Rtos (MutexTake ''s_log_mutex'' (Some MAX_MUTEX_WAIT_TICKS)), Fs (Fopen SD_LOG_FILE_NAME ''a''),
            Fs (Stat SD_LOG_FILE_NAME), Fs (Fclose f), Rtos (MutexGive ''s_log_mutex'')])"
    using assms(1-3,5-7) cnt size
    by (simp add: periodic_timer_callback_def getLogFileInstance_granted releaseLogFileInstance_def
        cmd_simps MAX_FILE_SIZE_MB_def)
  show ?thesis
    using assms(1,5,6)
    by (simp add: 1 esp_sd_log_write_def getLogFileInstance_def releaseLogFileInstance_def cmd_simps)
qed

definition sd_demo_env :: env where
  "sd_demo_env = silent_env\<lparr>ans_int := (\<lambda>_ c. case c of Fs (Fopen _ _) \<Rightarrow> 7 | _ \<Rightarrow> 1)\<rparr>"

definition sd_demo_state :: sd_state where
  "sd_demo_state = \<lparr>fs_mounted = True, s_log_mutex = True, log_file = 0, firstTime = False, logFileCounting = 1\<rparr>"

lemma esp_sd_log_write_balanced_witness:
  "esp_sd_log_write ''x'' (sd_demo_state\<lparr>s_log_mutex := False\<rparr>) sd_demo_env [] =
     Inr ((ESP_OK, sd_demo_state), [Rtos (MutexCreate ''s_log_mutex''), Rtos (MutexTake ''s_log_mutex'' (Some MAX_MUTEX_WAIT_TICKS)),
       Fs (Fopen SD_LOG_FILE_NAME ''a''), Fs (Fprintf 7 ''x''), Fs (Fflush 7), Fs (Fclose 7), Rtos (MutexGive ''s_log_mutex'')])"
  using esp_sd_log_write_balanced [of "sd_demo_state\<lparr>s_log_mutex := False\<rparr>" sd_demo_env "[]" "''x''"]
  by (simp add: sd_demo_state_def sd_demo_env_def Let_def)

lemma log_file_used_after_close_witness:
  "\<exists>st' cs. periodic_timer_callback True sd_demo_state sd_demo_env [] = Inr (st', cs) \<and> log_file st' = 7"
  using log_file_used_after_close [of sd_demo_state 7 sd_demo_env "[]" "''x''"]
  by (auto simp: sd_demo_state_def sd_demo_env_def)

text \<open>
  The loop meant to shift the old log files never runs. When the log outgrows its limit
  while the counter is at 15, it is renamed to \<open>LOGGING-15.log\<close> and that file is removed at
  once: the log is lost, and no other file is touched.
\<close>

theorem log_rotation_loses_log:
  assumes "s_log_mutex st" "log_file st = 0" "\<not> firstTime st" "logFileCounting st = 15" "f \<noteq> 0"
    and "\<And>tr. ans_int e tr (Rtos (MutexTake ''s_log_mutex'' (Some MAX_MUTEX_WAIT_TICKS))) \<noteq> 0"
    and "\<And>tr. ans_int e tr (Fs (Fopen SD_LOG_FILE_NAME ''a'')) = f"
    and "\<And>tr. sint (ans_bits e tr (Fs (Stat SD_LOG_FILE_NAME))) > 1024 * 1024"
  shows "\<exists>st'. periodic_timer_callback True st e tr = Inr (st',
      tr @ [Rtos (MutexTake ''s_log_mutex'' (Some MAX_MUTEX_WAIT_TICKS)), Fs (Fopen SD_LOG_FILE_NAME ''a''),
            Fs (Stat SD_LOG_FILE_NAME), Fs (Fclose f), Fs (Remove SD_LOG_FILE_MOST_RECENT_NAME),
            Fs (Rename SD_LOG_FILE_NAME SD_LOG_FILE_MOST_RECENT_NAME),
            Fs (Remove SD_LOG_FILE_MOST_RECENT_NAME), Rtos (MutexGive ''s_log_mutex'')]) \<and>
    logFileCounting st' = 15"
proof -
  have name: "SD_LOG_FILE_FORMAT 15 = SD_LOG_FILE_MOST_RECENT_NAME"
    unfolding SD_LOG_FILE_FORMAT_def SD_LOG_FILE_MOST_RECENT_NAME_def by code_simp
  have size: "1048576 < sint (ans_bits e tr (Fs (Stat SD_LOG_FILE_NAME)))" for tr
    using assms(8) [of tr] by simp
  show ?thesis
    using assms(1-7) size
    by (simp add: periodic_timer_callback_def getLogFileInstance_granted releaseLogFileInstance_def
        cmd_simps MAX_FILE_SIZE_MB_def name log_shift_loop_empty MOUNT_CONFIG_MAXLOGFILE_def del: log_shift_loop.simps)
qed

lemma log_rotation_loses_log_witness:
  "\<exists>st' cs. periodic_timer_callback True (sd_demo_state\<lparr>logFileCounting := 15\<rparr>)
     (sd_demo_env\<lparr>ans_bits := (\<lambda>_ _. 0x200000)\<rparr>) [] = Inr (st', cs) \<and> logFileCounting st' = 15"
  using log_rotation_loses_log [of "sd_demo_state\<lparr>logFileCounting := 15\<rparr>" 7 "sd_demo_env\<lparr>ans_bits := (\<lambda>_ _. 0x200000)\<rparr>" "[]"]
  by (auto simp: sd_demo_state_def sd_demo_env_def)

end
