(* ===== verification/Trace.thy ===== *)
theory Trace
  imports Platform
begin

text \<open>
  Reasoning about the calls a command makes. \<open>emits P m\<close>: whatever the platform answers, when
  \<open>m\<close> returns it has only added calls that satisfy \<open>P\<close>. The rules follow the structure of
  commands. The locale \<open>resource\<close> is the interface of everything that is acquired and given
  back across the boundary, a mutex or an open file: a balance that each call changes by an
  amount that may depend on the answer, and a class of calls that alone can change it.
\<close>

named_theorems emits_intros \<open>the structural rules for the calls a command makes\<close>

definition emits :: "(call \<Rightarrow> bool) \<Rightarrow> 'a cmd \<Rightarrow> bool" where
  "emits P m \<longleftrightarrow> (\<forall>e tr x tr'. m e tr = Inr (x, tr') \<longrightarrow> (\<exists>cs. tr' = tr @ cs \<and> list_all P cs))"

lemma emitsI:
  assumes "\<And>e tr x tr'. m e tr = Inr (x, tr') \<Longrightarrow> \<exists>cs. tr' = tr @ cs \<and> list_all P cs"
  shows "emits P m"
  using assms by (simp add: emits_def)

lemma emitsE:
  assumes "emits P m" "m e tr = Inr (x, tr')"
  obtains cs where "tr' = tr @ cs" "list_all P cs"
  using assms unfolding emits_def by blast

lemma emits_atoms [emits_intros]:
  "emits P (ret x)" "emits P (failC k)" "emits P (liftE r)"
  "P c \<Longrightarrow> emits P (doC c)" "P c \<Longrightarrow> emits P (askI c)" "P c \<Longrightarrow> emits P (askB c)"
  "P c \<Longrightarrow> emits P (askIS c)" "P c \<Longrightarrow> emits P (askIB c)" "P c \<Longrightarrow> emits P (askA c)"
  by (auto simp: emits_def ret_def failC_def liftE_def doC_def askI_def askB_def askIS_def askIB_def askA_def
      split: sum.splits)

lemma emits_bind [emits_intros]:
  assumes m: "emits P m" and f: "\<And>x. emits P (f x)"
  shows "emits P (bindC m f)"
proof (rule emitsI)
  fix e tr y tr'
  assume "bindC m f e tr = Inr (y, tr')"
  then obtain x tr1 where 1: "m e tr = Inr (x, tr1)" and 2: "f x e tr1 = Inr (y, tr')"
    by (auto simp: bindC_def split: sum.splits prod.splits)
  obtain cs where "tr1 = tr @ cs" "list_all P cs" using m 1 by (rule emitsE)
  moreover obtain ds where "tr' = tr1 @ ds" "list_all P ds" using f 2 by (rule emitsE)
  ultimately show "\<exists>cs. tr' = tr @ cs \<and> list_all P cs" by (intro exI [of _ "cs @ ds"]) simp
qed

lemma emits_then [emits_intros]: "emits P m \<Longrightarrow> emits P n \<Longrightarrow> emits P (thenC m n)"
  by (simp add: thenC_def emits_bind)

lemma emits_when [emits_intros]: "(b \<Longrightarrow> emits P m) \<Longrightarrow> emits P (whenC b m)"
  by (simp add: whenC_def emits_atoms)

lemma emits_seq [emits_intros]: "list_all (emits P) ms \<Longrightarrow> emits P (seqC ms)"
  by (induction ms) (simp_all add: emits_atoms emits_then)

lemma emits_if [emits_intros]: "(b \<Longrightarrow> emits P m) \<Longrightarrow> (\<not> b \<Longrightarrow> emits P n) \<Longrightarrow> emits P (if b then m else n)"
  by simp

lemma emits_let [emits_intros]: "(\<And>x. emits P (f x)) \<Longrightarrow> emits P (let x = v in f x)"
  by simp

lemma emits_prod [emits_intros]: "(\<And>x y. emits P (f x y)) \<Longrightarrow> emits P (case p of (x, y) \<Rightarrow> f x y)"
  by (cases p) simp

lemma emits_option [emits_intros]:
  "emits P n \<Longrightarrow> (\<And>x. emits P (f x)) \<Longrightarrow> emits P (case v of None \<Rightarrow> n | Some x \<Rightarrow> f x)"
  by (cases v) simp_all

lemma emits_error_check [emits_intros]: "emits P (esp_error_check r)"
  by (simp add: esp_error_check_def emits_atoms)

lemma emits_malloc [emits_intros]: "P (Sys (Malloc n)) \<Longrightarrow> emits P (malloc n)"
  unfolding malloc_def by (intro emits_bind emits_prod emits_atoms)

lemma emits_weaken: "emits P m \<Longrightarrow> (\<And>c. P c \<Longrightarrow> Q c) \<Longrightarrow> emits Q m"
  unfolding emits_def by (metis list_all_iff)

text \<open>\<open>gives e Q m\<close>: run against \<open>e\<close>, when \<open>m\<close> returns, its value satisfies \<open>Q\<close>.\<close>

definition gives :: "env \<Rightarrow> ('a \<Rightarrow> bool) \<Rightarrow> 'a cmd \<Rightarrow> bool" where
  "gives e Q m \<longleftrightarrow> (\<forall>tr x tr'. m e tr = Inr (x, tr') \<longrightarrow> Q x)"

lemma givesD: "gives e Q m \<Longrightarrow> m e tr = Inr (x, tr') \<Longrightarrow> Q x"
  unfolding gives_def by blast

lemma gives_bind:
  "gives e P m \<Longrightarrow> (\<And>x. P x \<Longrightarrow> gives e Q (f x)) \<Longrightarrow> gives e Q (bindC m f)"
  unfolding gives_def bindC_def by (fastforce split: sum.splits prod.splits)

lemma gives_weaken: "gives e P m \<Longrightarrow> (\<And>x. P x \<Longrightarrow> Q x) \<Longrightarrow> gives e Q m"
  unfolding gives_def by blast

lemma gives_any: "gives e (\<lambda>_. True) m"
  by (simp add: gives_def)

lemma gives_skip: "(\<And>x. gives e Q (f x)) \<Longrightarrow> gives e Q (bindC m f)"
  by (rule gives_bind [OF gives_any])

lemma gives_then: "gives e Q n \<Longrightarrow> gives e Q (thenC m n)"
  unfolding thenC_def by (rule gives_skip)

lemma gives_ret: "Q x \<Longrightarrow> gives e Q (ret x)"
  by (simp add: gives_def ret_def)

lemma gives_fail: "gives e Q (failC k)"
  by (simp add: gives_def failC_def)

lemma gives_lift: "(\<And>x. r = Inr x \<Longrightarrow> Q x) \<Longrightarrow> gives e Q (liftE r)"
  by (cases r) (simp_all add: gives_def liftE_def)

lemma gives_lift_bind: "(\<And>x. r = Inr x \<Longrightarrow> gives e Q (f x)) \<Longrightarrow> gives e Q (bindC (liftE r) f)"
  by (rule gives_bind [OF gives_lift [where Q = "\<lambda>x. r = Inr x"]])

lemma gives_if: "(b \<Longrightarrow> gives e Q m) \<Longrightarrow> (\<not> b \<Longrightarrow> gives e Q n) \<Longrightarrow> gives e Q (if b then m else n)"
  by simp

lemma gives_let: "gives e Q (f v) \<Longrightarrow> gives e Q (let x = v in f x)"
  by simp

lemma gives_prod: "(\<And>x y. p = (x, y) \<Longrightarrow> gives e Q (f x y)) \<Longrightarrow> gives e Q (case p of (x, y) \<Rightarrow> f x y)"
  by (cases p) simp

lemma gives_option:
  "(v = None \<Longrightarrow> gives e Q n) \<Longrightarrow> (\<And>x. v = Some x \<Longrightarrow> gives e Q (f x)) \<Longrightarrow>
   gives e Q (case v of None \<Rightarrow> n | Some x \<Rightarrow> f x)"
  by (cases v) simp_all

lemma gives_asks:
  "(\<And>x. gives e Q (f x)) \<Longrightarrow> gives e Q (bindC (askI c) f)" "(\<And>x. gives e Q (g x)) \<Longrightarrow> gives e Q (bindC (askB c) g)"
  "(\<And>x. gives e Q (h x)) \<Longrightarrow> gives e Q (bindC (askIS c) h)" "(\<And>x. gives e Q (k x)) \<Longrightarrow> gives e Q (bindC (askIB c) k)"
  by (simp_all add: gives_skip)

lemma gives_malloc: "(\<And>p b. length b = n \<Longrightarrow> gives e Q (f (p, b))) \<Longrightarrow> gives e Q (bindC (malloc n) f)"
proof (rule gives_bind)
  show "gives e (\<lambda>(p, b). length b = n) (malloc n)" by (simp add: gives_def malloc_run)
qed auto

lemmas gives_rules = gives_then gives_ret gives_fail gives_lift_bind gives_if gives_let gives_prod gives_option gives_asks gives_malloc

text \<open>\<open>yields Q m\<close>: the same against every environment.\<close>

definition yields :: "('a \<Rightarrow> bool) \<Rightarrow> 'a cmd \<Rightarrow> bool" where
  "yields Q m \<longleftrightarrow> (\<forall>e. gives e Q m)"

lemma yieldsD: "yields Q m \<Longrightarrow> m e tr = Inr (x, tr') \<Longrightarrow> Q x"
  unfolding yields_def by (blast dest: givesD)

lemma yields_bind: "(\<And>x. yields Q (f x)) \<Longrightarrow> yields Q (bindC m f)"
  by (simp add: yields_def gives_skip)

lemma yields_then: "yields Q n \<Longrightarrow> yields Q (thenC m n)"
  by (simp add: yields_def gives_then)

lemma yields_ret: "Q x \<Longrightarrow> yields Q (ret x)"
  by (simp add: yields_def gives_ret)

lemma yields_if: "(b \<Longrightarrow> yields Q m) \<Longrightarrow> (\<not> b \<Longrightarrow> yields Q n) \<Longrightarrow> yields Q (if b then m else n)"
  by simp

lemmas yields_intros = yields_bind yields_then yields_ret yields_if

text \<open>A continuation matters only at the values its command can yield.\<close>

lemma bindC_cong_yields:
  assumes "yields Q m" "\<And>x. Q x \<Longrightarrow> f x = g x"
  shows "bindC m f = bindC m g"
proof (rule ext)+
  fix e tr
  show "bindC m f e tr = bindC m g e tr"
    using assms by (cases "m e tr") (auto simp: bindC_def dest: yieldsD)
qed

text \<open>\<open>returns m\<close>: whatever the platform answers, \<open>m\<close> returns.\<close>

named_theorems returns_intros \<open>the structural rules for commands that always return\<close>

definition returns :: "'a cmd \<Rightarrow> bool" where
  "returns m \<longleftrightarrow> (\<forall>e tr. \<exists>x cs. m e tr = Inr (x, tr @ cs))"

lemma returnsE:
  assumes "returns m"
  obtains x cs where "m e tr = Inr (x, tr @ cs)"
  using assms unfolding returns_def by blast

lemma returns_atoms [returns_intros]:
  "returns (ret x)" "returns (doC c)" "returns (askI c)" "returns (askB c)" "returns (askIS c)" "returns (askIB c)"
  by (auto simp: returns_def ret_def doC_def askI_def askB_def askIS_def askIB_def)

lemma returns_bind [returns_intros]:
  assumes "returns m" "\<And>x. returns (f x)"
  shows "returns (bindC m f)"
  unfolding returns_def
proof (intro allI)
  fix e tr
  obtain x cs where 1: "m e tr = Inr (x, tr @ cs)" using assms(1) by (rule returnsE)
  obtain y ds where "f x e (tr @ cs) = Inr (y, (tr @ cs) @ ds)" using assms(2) by (rule returnsE)
  with 1 show "\<exists>y cs. bindC m f e tr = Inr (y, tr @ cs)" by (simp add: bindC_def)
qed

lemma returns_then [returns_intros]: "returns m \<Longrightarrow> returns n \<Longrightarrow> returns (thenC m n)"
  by (simp add: thenC_def returns_bind)

lemma returns_if [returns_intros]: "(b \<Longrightarrow> returns m) \<Longrightarrow> (\<not> b \<Longrightarrow> returns n) \<Longrightarrow> returns (if b then m else n)"
  by simp

lemma returns_when [returns_intros]: "(b \<Longrightarrow> returns m) \<Longrightarrow> returns (whenC b m)"
  by (simp add: whenC_def returns_atoms)

lemma returns_let [returns_intros]: "(\<And>x. returns (f x)) \<Longrightarrow> returns (let x = v in f x)"
  by simp

lemma returns_prod [returns_intros]: "(\<And>x y. returns (f x y)) \<Longrightarrow> returns (case p of (x, y) \<Rightarrow> f x y)"
  by (cases p) simp

lemma returns_seq [returns_intros]: "list_all returns ms \<Longrightarrow> returns (seqC ms)"
  by (induction ms) (simp_all add: returns_atoms returns_then)

text \<open>\<open>does e Q m\<close>: run against \<open>e\<close>, \<open>m\<close> returns, and its value satisfies \<open>Q\<close>.\<close>

definition does :: "env \<Rightarrow> ('a \<Rightarrow> bool) \<Rightarrow> 'a cmd \<Rightarrow> bool" where
  "does e Q m \<longleftrightarrow> (\<forall>tr. \<exists>x cs. m e tr = Inr (x, tr @ cs) \<and> Q x)"

lemma doesE:
  assumes "does e Q m"
  obtains x cs where "m e tr = Inr (x, tr @ cs)" "Q x"
  using assms unfolding does_def by blast

lemma does_bind:
  assumes "does e P m" "\<And>x. P x \<Longrightarrow> does e Q (f x)"
  shows "does e Q (bindC m f)"
  unfolding does_def
proof
  fix tr
  obtain x cs where 1: "m e tr = Inr (x, tr @ cs)" "P x" using assms(1) by (rule doesE)
  obtain y ds where "f x e (tr @ cs) = Inr (y, (tr @ cs) @ ds)" "Q y" using assms(2) [OF 1(2)] by (rule doesE)
  with 1 show "\<exists>y cs. bindC m f e tr = Inr (y, tr @ cs) \<and> Q y" by (simp add: bindC_def)
qed

lemma does_weaken: "does e P m \<Longrightarrow> (\<And>x. P x \<Longrightarrow> Q x) \<Longrightarrow> does e Q m"
  unfolding does_def by meson

lemma does_gives: "does e P m \<Longrightarrow> gives e Q m \<Longrightarrow> does e (\<lambda>x. P x \<and> Q x) m"
  unfolding does_def by (meson givesD)

lemma does_determines: "does e Q m \<Longrightarrow> gives e Q m"
  unfolding does_def gives_def by (metis sum.inject(2) prod.inject)

lemma does_returns: "returns m \<Longrightarrow> does e (\<lambda>_. True) m"
  by (simp add: does_def returns_def)

lemma does_skip: "returns m \<Longrightarrow> (\<And>x. does e Q (f x)) \<Longrightarrow> does e Q (bindC m f)"
  by (rule does_bind [OF does_returns])

lemma does_then: "does e (\<lambda>_. True) m \<Longrightarrow> does e Q n \<Longrightarrow> does e Q (thenC m n)"
  unfolding thenC_def by (rule does_bind)

lemma does_ret: "Q x \<Longrightarrow> does e Q (ret x)"
  by (simp add: does_def ret_def)

lemma does_lift: "r = Inr x \<Longrightarrow> Q x \<Longrightarrow> does e Q (liftE r)"
  by (simp add: does_def liftE_def)

lemma does_lift_bind: "r = Inr x \<Longrightarrow> does e Q (f x) \<Longrightarrow> does e Q (bindC (liftE r) f)"
  by (rule does_bind [OF does_lift [where Q = "\<lambda>y. y = x"]]) simp_all

lemma does_answers:
  "(\<And>tr. P (ans_int e tr c)) \<Longrightarrow> does e P (askI c)"
  "(\<And>tr. R (ans_int e tr c, ans_bytes e tr c)) \<Longrightarrow> does e R (askIS c)"
  "(\<And>tr. S (ans_int e tr c, ans_aps e tr c)) \<Longrightarrow> does e S (askA c)"
  by (simp_all add: askI_def askIS_def askA_def does_def)

lemmas does_asks = does_bind [OF does_answers(1)] does_bind [OF does_answers(2)] does_bind [OF does_answers(3)]

lemma does_malloc:
  assumes "\<And>tr. ans_int e tr (Sys (Malloc n)) \<noteq> 0" "\<And>p b. p \<noteq> 0 \<Longrightarrow> length b = n \<Longrightarrow> does e Q (f (p, b))"
  shows "does e Q (bindC (malloc n) f)"
  by (rule does_bind [where P = "\<lambda>(p, b). p \<noteq> 0 \<and> length b = n"]) (use assms in \<open>auto simp: does_def malloc_run\<close>)

lemma does_seq: "list_all (does e (\<lambda>_. True)) ms \<Longrightarrow> does e (\<lambda>_. True) (seqC ms)"
  by (induction ms) (simp_all add: does_ret does_then)

lemma does_if: "(b \<Longrightarrow> does e Q m) \<Longrightarrow> (\<not> b \<Longrightarrow> does e Q n) \<Longrightarrow> does e Q (if b then m else n)"
  by simp

subsection \<open>Resources\<close>

text \<open>
  The change of a balance over the calls \<open>cs\<close> made after \<open>tr\<close>, and that a balance that starts
  at \<open>i\<close> is 0 or 1 before and after each of the calls: what is acquired is not acquired again
  before it is given back, and only what is held is given back.
\<close>

fun balance :: "(env \<Rightarrow> call list \<Rightarrow> call \<Rightarrow> int) \<Rightarrow> env \<Rightarrow> call list \<Rightarrow> call list \<Rightarrow> int" where
  "balance delta e tr [] = 0"
| "balance delta e tr (c # cs) = delta e tr c + balance delta e (tr @ [c]) cs"

fun disciplined :: "(env \<Rightarrow> call list \<Rightarrow> call \<Rightarrow> int) \<Rightarrow> env \<Rightarrow> call list \<Rightarrow> int \<Rightarrow> call list \<Rightarrow> bool" where
  "disciplined delta e tr i [] \<longleftrightarrow> 0 \<le> i \<and> i \<le> 1"
| "disciplined delta e tr i (c # cs) \<longleftrightarrow>
     0 \<le> i \<and> i \<le> 1 \<and> disciplined delta e (tr @ [c]) (i + delta e tr c) cs"

lemma balance_append: "balance delta e tr (cs @ ds) = balance delta e tr cs + balance delta e (tr @ cs) ds"
  by (induction cs arbitrary: tr) simp_all

lemma disciplined_append:
  "disciplined delta e tr i (cs @ ds) \<longleftrightarrow>
     disciplined delta e tr i cs \<and> disciplined delta e (tr @ cs) (i + balance delta e tr cs) ds"
proof (induction cs arbitrary: tr i)
  case Nil
  then show ?case by (cases ds) auto
qed (simp add: add.assoc)

locale resource =
  fixes delta :: "env \<Rightarrow> call list \<Rightarrow> call \<Rightarrow> int"
    and relevant :: "call \<Rightarrow> bool"
  assumes irrelevant: "\<not> relevant c \<Longrightarrow> delta e tr c = 0"
begin

lemma irrelevant_calls:
  assumes "list_all (\<lambda>c. \<not> relevant c) cs"
  shows "balance delta e tr cs = 0" "disciplined delta e tr i cs \<longleftrightarrow> 0 \<le> i \<and> i \<le> 1"
  using assms by (induction cs arbitrary: tr) (auto simp: irrelevant)

text \<open>
  \<open>moves i k m\<close>: run with a balance of \<open>i\<close>, the command keeps the discipline, and when it
  returns \<open>x\<close> the balance is \<open>k x\<close>.
\<close>

definition moves :: "int \<Rightarrow> ('a \<Rightarrow> int) \<Rightarrow> 'a cmd \<Rightarrow> bool" where
  "moves i k m \<longleftrightarrow> (\<forall>e tr x tr'. m e tr = Inr (x, tr') \<longrightarrow>
     (\<exists>cs. tr' = tr @ cs \<and> disciplined delta e tr i cs \<and> i + balance delta e tr cs = k x))"

definition neutral :: "'a cmd \<Rightarrow> bool" where
  "neutral m \<longleftrightarrow> moves 0 (\<lambda>_. 0) m"

lemma movesE:
  assumes "moves i k m" "m e tr = Inr (x, tr')"
  obtains cs where "tr' = tr @ cs" "disciplined delta e tr i cs" "i + balance delta e tr cs = k x"
  using assms unfolding moves_def by blast

lemma moves_emits:
  assumes "emits (\<lambda>c. \<not> relevant c) m" "0 \<le> i" "i \<le> 1"
  shows "moves i (\<lambda>_. i) m"
  using assms unfolding moves_def by (auto elim!: emitsE simp: irrelevant_calls)

lemma neutral_emits: "emits (\<lambda>c. \<not> relevant c) m \<Longrightarrow> neutral m"
  unfolding neutral_def by (rule moves_emits) simp_all

lemma moves_bind:
  assumes "moves i k m" and f: "\<And>x. moves (k x) l (f x)"
  shows "moves i l (bindC m f)"
  unfolding moves_def
proof (intro allI impI)
  fix e tr y tr'
  assume "bindC m f e tr = Inr (y, tr')"
  then obtain x tr1 where 1: "m e tr = Inr (x, tr1)" and 2: "f x e tr1 = Inr (y, tr')"
    by (auto simp: bindC_def split: sum.splits prod.splits)
  obtain cs where "tr1 = tr @ cs" "disciplined delta e tr i cs" "i + balance delta e tr cs = k x"
    using assms(1) 1 by (rule movesE)
  moreover obtain ds where "tr' = tr1 @ ds" "disciplined delta e tr1 (k x) ds" "k x + balance delta e tr1 ds = l y"
    using f 2 by (rule movesE)
  ultimately show "\<exists>cs. tr' = tr @ cs \<and> disciplined delta e tr i cs \<and> i + balance delta e tr cs = l y"
    by (intro exI [of _ "cs @ ds"]) (simp add: balance_append disciplined_append)
qed

lemma neutral_bind: "neutral m \<Longrightarrow> (\<And>x. neutral (f x)) \<Longrightarrow> neutral (bindC m f)"
  unfolding neutral_def by (rule moves_bind)

lemma neutral_then: "neutral m \<Longrightarrow> neutral n \<Longrightarrow> neutral (thenC m n)"
  by (simp add: thenC_def neutral_bind)

lemma neutral_if: "(b \<Longrightarrow> neutral m) \<Longrightarrow> (\<not> b \<Longrightarrow> neutral n) \<Longrightarrow> neutral (if b then m else n)"
  by simp

lemma neutral_prod: "(\<And>x y. neutral (f x y)) \<Longrightarrow> neutral (case p of (x, y) \<Rightarrow> f x y)"
  by (cases p) simp

lemma neutral_option: "neutral n \<Longrightarrow> (\<And>x. neutral (f x)) \<Longrightarrow> neutral (case v of None \<Rightarrow> n | Some x \<Rightarrow> f x)"
  by (cases v) simp_all

lemma neutral_ret: "neutral (ret x)" "neutral (failC k)" "neutral (liftE r)"
  by (rule neutral_emits, rule emits_atoms)+

text \<open>
  The pattern of every critical section: acquire, work without touching the resource, release
  when it was granted.
\<close>

lemma neutral_section:
  assumes "moves 0 (\<lambda>ok. if ok then 1 else 0) acquire"
    and "emits (\<lambda>c. \<not> relevant c) body" and "moves 1 (\<lambda>_. 0) release"
    and "\<And>x. neutral (k x)" and "neutral other"
  shows "neutral (bindC acquire (\<lambda>ok. if ok then bindC body (\<lambda>x. thenC release (k x)) else other))"
  unfolding neutral_def
proof (rule moves_bind [OF assms(1)])
  fix ok
  have "moves 1 (\<lambda>_. 0) (bindC body (\<lambda>x. thenC release (k x)))"
  proof (rule moves_bind [OF moves_emits [OF assms(2)]])
    fix x
    show "moves 1 (\<lambda>_. 0) (thenC release (k x))"
      unfolding thenC_def using assms(4) by (intro moves_bind [OF assms(3)]) (simp add: neutral_def)
  qed simp_all
  then show "moves (if ok then 1 else 0) (\<lambda>_. 0) (if ok then bindC body (\<lambda>x. thenC release (k x)) else other)"
    using assms(5) by (simp add: neutral_def)
qed

text \<open>\<open>shifts k m\<close>: when \<open>m\<close> returns \<open>x\<close>, the balance has changed by \<open>k x\<close>, disciplined or not.\<close>

definition shifts :: "('a \<Rightarrow> int) \<Rightarrow> 'a cmd \<Rightarrow> bool" where
  "shifts k m \<longleftrightarrow> (\<forall>e tr x tr'. m e tr = Inr (x, tr') \<longrightarrow> (\<exists>cs. tr' = tr @ cs \<and> balance delta e tr cs = k x))"

lemma shiftsE:
  assumes "shifts k m" "m e tr = Inr (x, tr')"
  obtains cs where "tr' = tr @ cs" "balance delta e tr cs = k x"
  using assms unfolding shifts_def by blast

lemma shifts_emits: "emits (\<lambda>c. \<not> relevant c) m \<Longrightarrow> shifts (\<lambda>_. 0) m"
  unfolding shifts_def by (auto elim!: emitsE dest: irrelevant_calls)

lemma shifts_moves: "moves i k m \<Longrightarrow> shifts (\<lambda>x. k x - i) m"
  unfolding shifts_def by (fastforce elim!: movesE)

lemma shifts_bind:
  assumes "shifts k m" and f: "\<And>x. shifts (\<lambda>y. l y - k x) (f x)"
  shows "shifts l (bindC m f)"
  unfolding shifts_def
proof (intro allI impI)
  fix e tr y tr'
  assume "bindC m f e tr = Inr (y, tr')"
  then obtain x tr1 where 1: "m e tr = Inr (x, tr1)" and 2: "f x e tr1 = Inr (y, tr')"
    by (auto simp: bindC_def split: sum.splits prod.splits)
  obtain cs where "tr1 = tr @ cs" "balance delta e tr cs = k x" using assms(1) 1 by (rule shiftsE)
  moreover obtain ds where "tr' = tr1 @ ds" "balance delta e tr1 ds = l y - k x" using f 2 by (rule shiftsE)
  ultimately show "\<exists>cs. tr' = tr @ cs \<and> balance delta e tr cs = l y"
    by (intro exI [of _ "cs @ ds"]) (simp add: balance_append)
qed

lemmas neutral_intros =
  neutral_bind neutral_then neutral_if neutral_prod neutral_option neutral_ret

end

end
