(* ===== verification/Upload.thy ===== *)
theory Upload
  imports Sd Trace
begin

text \<open>
  The upload of a file from the SD card, \<open>main/http_file_upload.c\<close>: an HTTP POST with a
  multipart body in chunked transfer encoding, written to a socket piece by piece from one
  buffer, and the reading of the response. The sizes, which are \<open>uint32_t\<close> in the source, are
  natural numbers: they are bounded by the size of the buffer.
\<close>

subsection \<open>Constants and state\<close>


definition SERVER_FILENAME_LEN :: nat where "SERVER_FILENAME_LEN = 64"
definition CHUNK_SZ_STR_LEN :: nat where "CHUNK_SZ_STR_LEN = 16"
definition HOSTNAME :: string where "HOSTNAME = ''192.168.1.169''"
definition PORT :: string where "PORT = ''80''"
definition WEB_URL :: string where "WEB_URL = ''http://'' @ HOSTNAME @ '':'' @ PORT @ ''/''"
definition BOUNDARY :: string where "BOUNDARY = ''-----z9Y6ivbmznZNE23n-----''"

definition MULTIPART_REQUEST :: string where
  "MULTIPART_REQUEST =
     ''POST '' @ WEB_URL @ '' HTTP/1.0'' @ crlf @
     ''Host:'' @ HOSTNAME @ crlf @
     ''User-Agent: esp-idf/3.0 esp32'' @ crlf @
     ''Content-Type:multipart/form-data; boundary='' @ BOUNDARY @ crlf @
     ''Transfer-Encoding:chunked'' @ crlf @
     crlf"

text \<open>The template of the body's header, as a function of the text for its \<open>%s\<close>.\<close>

definition MULTIPART_BODY_HEADER_TEMPLATE :: "string \<Rightarrow> string" where
  "MULTIPART_BODY_HEADER_TEMPLATE s =
     ''--'' @ BOUNDARY @ crlf @
     ''Content-Disposition: form-data; name='' @ [CHR 0x22] @ ''file'' @ [CHR 0x22] @ ''; filename='' @
       [CHR 0x22] @ s @ [CHR 0x22] @ crlf @
     ''Content-Type: text/csv'' @ crlf @
     crlf"

definition NO_SD_FILE_FOUND :: int where "NO_SD_FILE_FOUND = - 2"
definition ZERO_LENGTH_FILE :: int where "ZERO_LENGTH_FILE = - 3"

record chunk_cfg =
  CHUNK_SZ :: nat
  CHUNK_DATA_SZ :: nat

record http_poster =
  fn_base :: string
  fn_src :: string
  fn_dst :: string
  fp :: int
  st_size :: int
  sock :: int
  sz_ptr :: int
  sz_buf :: string
  tx_ptr :: int
  tx_buf :: string
  slen :: nat

subsection \<open>The code\<close>

definition min_size :: nat where
  "min_size = length (MULTIPART_BODY_HEADER_TEMPLATE ''%s'') + SERVER_FILENAME_LEN - 2 - 2 - 1"

definition set_chunk_size :: "nat \<Rightarrow> chunk_cfg \<Rightarrow> chunk_cfg cmd" where
  "set_chunk_size chunk_size cfg =
     bindC (askB (Sys HeapLargestFree)) (\<lambda>h.
     let heap = unat h;
         chunk_size = (if chunk_size = 0 then heap else chunk_size);
         chunk_size = (if heap < chunk_size then heap else chunk_size)
     in if heap < min_size then ret cfg
        else let chunk_size = (if chunk_size < min_size then min_size else chunk_size)
             in ret (cfg\<lparr>CHUNK_SZ := chunk_size, CHUNK_DATA_SZ := chunk_size - 3\<rparr>))"

definition http_init :: "http_poster \<Rightarrow> chunk_cfg \<Rightarrow> (int \<times> http_poster \<times> chunk_cfg) cmd" where
  "http_init poster cfg =
     bindC (set_chunk_size (CHUNK_SZ cfg) cfg) (\<lambda>cfg.
     let poster = poster\<lparr>fp := 0, sock := 0\<rparr>;
         src = ''/sdcard/'' @ fn_base poster;
         dst = ''AABBCCDDEEFF'' @ ''_'' @ fn_base poster
     in bindC (liftE (snprintf (fn_src poster) 0 SD_FILENAME_LENGTH src)) (\<lambda>b.
     let poster = poster\<lparr>fn_src := b\<rparr> in
     if length src > SD_FILENAME_LENGTH then ret (ESP_FAIL, poster, cfg) else
     bindC (liftE (snprintf (fn_dst poster) 0 SERVER_FILENAME_LEN dst)) (\<lambda>b.
     let poster = poster\<lparr>fn_dst := b\<rparr> in
     bindC (askIB (Fs (Stat (c_str (fn_src poster))))) (\<lambda>(r, size).
     if r \<noteq> 0 then ret (NO_SD_FILE_FOUND, poster, cfg) else
     let poster = poster\<lparr>st_size := sint size\<rparr> in
     if st_size poster = 0 then ret (ZERO_LENGTH_FILE, poster, cfg) else
     bindC (malloc (CHUNK_SZ cfg)) (\<lambda>(p, b).
     bindC (if p \<noteq> 0 then ret (p, b, cfg)
            else bindC (set_chunk_size 0 cfg) (\<lambda>cfg.
                 bindC (malloc (CHUNK_SZ cfg)) (\<lambda>(p, b). ret (p, b, cfg)))) (\<lambda>(p, b, cfg).
     let poster = poster\<lparr>tx_ptr := p, tx_buf := b\<rparr> in
     if p = 0 then ret (ESP_FAIL, poster, cfg) else
     bindC (malloc CHUNK_SZ_STR_LEN) (\<lambda>(p, b).
     let poster = poster\<lparr>sz_ptr := p, sz_buf := b\<rparr> in
     if p = 0 then ret (ESP_FAIL, poster, cfg)
     else ret (ESP_OK, poster\<lparr>slen := 0\<rparr>, cfg))))))))"

definition http_connect :: "http_poster \<Rightarrow> (int \<times> http_poster) cmd" where
  "http_connect poster =
     bindC (askIB (Net (GetAddrInfo HOSTNAME PORT))) (\<lambda>(err, res).
     if err \<noteq> ESP_OK \<or> res = 0 then ret (ESP_FAIL, poster) else
     bindC (askI (Net Socket)) (\<lambda>s.
     if s < 0 then thenC (doC (Net FreeAddrInfo)) (ret (ESP_FAIL, poster)) else
     bindC (askI (Net (Connect s))) (\<lambda>r.
     if r \<noteq> 0 then thenC (seqC [doC (Net (SockClose s)), doC (Net FreeAddrInfo)]) (ret (ESP_FAIL, poster))
     else thenC (doC (Net FreeAddrInfo)) (ret (ESP_OK, poster\<lparr>sock := s\<rparr>)))))"

definition http_write_request :: "http_poster \<Rightarrow> int cmd" where
  "http_write_request poster =
     bindC (askI (Net (SockWrite (sock poster) MULTIPART_REQUEST))) (\<lambda>wlen.
     ret (if wlen \<noteq> int (length MULTIPART_REQUEST) then ESP_FAIL else ESP_OK))"

definition http_write_chunk_size :: "http_poster \<Rightarrow> (int \<times> http_poster) cmd" where
  "http_write_chunk_size poster =
     (let txt = fmt_x (slen poster) @ crlf; wlen = length txt in
      bindC (liftE (snprintf (sz_buf poster) 0 CHUNK_SZ_STR_LEN txt)) (\<lambda>b.
      let poster = poster\<lparr>sz_buf := b\<rparr> in
      if length b < wlen then failC OutOfBounds else
      bindC (askI (Net (SockWrite (sock poster) (take wlen b)))) (\<lambda>r.
      ret (if r \<noteq> int wlen then ESP_FAIL else ESP_OK, poster))))"

definition http_write_chunk_data :: "http_poster \<Rightarrow> (int \<times> http_poster) cmd" where
  "http_write_chunk_data poster =
     bindC (liftE (sprintf (tx_buf poster) (slen poster) crlf)) (\<lambda>b.
     let poster = poster\<lparr>tx_buf := b, slen := slen poster + 2\<rparr> in
     bindC (askI (Net (SockWrite (sock poster) (take (slen poster) b)))) (\<lambda>r.
     if r < 0 then ret (ESP_FAIL, poster) else ret (ESP_OK, poster\<lparr>slen := 0\<rparr>)))"

definition http_write_chunk :: "http_poster \<Rightarrow> (int \<times> http_poster) cmd" where
  "http_write_chunk poster =
     bindC (http_write_chunk_size poster) (\<lambda>(err, poster).
     if err \<noteq> ESP_OK then ret (err, poster) else http_write_chunk_data poster)"

definition body_closer :: string where
  "body_closer = ''--'' @ BOUNDARY @ ''--'' @ [lf, cr]"

definition http_write_body_closer :: "chunk_cfg \<Rightarrow> http_poster \<Rightarrow> (int \<times> http_poster) cmd" where
  "http_write_body_closer cfg poster =
     (let txt = body_closer in
      bindC (liftE (snprintf (tx_buf poster) 0 (CHUNK_DATA_SZ cfg) txt)) (\<lambda>b.
      bindC (http_write_chunk (poster\<lparr>tx_buf := b, slen := length txt\<rparr>)) (\<lambda>(err, poster).
      if err \<noteq> 0 then ret (ESP_FAIL, poster) else
      bindC (liftE (buf_write (tx_buf poster) 0 [nul])) (\<lambda>b.
      bindC (liftE (strlen b)) (\<lambda>n.
      bindC (http_write_chunk (poster\<lparr>tx_buf := b, slen := n\<rparr>)) (\<lambda>(err, poster).
      ret (if err \<noteq> 0 then ESP_FAIL else ESP_OK, poster)))))))"

definition http_post_cleanup :: "http_poster \<Rightarrow> unit cmd" where
  "http_post_cleanup poster =
     seqC [doC (Fs (Fclose (fp poster))), doC (Net (SockClose (sock poster))),
           doC (Sys (Free (tx_ptr poster))), doC (Sys (Free (sz_ptr poster)))]"

text \<open>
  The loop over the file runs until as many bytes as \<open>stat\<close> announced have been read; how many
  bytes a read delivers is up to the file system. Each turn uses one unit of fuel.
\<close>

fun file_loop :: "nat \<Rightarrow> chunk_cfg \<Rightarrow> int \<Rightarrow> http_poster \<Rightarrow> (int \<times> http_poster) cmd" where
  "file_loop 0 cfg flen poster = failC NoFuel"
| "file_loop (Suc fuel) cfg flen poster =
     bindC (askIS (Fs (Fread (fp poster) (CHUNK_DATA_SZ cfg)))) (\<lambda>(_, bs).
     let bs = take (CHUNK_DATA_SZ cfg) bs in
     bindC (liftE (buf_write (tx_buf poster) 0 bs)) (\<lambda>b.
     bindC (liftE (buf_write b (length bs) [nul])) (\<lambda>b.
     let flen = flen - int (length bs) in
     bindC (http_write_chunk (poster\<lparr>tx_buf := b, slen := length bs\<rparr>)) (\<lambda>(err, poster).
     if err \<noteq> ESP_OK then ret (ESP_FAIL, poster)
     else if flen > 0 then file_loop fuel cfg flen poster
     else ret (ESP_OK, poster)))))"

definition http_write_file_chunked ::
    "nat \<Rightarrow> bool \<Rightarrow> chunk_cfg \<Rightarrow> http_poster \<Rightarrow> sd_state \<Rightarrow> (int \<times> http_poster \<times> sd_state) cmd" where
  "http_write_file_chunked fuel sd_debug cfg poster sd =
     (if st_size poster \<le> 0 then thenC (http_post_cleanup poster) (ret (ESP_FAIL, poster, sd)) else
      bindC (sd_fopen sd_debug (fn_base poster) sd) (\<lambda>(f, sd).
      let poster = poster\<lparr>fp := f\<rparr> in
      if f = 0 then ret (ESP_FAIL, poster, sd)
      else bindC (file_loop fuel cfg (st_size poster) poster) (\<lambda>(r, poster). ret (r, poster, sd))))"

definition http_write_body ::
    "nat \<Rightarrow> bool \<Rightarrow> chunk_cfg \<Rightarrow> http_poster \<Rightarrow> sd_state \<Rightarrow> (int \<times> http_poster \<times> sd_state) cmd" where
  "http_write_body fuel sd_debug cfg poster sd =
     (let txt = MULTIPART_BODY_HEADER_TEMPLATE (c_str (fn_dst poster)) in
      bindC (liftE (snprintf (tx_buf poster) 0 (CHUNK_DATA_SZ cfg) txt)) (\<lambda>b.
      bindC (http_write_chunk (poster\<lparr>tx_buf := b, slen := length txt\<rparr>)) (\<lambda>(err, poster).
      if err \<noteq> 0 then ret (ESP_FAIL, poster, sd) else
      bindC (http_write_file_chunked fuel sd_debug cfg poster sd) (\<lambda>(err, poster, sd).
      if err \<noteq> ESP_OK then ret (ESP_FAIL, poster, sd) else
      bindC (http_write_body_closer cfg poster) (\<lambda>(err, poster).
      ret (if err \<noteq> ESP_OK then ESP_FAIL else ESP_OK, poster, sd))))))"

text \<open>The rest of the response is read until the connection ends, again with fuel.\<close>

fun drain_loop :: "nat \<Rightarrow> int \<Rightarrow> nat \<Rightarrow> unit cmd" where
  "drain_loop 0 s n = failC NoFuel"
| "drain_loop (Suc fuel) s n =
     bindC (askI (Net (SockRead s n))) (\<lambda>r. if r > 0 then drain_loop fuel s n else ret ())"

definition read_http_response :: "nat \<Rightarrow> chunk_cfg \<Rightarrow> http_poster \<Rightarrow> int cmd" where
  "read_http_response fuel cfg poster =
     bindC (askI (Net (SetRcvTimeout (sock poster) 5))) (\<lambda>r.
     if r < 0 then ret ESP_FAIL else
     bindC (askI (Net (SockRead (sock poster) 9))) (\<lambda>_.
     bindC (askIS (Net (SockRead (sock poster) 3))) (\<lambda>(_, bs).
     bindC (liftE (buf_write (replicate 4 nul) 0 (take 3 bs))) (\<lambda>resp.
     let rcode = atol (c_str resp) in
     thenC (drain_loop fuel (sock poster) (CHUNK_SZ cfg)) (ret rcode)))))"

definition http_upload_file_from_sd ::
    "nat \<Rightarrow> bool \<Rightarrow> string \<Rightarrow> chunk_cfg \<Rightarrow> sd_state \<Rightarrow> (int \<times> chunk_cfg \<times> sd_state) cmd" where
  "http_upload_file_from_sd fuel sd_debug filename cfg sd =
     (let poster = \<lparr>fn_base = filename, fn_src = replicate SD_FILENAME_LENGTH nul,
            fn_dst = replicate SERVER_FILENAME_LEN nul, fp = 0, st_size = 0, sock = 0,
            sz_ptr = 0, sz_buf = [], tx_ptr = 0, tx_buf = [], slen = 0\<rparr> in
      bindC (http_init poster cfg) (\<lambda>(err, poster, cfg).
      if err \<noteq> ESP_OK then thenC (http_post_cleanup poster) (ret (err, cfg, sd)) else
      bindC (http_connect poster) (\<lambda>(err, poster).
      if err \<noteq> ESP_OK then thenC (http_post_cleanup poster) (ret (ESP_FAIL, cfg, sd)) else
      bindC (http_write_request poster) (\<lambda>err.
      if err \<noteq> ESP_OK then thenC (http_post_cleanup poster) (ret (ESP_FAIL, cfg, sd)) else
      bindC (http_write_body fuel sd_debug cfg poster sd) (\<lambda>(err, poster, sd).
      if err \<noteq> ESP_OK then thenC (http_post_cleanup poster) (ret (ESP_FAIL, cfg, sd)) else
      bindC (read_http_response fuel cfg poster) (\<lambda>r.
      if r \<noteq> ESP_OK then thenC (http_post_cleanup poster) (ret (ESP_FAIL, cfg, sd))
      else ret (ESP_OK, cfg, sd)))))))"

subsection \<open>Chunked transfer coding\<close>

text \<open>
  The coding as HTTP defines it: a chunk is its size in hexadecimal, its bytes, each ended by
  CRLF; a chunk of size zero ends the message.
\<close>

definition chunk :: "string \<Rightarrow> string" where
  "chunk p = fmt_x (length p) @ crlf @ p @ crlf"

definition is_hex :: "char \<Rightarrow> bool" where
  "is_hex c \<longleftrightarrow> c \<in> set ''0123456789abcdef''"

fun hex_val :: "nat \<Rightarrow> string \<Rightarrow> nat" where
  "hex_val acc [] = acc"
| "hex_val acc (c # cs) = hex_val (16 * acc + hexdig_val c) cs"

function unchunk :: "string \<Rightarrow> string option" where
  "unchunk s =
     (let h = takeWhile is_hex s; r = dropWhile is_hex s; n = hex_val 0 h; body = drop 2 r in
      if h = [] \<or> take 2 r \<noteq> crlf \<or> take 2 (drop n body) \<noteq> crlf then None
      else if n = 0 then (if drop 2 body = [] then Some [] else None)
      else map_option ((@) (take n body)) (unchunk (drop (n + 2) body)))"
  by pat_completeness auto
termination
proof (relation "measure length", goal_cases)
  case (2 s h r n body)
  then have "s \<noteq> []" by auto
  moreover have "length r \<le> length s" using 2(2) by (simp add: length_dropWhile_le)
  ultimately show ?case using 2(4) by (cases s) auto
qed simp

declare unchunk.simps [simp del]

lemma is_hex_digit: "d < 16 \<Longrightarrow> is_hex (digit_char d)"
proof -
  assume "d < 16"
  then have "d \<in> set [0..<16]" by simp
  moreover have "\<forall>d \<in> set [0..<16]. is_hex (digit_char d)" by code_simp
  ultimately show ?thesis by blast
qed

lemma fmt_x_hex: "\<forall>c \<in> set (fmt_x n). is_hex c"
  using set_show_base [of 16 digit_char n] by (auto simp: fmt_x_def is_hex_digit)

lemma fmt_x_nonempty: "fmt_x n \<noteq> []"
  by (simp add: fmt_x_def show_base.simps [of _ _ n])

lemma hex_val_append: "hex_val acc (xs @ ys) = hex_val (hex_val acc xs) ys"
  by (induction xs arbitrary: acc) auto

lemma hex_val_fmt_x: "hex_val 0 (fmt_x n) = n"
proof (induction n rule: less_induct)
  case (less n)
  show ?case
  proof (cases "n < 16")
    case True
    then show ?thesis by (simp add: fmt_x_def show_base.simps [of _ _ n] hexdig_val_digit_char)
  next
    case False
    then have "hex_val 0 (fmt_x (n div 16)) = n div 16" using less by simp
    then show ?thesis
      using False by (simp add: fmt_x_def show_base.simps [of _ _ n] hex_val_append hexdig_val_digit_char)
  qed
qed

lemma nul_notin_fmt_x: "nul \<notin> set (fmt_x n)"
  by (simp add: fmt_x_def nul_notin_show_base)

lemma unchunk_head:
  "takeWhile is_hex (chunk p @ r) = fmt_x (length p)"
  "dropWhile is_hex (chunk p @ r) = crlf @ p @ crlf @ r"
proof -
  have "\<not> is_hex cr" by (simp add: is_hex_def)
  then show "takeWhile is_hex (chunk p @ r) = fmt_x (length p)"
    "dropWhile is_hex (chunk p @ r) = crlf @ p @ crlf @ r"
    using fmt_x_hex [of "length p"] by (simp_all add: chunk_def takeWhile_tail dropWhile_append3)
qed

lemma unchunk_chunk: "p \<noteq> [] \<Longrightarrow> unchunk (chunk p @ r) = map_option ((@) p) (unchunk r)"
  by (subst unchunk.simps) (simp add: unchunk_head hex_val_fmt_x fmt_x_nonempty Let_def)

lemma unchunk_last: "unchunk (chunk []) = Some []"
  using unchunk_head [of "[]" "[]"]
  by (subst unchunk.simps) (simp add: hex_val_fmt_x [of 0, simplified] fmt_x_nonempty Let_def)

lemma unchunk_chunks:
  "[] \<notin> set ps \<Longrightarrow> unchunk (concat (map chunk ps) @ chunk []) = Some (concat ps)"
  by (induction ps) (auto simp: unchunk_last unchunk_chunk)

function pieces :: "nat \<Rightarrow> string \<Rightarrow> string list" where
  "pieces n d = (if n = 0 \<or> d = [] then [] else take n d # pieces n (drop n d))"
  by pat_completeness auto
termination
  by (relation "measure (length \<circ> snd)") auto

declare pieces.simps [simp del]

lemma concat_pieces: "0 < n \<Longrightarrow> concat (pieces n d) = d"
  by (induction n d rule: pieces.induct) (subst pieces.simps, auto)

lemma pieces_nonempty: "[] \<notin> set (pieces n d)"
  by (induction n d rule: pieces.induct) (subst pieces.simps, auto)

subsection \<open>Writing one chunk\<close>

text \<open>What was written to a socket.\<close>

fun sent :: "int \<Rightarrow> call list \<Rightarrow> string" where
  "sent s [] = []"
| "sent s (Net (SockWrite s' d) # cs) = (if s' = s then d else []) @ sent s cs"
| "sent s (_ # cs) = sent s cs"

lemma sent_append [simp]: "sent s (cs @ ds) = sent s cs @ sent s ds"
  by (induction s cs rule: sent.induct) simp_all

text \<open>A socket that takes all it is given.\<close>

definition writes_all :: "env \<Rightarrow> int \<Rightarrow> bool" where
  "writes_all e s \<longleftrightarrow> (\<forall>tr d. ans_int e tr (Net (SockWrite s d)) = int (length d))"

definition same_file :: "http_poster \<Rightarrow> http_poster \<Rightarrow> bool" where
  "same_file p p' \<longleftrightarrow> fn_base p' = fn_base p \<and> fn_dst p' = fn_dst p \<and> fp p' = fp p \<and> st_size p' = st_size p \<and>
     sock p' = sock p \<and> tx_ptr p' = tx_ptr p \<and> sz_ptr p' = sz_ptr p \<and> length (tx_buf p') = length (tx_buf p) \<and> length (sz_buf p') = length (sz_buf p)"

lemma same_file_trans: "same_file p q \<Longrightarrow> same_file q r \<Longrightarrow> same_file p r"
  by (simp add: same_file_def)

lemma http_write_chunk_run:
  assumes "writes_all e (sock p)" "length (sz_buf p) = 16" "slen p < 2 ^ 32"
    and "slen p + 3 \<le> length (tx_buf p)" "take (slen p) (tx_buf p) = d" "slen p = length d"
  shows "\<exists>p'. http_write_chunk p e tr =
      Inr ((0, p'), tr @ [Net (SockWrite (sock p) (fmt_x (length d) @ crlf)), Net (SockWrite (sock p) (d @ crlf))]) \<and>
    same_file p p'"
proof -
  let ?n = "length d" and ?txt = "fmt_x (length d) @ crlf"
  have "length (fmt_x ?n) \<le> 8"
    using assms(3,6) length_show_base [of 16 ?n 8 digit_char] by (simp add: fmt_x_def)
  then have sz: "snprintf (sz_buf p) 0 16 ?txt = Inr (?txt @ nul # drop (length ?txt + 1) (sz_buf p))"
    using assms(2) by (simp add: snprintf_def buf_write_def)
  have tx: "sprintf (tx_buf p) ?n crlf = Inr (d @ crlf @ nul # drop (Suc (Suc (Suc ?n))) (tx_buf p))"
    using assms(4-6) by (simp add: sprintf_def buf_write_def)
  have w: "ans_int e tr (Net (SockWrite (sock p) x)) = int (length x)" for tr x
    using assms(1) by (simp add: writes_all_def)
  show ?thesis
    using assms(2,4,6) sz tx \<open>length (fmt_x ?n) \<le> 8\<close>
    by (simp add: http_write_chunk_def http_write_chunk_size_def http_write_chunk_data_def
        CHUNK_SZ_STR_LEN_def cmd_simps w same_file_def)
qed

lemma sent_chunk [simp]: "sent s [Net (SockWrite s (fmt_x (length d) @ crlf)), Net (SockWrite s (d @ crlf))] = chunk d"
  by (simp add: chunk_def)

subsection \<open>The body\<close>

text \<open>
  A file of the given contents that is read with reads of \<open>n\<close> bytes: the \<open>k\<close>-th of them since
  \<open>tr\<close> delivers the \<open>n\<close> bytes behind the first \<open>k * n\<close>, or what is left.
\<close>

definition n_reads :: "int \<Rightarrow> nat \<Rightarrow> call list \<Rightarrow> nat" where
  "n_reads f n cs = length (filter (\<lambda>c. c = Fs (Fread f n)) cs)"

definition reads_file :: "env \<Rightarrow> call list \<Rightarrow> int \<Rightarrow> nat \<Rightarrow> string \<Rightarrow> bool" where
  "reads_file e tr f n contents \<longleftrightarrow>
     (\<forall>cs. ans_bytes e (tr @ cs) (Fs (Fread f n)) = take n (drop (n * n_reads f n cs) contents))"

lemma n_reads_append [simp]: "n_reads f n (cs @ ds) = n_reads f n cs + n_reads f n ds"
  by (simp add: n_reads_def)

definition buffers_ok :: "chunk_cfg \<Rightarrow> http_poster \<Rightarrow> bool" where
  "buffers_ok cfg p \<longleftrightarrow> length (tx_buf p) = CHUNK_SZ cfg \<and> length (sz_buf p) = 16 \<and>
     CHUNK_DATA_SZ cfg = CHUNK_SZ cfg - 3 \<and> min_size \<le> CHUNK_SZ cfg \<and> CHUNK_SZ cfg < 2 ^ 32"

lemma min_size_value: "min_size = 175"
  by (simp add: min_size_def MULTIPART_BODY_HEADER_TEMPLATE_def BOUNDARY_def SERVER_FILENAME_LEN_def)

text \<open>The calls that move data and neither acquire nor release anything.\<close>

fun moves :: "call \<Rightarrow> bool" where
  "moves (Net (SockWrite _ _)) \<longleftrightarrow> True"
| "moves (Net (SockRead _ _)) \<longleftrightarrow> True"
| "moves (Net (SetRcvTimeout _ _)) \<longleftrightarrow> True"
| "moves (Fs (Fread _ _)) \<longleftrightarrow> True"
| "moves _ \<longleftrightarrow> False"

lemma moves_chunk [emits_intros]: "emits moves (http_write_chunk p)"
  unfolding http_write_chunk_def http_write_chunk_size_def http_write_chunk_data_def Let_def
  by (intro emits_intros; simp)

lemma moves_file_loop [emits_intros]: "emits moves (file_loop fuel cfg flen p)"
  by (induction fuel arbitrary: flen p) (auto intro!: emits_intros simp: Let_def)

lemma moves_closer: "emits moves (http_write_body_closer cfg p)"
  unfolding http_write_body_closer_def Let_def by (intro emits_intros)

lemma moves_response: "emits moves (read_http_response fuel cfg p)"
proof -
  have drain: "emits moves (drain_loop fuel s n)" for fuel s n
    by (induction fuel) (auto intro!: emits_intros)
  show ?thesis
    unfolding read_http_response_def Let_def by (intro emits_intros drain; simp)
qed

lemma buffers_ok_same: "buffers_ok cfg p \<Longrightarrow> same_file p p' \<Longrightarrow> buffers_ok cfg p'"
  by (simp add: buffers_ok_def same_file_def)

lemma file_loop_run:
  assumes "writes_all e (sock p)" "buffers_ok cfg p" "reads_file e tr (fp p) (CHUNK_DATA_SZ cfg) contents"
    and "d = drop (CHUNK_DATA_SZ cfg * n_reads (fp p) (CHUNK_DATA_SZ cfg) cs) contents" "d \<noteq> []"
    and "length d \<le> fuel"
  shows "\<exists>p' ds. file_loop fuel cfg (int (length d)) p e (tr @ cs) = Inr ((0, p'), tr @ cs @ ds) \<and>
    same_file p p' \<and> sent (sock p) ds = concat (map chunk (pieces (CHUNK_DATA_SZ cfg) d))"
  using assms
proof (induction fuel arbitrary: p d cs)
  case (Suc fuel)
  define n where "n = CHUNK_DATA_SZ cfg"
  define q where "q = take n d"
  define p1 where "p1 = p\<lparr>tx_buf := q @ nul # drop (Suc (length q)) (tx_buf p), slen := length q\<rparr>"
  have n: "0 < n" "length (tx_buf p) = n + 3" "n < 2 ^ 32"
    using Suc.prems(2) by (auto simp: buffers_ok_def n_def min_size_value)
  have q: "q \<noteq> []" "length q \<le> n" using Suc.prems(5) n(1) by (auto simp: q_def)
  have read: "ans_bytes e (tr @ cs) (Fs (Fread (fp p) n)) = q"
    using Suc.prems(3,4) by (simp add: reads_file_def n_def q_def)
  have fill: "bindE (buf_write (tx_buf p) 0 q) (\<lambda>b. buf_write b (length q) [nul]) = Inr (tx_buf p1)"
    using q n(2) by (simp add: buf_write_def p1_def)
  have file1: "same_file p p1"
    using q n(2) by (simp add: same_file_def p1_def)
  obtain p2 where p2: "http_write_chunk p1 e (tr @ cs @ [Fs (Fread (fp p) n)]) =
      Inr ((0, p2), (tr @ cs @ [Fs (Fread (fp p) n)]) @
        [Net (SockWrite (sock p) (fmt_x (length q) @ crlf)), Net (SockWrite (sock p) (q @ crlf))])"
    "same_file p1 p2"
    using http_write_chunk_run [of e p1 q "tr @ cs @ [Fs (Fread (fp p) n)]"] Suc.prems(1,2) q n by (auto simp: p1_def buffers_ok_def)
  then have file2: "same_file p p2" using file1 same_file_trans by blast
  let ?cs = "[Fs (Fread (fp p) n), Net (SockWrite (sock p) (fmt_x (length q) @ crlf)), Net (SockWrite (sock p) (q @ crlf))]"
  have step: "file_loop (Suc fuel) cfg (int (length d)) p e (tr @ cs) =
      (if int (length d) - int (length q) > 0
       then file_loop fuel cfg (int (length d) - int (length q)) p2 e (tr @ cs @ ?cs)
       else Inr ((0, p2), tr @ cs @ ?cs))"
    using fill p2(1) q(2)
    by (cases "buf_write (tx_buf p) 0 q")
       (auto simp: cmd_simps n_def [symmetric] read p1_def bindE_eq_Inr)
  have split: "pieces n d = q # pieces n (drop n d)"
    using Suc.prems(5) n(1) by (subst pieces.simps) (simp add: q_def)
  show ?case
  proof (cases "length d \<le> n")
    case True
    then have "q = d" "drop n d = []" by (simp_all add: q_def)
    then show ?thesis
      using step file2 split pieces.simps [of n "[]"]
      by (intro exI [of _ p2] exI [of _ ?cs]) (simp add: n_def [symmetric] chunk_def)
  next
    case False
    define d' where "d' = drop n d"
    have len: "length q = n" "d' \<noteq> []" "int (length d) - int (length q) = int (length d')" "length d' \<le> fuel"
      using False Suc.prems(6) n(1) by (simp_all add: q_def d'_def)
    have same: "fp p2 = fp p" "sock p2 = sock p" using file2 by (simp_all add: same_file_def)
    have "n_reads (fp p) n (cs @ ?cs) = Suc (n_reads (fp p) n cs)"
      by (simp add: n_reads_def)
    then have d': "d' = drop (n * n_reads (fp p) n (cs @ ?cs)) contents"
      using Suc.prems(4) by (simp add: n_def [symmetric] d'_def add.commute del: n_reads_append)
    have "\<exists>p3 ds. file_loop fuel cfg (int (length d')) p2 e (tr @ cs @ ?cs) =
        Inr ((0, p3), tr @ (cs @ ?cs) @ ds) \<and> same_file p2 p3 \<and>
      sent (sock p2) ds = concat (map chunk (pieces (CHUNK_DATA_SZ cfg) d'))"
    proof (rule Suc.IH)
      show "d' = drop (CHUNK_DATA_SZ cfg * n_reads (fp p2) (CHUNK_DATA_SZ cfg) (cs @ ?cs)) contents"
        using d' by (simp only: same n_def)
    qed (insert Suc.prems(1,3) len buffers_ok_same [OF Suc.prems(2) file2] same, simp_all)
    then obtain p3 ds where p3: "file_loop fuel cfg (int (length d')) p2 e (tr @ cs @ ?cs) =
        Inr ((0, p3), tr @ cs @ ?cs @ ds)" "same_file p2 p3"
      "sent (sock p) ds = concat (map chunk (pieces n d'))"
      by (auto simp: same n_def)
    have "file_loop (Suc fuel) cfg (int (length d)) p e (tr @ cs) = Inr ((0, p3), tr @ cs @ ?cs @ ds)"
      using step p3(1) len(2) by (simp only: len(3)) simp
    moreover have "sent (sock p) (?cs @ ds) = concat (map chunk (pieces n d))"
      using p3(3) split by (simp add: d'_def chunk_def)
    ultimately show ?thesis
      using same_file_trans [OF file2 p3(2)] by (auto simp: n_def)
  qed
qed simp

lemma snprintf_all:
  assumes "length txt < sz" "sz \<le> length b"
  shows "snprintf b 0 sz txt = Inr (txt @ nul # drop (Suc (length txt)) b)"
  using assms by (simp add: snprintf_def buf_write_def)

text \<open>Printing a text into the buffer and writing it as one chunk.\<close>

lemma write_text_chunk:
  assumes "writes_all e (sock p)" "buffers_ok cfg p" "length txt < CHUNK_DATA_SZ cfg"
  shows "\<exists>p'. bindE (snprintf (tx_buf p) 0 (CHUNK_DATA_SZ cfg) txt)
      (\<lambda>b. http_write_chunk (p\<lparr>tx_buf := b, slen := length txt\<rparr>) e tr) =
      Inr ((0, p'), tr @ [Net (SockWrite (sock p) (fmt_x (length txt) @ crlf)), Net (SockWrite (sock p) (txt @ crlf))]) \<and>
    same_file p p'"
proof -
  let ?b = "txt @ nul # drop (Suc (length txt)) (tx_buf p)"
  let ?p = "p\<lparr>tx_buf := ?b, slen := length txt\<rparr>"
  have ok: "length (tx_buf p) = CHUNK_DATA_SZ cfg + 3" "length (sz_buf p) = 16" "CHUNK_DATA_SZ cfg < 2 ^ 32"
    using assms(2) by (auto simp: buffers_ok_def min_size_value)
  then have "snprintf (tx_buf p) 0 (CHUNK_DATA_SZ cfg) txt = Inr ?b"
    using assms(3) by (intro snprintf_all) simp_all
  moreover have "same_file p ?p"
    using ok assms(3) by (simp add: same_file_def)
  moreover obtain p' where "http_write_chunk ?p e tr =
      Inr ((0, p'), tr @ [Net (SockWrite (sock p) (fmt_x (length txt) @ crlf)), Net (SockWrite (sock p) (txt @ crlf))])"
    "same_file ?p p'"
    using http_write_chunk_run [of e ?p "txt" tr] assms(1,3) ok by auto
  ultimately show ?thesis
    using same_file_trans by auto
qed

lemma http_write_body_closer_run:
  assumes "writes_all e (sock p)" "buffers_ok cfg p"
  shows "\<exists>p' cs. http_write_body_closer cfg p e tr = Inr ((0, p'), tr @ cs) \<and> same_file p p' \<and>
    sent (sock p) cs = chunk body_closer @ chunk []"
proof -
  have len: "length body_closer < CHUNK_DATA_SZ cfg"
    using assms(2) by (auto simp: buffers_ok_def min_size_value body_closer_def BOUNDARY_def)
  let ?cs = "\<lambda>d. [Net (SockWrite (sock p) (fmt_x (length d) @ crlf)), Net (SockWrite (sock p) (d @ crlf))]"
  obtain p1 where p1: "bindE (snprintf (tx_buf p) 0 (CHUNK_DATA_SZ cfg) body_closer)
      (\<lambda>b. http_write_chunk (p\<lparr>tx_buf := b, slen := length body_closer\<rparr>) e tr) = Inr ((0, p1), tr @ ?cs body_closer)"
    "same_file p p1"
    using write_text_chunk [OF assms len, of tr] by blast
  let ?b = "nul # drop 1 (tx_buf p1)"
  have len1: "length (tx_buf p1) = CHUNK_SZ cfg" "length (sz_buf p1) = 16" "175 \<le> CHUNK_SZ cfg" "sock p1 = sock p"
    using assms(2) p1(2) by (auto simp: buffers_ok_def same_file_def min_size_value)
  then have w: "buf_write (tx_buf p1) 0 [nul] = Inr ?b" "strlen ?b = Inr 0"
    by (simp_all add: buf_write_def strlen_def c_str_def)
  obtain p2 where p2: "http_write_chunk (p1\<lparr>tx_buf := ?b, slen := 0\<rparr>) e (tr @ ?cs body_closer) =
      Inr ((0, p2), (tr @ ?cs body_closer) @ ?cs [])" "same_file (p1\<lparr>tx_buf := ?b, slen := 0\<rparr>) p2"
    using http_write_chunk_run [of e "p1\<lparr>tx_buf := ?b, slen := 0\<rparr>" "[]" "tr @ ?cs body_closer"] assms(1) len1
    by auto
  have "same_file p p2"
    using p1(2) p2(2) len1 by (auto simp: same_file_def)
  moreover have "http_write_body_closer cfg p e tr = Inr ((0, p2), tr @ ?cs body_closer @ ?cs [])"
    using p1(1) p2(1) w
    by (cases "snprintf (tx_buf p) 0 (CHUNK_DATA_SZ cfg) body_closer")
       (auto simp: http_write_body_closer_def cmd_simps)
  ultimately show ?thesis
    by (intro exI [of _ p2] exI [of _ "?cs body_closer @ ?cs []"]) (simp add: chunk_def)
qed

text \<open>Opening the file of a short name on a mounted card.\<close>

lemma sd_fopen_run:
  assumes "fs_mounted sd" "length name \<le> 16" "nul \<notin> set name"
    and "ans_int e tr (Fs (Fopen (''/sdcard/'' @ name) ''r'')) = f"
  shows "sd_fopen dbg name sd e tr = Inr ((f, sd), tr @ [Fs (Fopen (''/sdcard/'' @ name) ''r'')])"
proof -
  let ?t = "''/sdcard/'' @ name"
  have s: "snprintf (replicate 25 nul) 0 25 ?t = Inr (?t @ nul # drop (Suc (length ?t)) (replicate 25 nul))"
    using assms(2) by (intro snprintf_all) simp_all
  have c: "c_str (?t @ nul # r) = ?t" for r
    using takeWhile_no [of nul ?t r] assms(3) by (simp add: c_str_def)
  show ?thesis
    using assms(1,2,4) s c by (simp add: sd_fopen_def cmd_simps SD_FILENAME_LENGTH_def)
qed

lemma http_write_body_run:
  assumes "writes_all e (sock p)" "buffers_ok cfg p" "length (c_str (fn_dst p)) \<le> 29"
    and "fs_mounted sd" "length (fn_base p) \<le> 16" "nul \<notin> set (fn_base p)"
    and "\<And>tr. ans_int e tr (Fs (Fopen (''/sdcard/'' @ fn_base p) ''r'')) = f" "f \<noteq> 0"
    and "reads_file e tr f (CHUNK_DATA_SZ cfg) contents" "contents \<noteq> []" "st_size p = int (length contents)"
    and "length contents \<le> fuel"
  shows "\<exists>p' cs. http_write_body fuel dbg cfg p sd e tr = Inr ((ESP_OK, p', sd), tr @ cs) \<and> sock p' = sock p \<and>
    tx_ptr p' = tx_ptr p \<and> sz_ptr p' = sz_ptr p \<and> fp p' = f \<and>
    (\<exists>before after. cs = before @ Fs (Fopen (''/sdcard/'' @ fn_base p) ''r'') # after \<and> list_all moves (before @ after)) \<and>
    unchunk (sent (sock p) cs) =
      Some (MULTIPART_BODY_HEADER_TEMPLATE (c_str (fn_dst p)) @ contents @ body_closer)"
proof -
  let ?n = "CHUNK_DATA_SZ cfg" and ?h = "MULTIPART_BODY_HEADER_TEMPLATE (c_str (fn_dst p))"
  let ?cs = "[Net (SockWrite (sock p) (fmt_x (length ?h) @ crlf)), Net (SockWrite (sock p) (?h @ crlf))]"
  let ?o = "Fs (Fopen (''/sdcard/'' @ fn_base p) ''r'')"
  have n: "0 < ?n" and len: "length ?h < ?n"
    using assms(2,3) by (auto simp: buffers_ok_def min_size_value MULTIPART_BODY_HEADER_TEMPLATE_def BOUNDARY_def)
  obtain p1 where p1: "bindE (snprintf (tx_buf p) 0 ?n ?h)
      (\<lambda>b. http_write_chunk (p\<lparr>tx_buf := b, slen := length ?h\<rparr>) e tr) = Inr ((0, p1), tr @ ?cs)"
    "same_file p p1"
    using write_text_chunk [OF assms(1,2) len, of tr] by blast
  let ?p1 = "p1\<lparr>fp := f\<rparr>"
  have same: "sock p1 = sock p" "fn_base p1 = fn_base p" "st_size p1 = st_size p" "buffers_ok cfg ?p1" "buffers_ok cfg p1"
    using p1(2) assms(2) by (auto simp: same_file_def buffers_ok_def)
  have "n_reads f ?n (?cs @ [?o]) = 0" by (simp add: n_reads_def)
  then obtain p2 ds where p2: "file_loop fuel cfg (int (length contents)) ?p1 e (tr @ ?cs @ [?o]) =
      Inr ((0, p2), tr @ (?cs @ [?o]) @ ds)" "same_file ?p1 p2"
    "sent (sock p) ds = concat (map chunk (pieces ?n contents))"
    using file_loop_run [of e ?p1 cfg tr contents contents "?cs @ [?o]" fuel] assms same by auto
  have written: "http_write_file_chunked fuel dbg cfg p1 sd e (tr @ ?cs) =
      Inr ((0, p2, sd), tr @ ?cs @ [?o] @ ds)"
    using assms(4-8,10,11) same p2(1) sd_fopen_run [of sd "fn_base p" e "tr @ ?cs" f dbg]
    by (simp add: http_write_file_chunked_def cmd_simps)
  have "sock p2 = sock p" "buffers_ok cfg p2"
    using p2(2) same by (auto simp: same_file_def buffers_ok_def)
  then obtain p3 es where p3: "http_write_body_closer cfg p2 e (tr @ ?cs @ [?o] @ ds) =
      Inr ((0, p3), (tr @ ?cs @ [?o] @ ds) @ es)" "same_file p2 p3" "sent (sock p) es = chunk body_closer @ chunk []"
    using http_write_body_closer_run [of e p2 cfg "tr @ ?cs @ [?o] @ ds"] assms(1) by auto
  have run: "http_write_body fuel dbg cfg p sd e tr = Inr ((0, p3, sd), tr @ ?cs @ [?o] @ ds @ es)"
    using p1(1) written p3(1)
    by (cases "snprintf (tx_buf p) 0 ?n ?h") (auto simp: http_write_body_def cmd_simps)
  have "sent (sock p) (?cs @ [?o] @ ds @ es) =
      concat (map chunk (?h # pieces ?n contents @ [body_closer])) @ chunk []"
    using p2(3) p3(3) by (simp add: chunk_def)
  moreover have "[] \<notin> set (?h # pieces ?n contents @ [body_closer])"
    using pieces_nonempty by (simp add: MULTIPART_BODY_HEADER_TEMPLATE_def body_closer_def)
  ultimately have sent: "unchunk (sent (sock p) (?cs @ [?o] @ ds @ es)) = Some (?h @ contents @ body_closer)"
    using unchunk_chunks [of "?h # pieces ?n contents @ [body_closer]"] concat_pieces [OF n, of contents] by simp
  have kept: "sock p3 = sock p \<and> tx_ptr p3 = tx_ptr p \<and> sz_ptr p3 = sz_ptr p \<and> fp p3 = f"
    using p1(2) p2(2) p3(2) by (simp add: same_file_def)
  have "list_all moves ds" using p2(1) by (auto elim: emitsE [OF moves_file_loop])
  moreover have "list_all moves es" using p3(1) by (auto elim: emitsE [OF moves_closer])
  ultimately have "\<exists>before after. ?cs @ [?o] @ ds @ es = before @ ?o # after \<and> list_all moves (before @ after)"
    by (intro exI [of _ ?cs] exI [of _ "ds @ es"]) simp
  with run sent kept show ?thesis
    by (intro exI [of _ p3] exI [of _ "?cs @ [?o] @ ds @ es"]) simp
qed

text \<open>
  C10: on a mounted card, with a socket that takes all it is given and a file that delivers its
  contents, writing the body never overruns the buffers and returns success, and the bytes put
  on the socket are a valid chunked message that decodes to the part header, the whole file and
  the closing boundary, for every file of at least one byte and every chunk size.
\<close>

theorem http_write_body_roundtrip:
  assumes "writes_all e (sock p)" "buffers_ok cfg p" "length (c_str (fn_dst p)) \<le> 29"
    and "fs_mounted sd" "length (fn_base p) \<le> 16" "nul \<notin> set (fn_base p)"
    and "\<And>tr. ans_int e tr (Fs (Fopen (''/sdcard/'' @ fn_base p) ''r'')) = f" "f \<noteq> 0"
    and "reads_file e tr f (CHUNK_DATA_SZ cfg) contents" "contents \<noteq> []" "st_size p = int (length contents)"
    and "length contents \<le> fuel"
  shows "\<exists>p' cs. http_write_body fuel dbg cfg p sd e tr = Inr ((ESP_OK, p', sd), tr @ cs) \<and> sock p' = sock p \<and>
    unchunk (sent (sock p) cs) =
      Some (MULTIPART_BODY_HEADER_TEMPLATE (c_str (fn_dst p)) @ contents @ body_closer)"
  using http_write_body_run [OF assms] by blast

text \<open>A concrete environment: a card with one file, a server that answers with a given code.\<close>

definition upload_env :: "string \<Rightarrow> string \<Rightarrow> env" where
  "upload_env contents code =
     \<lparr>ans_int = (\<lambda>tr c. case c of Net (SockWrite _ d) \<Rightarrow> int (length d) | Net Socket \<Rightarrow> 3
                  | Fs (Fopen _ _) \<Rightarrow> 7 | Sys (Malloc _) \<Rightarrow> 1 | _ \<Rightarrow> 0),
      ans_bits = (\<lambda>tr c. case c of Sys HeapLargestFree \<Rightarrow> 8192 | Fs (Stat _) \<Rightarrow> of_nat (length contents) | _ \<Rightarrow> 1),
      ans_bytes = (\<lambda>tr c. case c of Fs (Fread f n) \<Rightarrow> take n (drop (n * n_reads f n tr) contents)
                  | Net (SockRead _ n) \<Rightarrow> if n = 3 then code else [] | _ \<Rightarrow> []),
      ans_aps = (\<lambda>_ _. [])\<rparr>"

definition upload_sd :: sd_state where
  "upload_sd = \<lparr>fs_mounted = True, s_log_mutex = False, log_file = 0, firstTime = True, logFileCounting = 1\<rparr>"

definition upload_poster :: http_poster where
  "upload_poster = \<lparr>fn_base = ''19-08-05.csv'', fn_src = replicate 25 nul,
     fn_dst = ''AABBCCDDEEFF_19-08-05.csv'' @ replicate 39 nul, fp = 0, st_size = 5, sock = 3,
     sz_ptr = 1, sz_buf = replicate 16 nul, tx_ptr = 1, tx_buf = replicate 4096 nul, slen = 0\<rparr>"

lemma upload_env_coop:
  "writes_all (upload_env contents code) s"
  "reads_file (upload_env contents code) [] f n contents"
  by (simp_all add: writes_all_def reads_file_def upload_env_def)

lemma http_write_body_roundtrip_witness:
  "\<exists>p' cs. http_write_body 5 False \<lparr>CHUNK_SZ = 4096, CHUNK_DATA_SZ = 4093\<rparr> upload_poster upload_sd
      (upload_env ''1,2,3'' ''200'') [] = Inr ((ESP_OK, p', upload_sd), cs) \<and>
    unchunk (sent 3 cs) =
      Some (MULTIPART_BODY_HEADER_TEMPLATE ''AABBCCDDEEFF_19-08-05.csv'' @ ''1,2,3'' @ body_closer)"
proof -
  have dst: "c_str (fn_dst upload_poster) = ''AABBCCDDEEFF_19-08-05.csv''"
    by (simp add: upload_poster_def c_str_def)
  have ok: "buffers_ok \<lparr>CHUNK_SZ = 4096, CHUNK_DATA_SZ = 4093\<rparr> upload_poster"
    by (simp add: buffers_ok_def upload_poster_def min_size_value)
  have vals: "sock upload_poster = 3" "fn_base upload_poster = ''19-08-05.csv''" "st_size upload_poster = 5"
    "fs_mounted upload_sd" "ans_int (upload_env c d) tr (Fs (Fopen x y)) = 7" for c d tr x y
    by (simp_all add: upload_poster_def upload_sd_def upload_env_def)
  show ?thesis
    using http_write_body_roundtrip [of "upload_env ''1,2,3'' ''200''" upload_poster
        "\<lparr>CHUNK_SZ = 4096, CHUNK_DATA_SZ = 4093\<rparr>" upload_sd 7 "[]" "''1,2,3''" 5 False]
    by (simp add: upload_env_coop ok dst vals) blast
qed

subsection \<open>The whole upload\<close>

text \<open>A card, a heap, a network and a server that do all they are asked.\<close>

definition cooperates :: "env \<Rightarrow> call list \<Rightarrow> string \<Rightarrow> string \<Rightarrow> int \<Rightarrow> int \<Rightarrow> string \<Rightarrow> bool" where
  "cooperates e tr name contents s f code \<longleftrightarrow>
     writes_all e s \<and> (\<forall>n. reads_file e tr f n contents) \<and> 0 \<le> s \<and> f \<noteq> 0 \<and>
     (\<forall>tr. min_size \<le> unat (ans_bits e tr (Sys HeapLargestFree))) \<and>
     (\<forall>tr n. ans_int e tr (Sys (Malloc n)) \<noteq> 0) \<and>
     (\<forall>tr. ans_int e tr (Fs (Stat (''/sdcard/'' @ name))) = 0) \<and>
     (\<forall>tr. sint (ans_bits e tr (Fs (Stat (''/sdcard/'' @ name)))) = int (length contents)) \<and>
     (\<forall>tr. ans_int e tr (Fs (Fopen (''/sdcard/'' @ name) ''r'')) = f) \<and>
     (\<forall>tr. ans_int e tr (Net (GetAddrInfo HOSTNAME PORT)) = 0) \<and>
     (\<forall>tr. ans_bits e tr (Net (GetAddrInfo HOSTNAME PORT)) \<noteq> 0) \<and>
     (\<forall>tr. ans_int e tr (Net Socket) = s) \<and> (\<forall>tr. ans_int e tr (Net (Connect s)) = 0) \<and>
     (\<forall>tr. ans_int e tr (Net (SetRcvTimeout s 5)) = 0) \<and>
     (\<forall>tr. ans_bytes e tr (Net (SockRead s 3)) = code) \<and>
     (\<forall>tr n. 9 < n \<longrightarrow> ans_int e tr (Net (SockRead s n)) = 0)"

lemma set_chunk_size_run:
  assumes "min_size \<le> unat (ans_bits e tr (Sys HeapLargestFree))" "c < 2 ^ 32"
  shows "\<exists>n. set_chunk_size c cfg e tr =
      Inr (cfg\<lparr>CHUNK_SZ := n, CHUNK_DATA_SZ := n - 3\<rparr>, tr @ [Sys HeapLargestFree]) \<and> min_size \<le> n \<and> n < 2 ^ 32"
  using assms unat_u32_less [of "ans_bits e tr (Sys HeapLargestFree)"]
  by (auto simp: set_chunk_size_def cmd_simps)

lemma http_init_run:
  assumes "cooperates e tr name contents s f code" "contents \<noteq> []" "length name \<le> 16" "nul \<notin> set name"
    and "CHUNK_SZ cfg < 2 ^ 32" "fn_base p0 = name" "length (fn_src p0) = 25" "length (fn_dst p0) = 64"
  shows "\<exists>p cfg' cs. http_init p0 cfg e tr = Inr ((0, p, cfg'), tr @ cs) \<and> buffers_ok cfg' p \<and>
    fn_base p = name \<and> c_str (fn_dst p) = ''AABBCCDDEEFF_'' @ name \<and> st_size p = int (length contents) \<and>
    (\<forall>f n. n_reads f n cs = 0) \<and> (\<forall>s. sent s cs = []) \<and>
    (\<exists>n. cs = [Sys HeapLargestFree, Fs (Stat (''/sdcard/'' @ name)), Sys (Malloc n), Sys (Malloc CHUNK_SZ_STR_LEN)] \<and>
       tx_ptr p = ans_int e (tr @ take 2 cs) (Sys (Malloc n)) \<and> sz_ptr p = ans_int e (tr @ take 3 cs) (Sys (Malloc CHUNK_SZ_STR_LEN)))"
proof -
  have heap: "min_size \<le> unat (ans_bits e tr (Sys HeapLargestFree))"
    using assms(1) by (simp add: cooperates_def)
  obtain n where n: "set_chunk_size (CHUNK_SZ cfg) cfg e tr =
      Inr (cfg\<lparr>CHUNK_SZ := n, CHUNK_DATA_SZ := n - 3\<rparr>, tr @ [Sys HeapLargestFree])" "min_size \<le> n" "n < 2 ^ 32"
    using set_chunk_size_run [OF heap assms(5), of cfg] by blast
  let ?src = "''/sdcard/'' @ name" and ?dst = "''AABBCCDDEEFF'' @ ''_'' @ name"
  have src: "snprintf (fn_src p0) 0 SD_FILENAME_LENGTH ?src = Inr (?src @ nul # drop (Suc (length ?src)) (fn_src p0))"
    using assms(3,7) by (intro snprintf_all) (simp_all add: SD_FILENAME_LENGTH_def)
  have dst: "snprintf (fn_dst p0) 0 SERVER_FILENAME_LEN ?dst = Inr (?dst @ nul # drop (Suc (length ?dst)) (fn_dst p0))"
    using assms(3,8) by (intro snprintf_all) (simp_all add: SERVER_FILENAME_LEN_def)
  have cs: "c_str (?src @ nul # r) = ?src" "c_str (?dst @ nul # r) = ?dst" for r
    using takeWhile_no [of nul ?src r] takeWhile_no [of nul ?dst r] assms(4) by (simp_all add: c_str_def)
  have le: "\<not> SD_FILENAME_LENGTH < length ?src" using assms(3) by (simp add: SD_FILENAME_LENGTH_def)
  have coop: "ans_int e t (Sys (Malloc k)) \<noteq> 0" "ans_int e t (Fs (Stat ?src)) = 0"
    "sint (ans_bits e t (Fs (Stat ?src))) = int (length contents)" for t k
    using assms(1) by (simp_all add: cooperates_def)
  let ?cs = "[Sys HeapLargestFree, Fs (Stat ?src), Sys (Malloc n), Sys (Malloc 16)]"
  have "\<exists>p. http_init p0 cfg e tr = Inr ((0, p, cfg\<lparr>CHUNK_SZ := n, CHUNK_DATA_SZ := n - 3\<rparr>), tr @ ?cs) \<and>
      length (tx_buf p) = n \<and> length (sz_buf p) = 16 \<and> fn_base p = name \<and> c_str (fn_dst p) = ?dst \<and>
      st_size p = int (length contents) \<and>
      tx_ptr p = ans_int e (tr @ take 2 ?cs) (Sys (Malloc n)) \<and> sz_ptr p = ans_int e (tr @ take 3 ?cs) (Sys (Malloc 16))"
    using n(1) src dst cs le coop assms(2,6)
    by (simp add: http_init_def cmd_simps CHUNK_SZ_STR_LEN_def)
  then obtain p where p: "http_init p0 cfg e tr = Inr ((0, p, cfg\<lparr>CHUNK_SZ := n, CHUNK_DATA_SZ := n - 3\<rparr>), tr @ ?cs)"
    "length (tx_buf p) = n" "length (sz_buf p) = 16" "fn_base p = name" "c_str (fn_dst p) = ?dst"
    "st_size p = int (length contents)"
    "tx_ptr p = ans_int e (tr @ take 2 ?cs) (Sys (Malloc n))" "sz_ptr p = ans_int e (tr @ take 3 ?cs) (Sys (Malloc 16))" by blast
  have "buffers_ok (cfg\<lparr>CHUNK_SZ := n, CHUNK_DATA_SZ := n - 3\<rparr>) p"
    using n(2,3) p(2,3) by (simp add: buffers_ok_def)
  then show ?thesis
    using p by (intro exI [of _ p] exI [of _ "cfg\<lparr>CHUNK_SZ := n, CHUNK_DATA_SZ := n - 3\<rparr>"] exI [of _ ?cs])
      (simp add: n_reads_def CHUNK_SZ_STR_LEN_def)
qed

lemma reads_file_shift:
  "reads_file e tr f n contents \<Longrightarrow> n_reads f n cs = 0 \<Longrightarrow> reads_file e (tr @ cs) f n contents"
  by (simp add: reads_file_def)

lemma read_http_response_run:
  assumes "cooperates e tr0 name contents s f code" "sock p = s" "length code = 3" "nul \<notin> set code" "9 < CHUNK_SZ cfg"
  shows "\<exists>cs. read_http_response (Suc fuel) cfg p e tr = Inr (atol code, tr @ cs) \<and> sent s cs = [] \<and> list_all moves cs"
proof -
  have b: "buf_write (replicate 4 nul) 0 code = Inr (code @ [nul])"
    using assms(3) by (auto simp: buf_write_def)
  have c: "c_str (code @ [nul]) = code"
    using takeWhile_no [of nul code "[]"] assms(4) by (simp add: c_str_def)
  have coop: "ans_int e t (Net (SetRcvTimeout s 5)) = 0" "ans_bytes e t (Net (SockRead s 3)) = code"
    "ans_int e t (Net (SockRead s (CHUNK_SZ cfg))) = 0" for t
    using assms(1,5) by (simp_all add: cooperates_def)
  show ?thesis
    using b c coop assms(2,3) by (simp add: read_http_response_def cmd_simps)
qed

lemma http_connect_run:
  assumes "cooperates e tr0 name contents s f code"
  shows "http_connect p e tr = Inr ((0, p\<lparr>sock := s\<rparr>),
    tr @ [Net (GetAddrInfo HOSTNAME PORT), Net Socket, Net (Connect s), Net FreeAddrInfo])"
  using assms by (simp add: cooperates_def http_connect_def cmd_simps)

text \<open>
  What the calls acquire, in order: the answers of the calls that open a file, create a socket or
  allocate a block. And the calls that release something.
\<close>

fun answers :: "(call \<Rightarrow> bool) \<Rightarrow> env \<Rightarrow> call list \<Rightarrow> call list \<Rightarrow> int list" where
  "answers P e tr [] = []"
| "answers P e tr (c # cs) = (if P c then [ans_int e tr c] else []) @ answers P e (tr @ [c]) cs"

fun opens_file :: "call \<Rightarrow> bool" where
  "opens_file (Fs (Fopen _ _)) \<longleftrightarrow> True" | "opens_file _ \<longleftrightarrow> False"

fun makes_socket :: "call \<Rightarrow> bool" where
  "makes_socket (Net Socket) \<longleftrightarrow> True" | "makes_socket _ \<longleftrightarrow> False"

fun allocates :: "call \<Rightarrow> bool" where
  "allocates (Sys (Malloc _)) \<longleftrightarrow> True" | "allocates _ \<longleftrightarrow> False"

fun releases :: "call \<Rightarrow> bool" where
  "releases (Fs (Fclose _)) \<longleftrightarrow> True" | "releases (Net (SockClose _)) \<longleftrightarrow> True" | "releases (Sys (Free _)) \<longleftrightarrow> True"
| "releases _ \<longleftrightarrow> False"

lemma answers_append: "answers P e tr (cs @ ds) = answers P e tr cs @ answers P e (tr @ cs) ds"
  by (induction cs arbitrary: tr) simp_all

lemma answers_none: "list_all (\<lambda>c. \<not> P c) cs \<Longrightarrow> answers P e tr cs = []"
  by (induction cs arbitrary: tr) simp_all

lemma moves_nothing:
  assumes "list_all moves cs"
  shows "answers opens_file e tr cs = []" "answers makes_socket e tr cs = []" "answers allocates e tr cs = []"
    "list_all (\<lambda>c. \<not> releases c) cs"
proof -
  have "\<not> opens_file c \<and> \<not> makes_socket c \<and> \<not> allocates c \<and> \<not> releases c" if "moves c" for c
    using that by (cases c rule: moves.cases) simp_all
  then have "list_all (\<lambda>c. \<not> opens_file c) cs" "list_all (\<lambda>c. \<not> makes_socket c) cs" "list_all (\<lambda>c. \<not> allocates c) cs"
    and "list_all (\<lambda>c. \<not> releases c) cs"
    using assms by (simp_all add: list_all_iff)
  then show "answers opens_file e tr cs = []" "answers makes_socket e tr cs = []" "answers allocates e tr cs = []"
    "list_all (\<lambda>c. \<not> releases c) cs" by (simp_all add: answers_none)
qed

text \<open>
  C37: with everything cooperating, the server receives the request line and headers followed by
  a chunked body that decodes to the part header, the whole file and the closing boundary. Yet
  the function reports success only when the server's status code reads as zero: a status of 200
  gives \<open>ESP_FAIL\<close>. The upload opens one file, creates one socket and allocates two blocks, and
  releases nothing until the status is known; then exactly these four are released when it reports
  failure, and none of them when it reports success.
\<close>

theorem http_upload_status:
  assumes "cooperates e tr name contents s f code" "contents \<noteq> []" "length name \<le> 16" "nul \<notin> set name"
    and "CHUNK_SZ cfg < 2 ^ 32" "fs_mounted sd" "length code = 3" "nul \<notin> set code" "length contents < fuel"
  shows "\<exists>cfg' cs ds body tx sz. http_upload_file_from_sd fuel dbg name cfg sd e tr =
      Inr ((if atol code = 0 then ESP_OK else ESP_FAIL, cfg', sd), tr @ cs @ ds) \<and>
    sent s cs = MULTIPART_REQUEST @ body \<and>
    unchunk body = Some (MULTIPART_BODY_HEADER_TEMPLATE (''AABBCCDDEEFF_'' @ name) @ contents @ body_closer) \<and>
    answers opens_file e tr cs = [f] \<and> answers makes_socket e tr cs = [s] \<and> answers allocates e tr cs = [tx, sz] \<and>
    list_all (\<lambda>c. \<not> releases c) cs \<and>
    ds = (if atol code = 0 then [] else [Fs (Fclose f), Net (SockClose s), Sys (Free tx), Sys (Free sz)])"
proof -
  let ?p0 = "\<lparr>fn_base = name, fn_src = replicate SD_FILENAME_LENGTH nul,
      fn_dst = replicate SERVER_FILENAME_LEN nul, fp = 0, st_size = 0, sock = 0,
      sz_ptr = 0, sz_buf = [], tx_ptr = 0, tx_buf = [], slen = 0\<rparr> :: http_poster"
  obtain fuel' where fuel: "fuel = Suc fuel'" using assms(9) by (cases fuel) auto
  obtain p1 cfg' cs1 n where init: "http_init ?p0 cfg e tr = Inr ((0, p1, cfg'), tr @ cs1)" "buffers_ok cfg' p1"
    "fn_base p1 = name" "c_str (fn_dst p1) = ''AABBCCDDEEFF_'' @ name" "st_size p1 = int (length contents)"
    "\<And>f n. n_reads f n cs1 = 0" "\<And>s. sent s cs1 = []"
    and cs1: "cs1 = [Sys HeapLargestFree, Fs (Stat (''/sdcard/'' @ name)), Sys (Malloc n), Sys (Malloc CHUNK_SZ_STR_LEN)]"
    and blocks: "tx_ptr p1 = ans_int e (tr @ take 2 cs1) (Sys (Malloc n))"
      "sz_ptr p1 = ans_int e (tr @ take 3 cs1) (Sys (Malloc CHUNK_SZ_STR_LEN))"
    using http_init_run [OF assms(1-5), of ?p0] by (auto simp: SD_FILENAME_LENGTH_def SERVER_FILENAME_LEN_def)
  let ?p2 = "p1\<lparr>sock := s\<rparr>"
  let ?cs2 = "[Net (GetAddrInfo HOSTNAME PORT), Net Socket, Net (Connect s), Net FreeAddrInfo]"
  let ?cs3 = "[Net (SockWrite s MULTIPART_REQUEST)]"
  have w: "writes_all e s" and f: "f \<noteq> 0" "\<And>tr. ans_int e tr (Fs (Fopen (''/sdcard/'' @ name) ''r'')) = f"
    and socket: "\<And>tr. ans_int e tr (Net Socket) = s"
    using assms(1) by (simp_all add: cooperates_def)
  have req: "http_write_request ?p2 e (tr @ cs1 @ ?cs2) = Inr (0, tr @ cs1 @ ?cs2 @ ?cs3)"
    using w by (simp add: http_write_request_def cmd_simps writes_all_def)
  have rd: "reads_file e (tr @ cs1 @ ?cs2 @ ?cs3) f (CHUNK_DATA_SZ cfg') contents"
    using assms(1) init(6) by (intro reads_file_shift) (simp_all add: cooperates_def n_reads_def)
  have ok2: "buffers_ok cfg' ?p2" using init(2) by (simp add: buffers_ok_def)
  obtain p3 cs4 before after where body: "http_write_body fuel dbg cfg' ?p2 sd e (tr @ cs1 @ ?cs2 @ ?cs3) =
      Inr ((0, p3, sd), (tr @ cs1 @ ?cs2 @ ?cs3) @ cs4)" "sock p3 = s"
    "unchunk (sent s cs4) = Some (MULTIPART_BODY_HEADER_TEMPLATE (''AABBCCDDEEFF_'' @ name) @ contents @ body_closer)"
    and kept: "tx_ptr p3 = tx_ptr p1" "sz_ptr p3 = sz_ptr p1" "fp p3 = f"
    and cs4: "cs4 = before @ Fs (Fopen (''/sdcard/'' @ name) ''r'') # after" "list_all moves before" "list_all moves after"
    using http_write_body_run [OF _ ok2 _ assms(6) _ _ _ f(1) rd assms(2), of fuel dbg] w f init(3-5) assms(3,4,9)
    by auto
  have big: "9 < CHUNK_SZ cfg'" using init(2) by (simp add: buffers_ok_def min_size_value)
  obtain cs5 where resp: "read_http_response fuel cfg' p3 e (tr @ cs1 @ ?cs2 @ ?cs3 @ cs4) =
      Inr (atol code, (tr @ cs1 @ ?cs2 @ ?cs3 @ cs4) @ cs5)" "sent s cs5 = []" "list_all moves cs5"
    using read_http_response_run [OF assms(1) body(2) assms(7,8) big, of fuel'] fuel by blast
  define cs where "cs = cs1 @ ?cs2 @ ?cs3 @ cs4 @ cs5"
  have run: "http_upload_file_from_sd fuel dbg name cfg sd e tr =
      Inr ((if atol code = 0 then 0 else - 1, cfg', sd), tr @ cs @
        (if atol code = 0 then []
         else [Fs (Fclose f), Net (SockClose s), Sys (Free (tx_ptr p1)), Sys (Free (sz_ptr p1))]))"
    using init(1) req body(1,2) resp(1) kept
    by (simp add: http_upload_file_from_sd_def cmd_simps http_connect_run [OF assms(1)] http_post_cleanup_def cs_def)
  have out: "sent s cs = MULTIPART_REQUEST @ sent s cs4"
    using init(7) resp(2) by (simp add: cs_def)
  note quiet = moves_nothing [OF cs4(2)] moves_nothing [OF cs4(3)] moves_nothing [OF resp(3)]
  have "answers opens_file e tr cs = [f]" "answers makes_socket e tr cs = [s]"
      "answers allocates e tr cs = [tx_ptr p1, sz_ptr p1]" "list_all (\<lambda>c. \<not> releases c) cs"
    using quiet blocks f(2) socket by (simp_all add: cs_def cs1 cs4(1) answers_append)
  with run out body(3) show ?thesis
    by (intro exI [of _ cfg'] exI [of _ cs] exI [of _ "sent s cs4"] exI [of _ "tx_ptr p1"] exI [of _ "sz_ptr p1"] exI) simp
qed

lemma http_upload_status_witness:
  "\<exists>cfg' cs. http_upload_file_from_sd 6 False ''19-08-05.csv'' \<lparr>CHUNK_SZ = 4096, CHUNK_DATA_SZ = 0\<rparr> upload_sd
     (upload_env ''1,2,3'' ''200'') [] = Inr ((ESP_FAIL, cfg', upload_sd), cs)"
proof -
  have "cooperates (upload_env ''1,2,3'' ''200'') [] ''19-08-05.csv'' ''1,2,3'' 3 7 ''200''"
    by (simp add: cooperates_def upload_env_coop) (simp add: upload_env_def min_size_value)
  moreover have "atol ''200'' = 200" by code_simp
  ultimately show ?thesis
    using http_upload_status [of "upload_env ''1,2,3'' ''200''" "[]" "''19-08-05.csv''" "''1,2,3''" 3 7 "''200''"
        "\<lparr>CHUNK_SZ = 4096, CHUNK_DATA_SZ = 0\<rparr>" upload_sd 6 False]
    by (auto simp: upload_sd_def)
qed

text \<open>
  The loop over the file does not notice the end of the file: if reading delivers nothing
  more while bytes are still missing (the file shrank, or the card fails), the loop sends empty
  chunks, each of which ends the message for the server, and never stops.
\<close>

theorem file_loop_never_ends:
  assumes "writes_all e (sock p)" "buffers_ok cfg p" "0 < flen"
    and "\<And>tr. ans_bytes e tr (Fs (Fread (fp p) (CHUNK_DATA_SZ cfg))) = []"
  shows "file_loop fuel cfg flen p e tr = Inl NoFuel"
  using assms
proof (induction fuel arbitrary: p tr)
  case (Suc fuel)
  let ?p1 = "p\<lparr>tx_buf := nul # drop 1 (tx_buf p), slen := 0\<rparr>"
  have len: "length (tx_buf p) = CHUNK_SZ cfg" "length (sz_buf p) = 16" "175 \<le> CHUNK_SZ cfg"
    using Suc.prems(2) by (simp_all add: buffers_ok_def min_size_value)
  obtain p2 tr2 where p2: "http_write_chunk ?p1 e (tr @ [Fs (Fread (fp p) (CHUNK_DATA_SZ cfg))]) = Inr ((0, p2), tr2)"
    "same_file ?p1 p2"
    using http_write_chunk_run [of e ?p1 "[]" "tr @ [Fs (Fread (fp p) (CHUNK_DATA_SZ cfg))]"] Suc.prems(1) len by auto
  have same: "same_file p p2" using p2(2) len by (auto simp: same_file_def)
  then have "file_loop fuel cfg flen p2 e tr2 = Inl NoFuel"
    using Suc.IH [of p2 tr2] Suc.prems buffers_ok_same [OF Suc.prems(2) same] by (simp add: same_file_def)
  then show ?case
    using p2(1) len Suc.prems(3,4) by (simp add: cmd_simps buf_write_def)
qed (simp add: cmd_simps)

lemma file_loop_never_ends_witness:
  "file_loop 1000 \<lparr>CHUNK_SZ = 4096, CHUNK_DATA_SZ = 4093\<rparr> 5 upload_poster (upload_env [] ''200'') [] = Inl NoFuel"
proof -
  have "buffers_ok \<lparr>CHUNK_SZ = 4096, CHUNK_DATA_SZ = 4093\<rparr> upload_poster"
    by (simp add: buffers_ok_def upload_poster_def min_size_value)
  moreover have "ans_bytes (upload_env [] c) tr (Fs (Fread f n)) = []" for c tr f n
    by (simp add: upload_env_def)
  ultimately show ?thesis
    using file_loop_never_ends [of "upload_env [] ''200''" upload_poster "\<lparr>CHUNK_SZ = 4096, CHUNK_DATA_SZ = 4093\<rparr>" 5 1000 "[]"]
    by (simp add: upload_env_coop)
qed

end
