(* ===== verification/WifiStore.thy ===== *)
theory WifiStore
  imports WifiBits
begin

text \<open>
  The state of the Wi-Fi manager (\<open>main/wifi_manager.c\<close>) and its flash store: the station
  configuration, the settings and the user's registration are saved as blobs of a name space of
  the key-value store and fetched from there.

  \<open>wifi_config_t\<close> is its fields \<open>ssid\<close> (32 bytes) and \<open>password\<close> (64 bytes), which are adjacent;
  the manager leaves the rest zero. \<open>struct wifi_settings_t\<close> is its bytes, since it is stored as
  such; its layout is the one of the ESP32's ABI.
\<close>

subsection \<open>State\<close>

text \<open>
  The constants of \<open>wifi_manager.h\<close>; \<open>WIFI_BW_HT20\<close> and \<open>WIFI_PS_MODEM\<close> are both 1.
\<close>

definition MAX_SSID_SIZE :: nat where "MAX_SSID_SIZE = 32"
definition MAX_PASSWORD_SIZE :: nat where "MAX_PASSWORD_SIZE = 64"
definition MAX_AP_NUM :: nat where "MAX_AP_NUM = 15"
definition DEFAULT_AP_SSID :: string where [simp]: "DEFAULT_AP_SSID = ''AirU''"
definition DEFAULT_AP_PASSWORD :: string where [simp]: "DEFAULT_AP_PASSWORD = ''cleantheair''"
definition DEFAULT_AP_CHANNEL :: nat where [simp]: "DEFAULT_AP_CHANNEL = 5"
definition DEFAULT_AP_SSID_HIDDEN :: nat where [simp]: "DEFAULT_AP_SSID_HIDDEN = 0"
definition DEFAULT_AP_BANDWIDTH :: nat where [simp]: "DEFAULT_AP_BANDWIDTH = 1"
definition DEFAULT_STA_ONLY :: nat where [simp]: "DEFAULT_STA_ONLY = 1"
definition DEFAULT_STA_POWER_SAVE :: nat where [simp]: "DEFAULT_STA_POWER_SAVE = 1"
definition AP_MAX_CONNECTIONS :: nat where [simp]: "AP_MAX_CONNECTIONS = 4"
definition AP_BEACON_INTERVAL :: nat where [simp]: "AP_BEACON_INTERVAL = 100"
definition JSON_ONE_APP_SIZE :: nat where "JSON_ONE_APP_SIZE = 99"
definition JSON_IP_INFO_SIZE :: nat where "JSON_IP_INFO_SIZE = 150"
definition JSON_REG_NAME_SIZE :: nat where "JSON_REG_NAME_SIZE = 64"
definition JSON_REG_EMAIL_SIZE :: nat where "JSON_REG_EMAIL_SIZE = 254"
definition JSON_MAP_VIS_SIZE :: nat where "JSON_MAP_VIS_SIZE = 22"
definition JSON_MAC_ADR_SIZE :: nat where "JSON_MAC_ADR_SIZE = 29"
definition JSON_REG_INFO_SIZE :: nat where
  "JSON_REG_INFO_SIZE = JSON_REG_NAME_SIZE + JSON_REG_EMAIL_SIZE + JSON_MAP_VIS_SIZE + JSON_MAC_ADR_SIZE"

lemmas wifi_sizes =
  MAX_SSID_SIZE_def MAX_PASSWORD_SIZE_def MAX_AP_NUM_def JSON_ONE_APP_SIZE_def JSON_IP_INFO_SIZE_def
  JSON_REG_NAME_SIZE_def JSON_REG_EMAIL_SIZE_def JSON_MAP_VIS_SIZE_def JSON_MAC_ADR_SIZE_def JSON_REG_INFO_SIZE_def

record sta_config =
  sta_ssid :: string
  sta_password :: string

definition zero_sta :: sta_config where
  "zero_sta = \<lparr>sta_ssid = replicate 32 nul, sta_password = replicate 64 nul\<rparr>"

record registration_info =
  reg_name :: string
  reg_email :: string
  reg_mac :: string
  reg_hidden :: bool

text \<open>The size of \<open>struct wifi_settings_t\<close>.\<close>

definition settings_size :: nat where "settings_size = 128"

text \<open>Pointers that may be null are options.\<close>

record wifi_state =
  json_mutex :: bool
  ap_num :: u16
  accessp_records :: "wifi_ap_record list"
  accessp_json :: "string option"
  ip_info_json :: "string option"
  reg_info_json :: "string option"
  config_sta :: "sta_config option"
  wifi_settings :: string
  reg_info :: registration_info

text \<open>The sizes of all the buffers.\<close>

definition wifi_ok :: "wifi_state \<Rightarrow> bool" where
  "wifi_ok st \<longleftrightarrow>
     length (accessp_records st) = MAX_AP_NUM \<and> unat (ap_num st) \<le> MAX_AP_NUM \<and>
     (\<forall>b. accessp_json st = Some b \<longrightarrow> length b = MAX_AP_NUM * JSON_ONE_APP_SIZE + 4) \<and>
     (\<forall>b. ip_info_json st = Some b \<longrightarrow> length b = JSON_IP_INFO_SIZE) \<and>
     (\<forall>b. reg_info_json st = Some b \<longrightarrow> length b = JSON_REG_INFO_SIZE) \<and>
     (\<forall>c. config_sta st = Some c \<longrightarrow> length (sta_ssid c) = 32 \<and> length (sta_password c) = 64) \<and>
     length (wifi_settings st) = settings_size \<and>
     length (reg_name (reg_info st)) = 64 \<and> length (reg_email (reg_info st)) = 254 \<and> length (reg_mac (reg_info st)) = 12"

text \<open>What the other modules see of it.\<close>

definition wifi_manager_get_ap_list_json :: "wifi_state \<Rightarrow> string option" where
  [simp]: "wifi_manager_get_ap_list_json st = accessp_json st"

definition wifi_manager_get_ip_info_json :: "wifi_state \<Rightarrow> string option" where
  [simp]: "wifi_manager_get_ip_info_json st = ip_info_json st"

definition wifi_manager_get_reg_info_json :: "wifi_state \<Rightarrow> string option" where
  [simp]: "wifi_manager_get_reg_info_json st = reg_info_json st"

definition wifi_manager_get_wifi_sta_config :: "wifi_state \<Rightarrow> sta_config option" where
  [simp]: "wifi_manager_get_wifi_sta_config st = config_sta st"

lemmas wifi_getters = wifi_manager_get_ap_list_json_def wifi_manager_get_ip_info_json_def
  wifi_manager_get_reg_info_json_def wifi_manager_get_wifi_sta_config_def

definition nvs_namespace :: string where "nvs_namespace = ''espwifimgr''"

subsection \<open>The code\<close>

text \<open>Run the steps in order and return the first code that is not \<open>ESP_OK\<close>.\<close>

fun until_error :: "int cmd list \<Rightarrow> int cmd \<Rightarrow> int cmd" where
  "until_error [] k = k"
| "until_error (m # ms) k = bindC m (\<lambda>r. if r \<noteq> ESP_OK then ret r else until_error ms k)"

definition wifi_manager_save_reg_config :: "wifi_state \<Rightarrow> esp_err cmd" where
  "wifi_manager_save_reg_config st =
     until_error
       [askI (Sys (NvsOpen nvs_namespace True)),
        askI (Sys (NvsSetBlob ''name'' (take JSON_REG_NAME_SIZE (reg_name (reg_info st))))),
        askI (Sys (NvsSetBlob ''email'' (take JSON_REG_EMAIL_SIZE (reg_email (reg_info st))))),
        askI (Sys NvsCommit)]
       (thenC (doC (Sys NvsClose)) (ret ESP_OK))"

definition wifi_manager_save_wifi_settings :: "wifi_state \<Rightarrow> esp_err cmd" where
  "wifi_manager_save_wifi_settings st =
     until_error
       [askI (Sys (NvsOpen nvs_namespace True)),
        askI (Sys (NvsSetBlob ''settings'' (wifi_settings st))),
        askI (Sys NvsCommit)]
       (thenC (doC (Sys NvsClose)) (ret ESP_OK))"

definition wifi_manager_save_sta_config :: "wifi_state \<Rightarrow> esp_err cmd" where
  "wifi_manager_save_sta_config st =
     (case config_sta st of
        None \<Rightarrow> ret ESP_OK
      | Some c \<Rightarrow>
          until_error
            [askI (Sys (NvsOpen nvs_namespace True)),
             askI (Sys (NvsSetBlob ''ssid'' (take 32 (sta_ssid c)))),
             askI (Sys (NvsSetBlob ''password'' (take 64 (sta_password c)))),
             askI (Sys (NvsSetBlob ''settings'' (wifi_settings st))),
             askI (Sys NvsCommit)]
            (thenC (doC (Sys NvsClose)) (ret ESP_OK)))"

text \<open>
  \<open>nvs_get_blob\<close> into a buffer of which \<open>n\<close> bytes are offered: the code and, when it is
  \<open>ESP_OK\<close>, the buffer with the blob at its front and the blob's size.
\<close>

definition get_blob :: "string \<Rightarrow> nat \<Rightarrow> string \<Rightarrow> (int \<times> string \<times> nat) cmd" where
  "get_blob key n buff =
     bindC (askIS (Sys (NvsGetBlob key n))) (\<lambda>(r, bs).
     if r \<noteq> ESP_OK then ret (r, buff, n)
     else bindC (liftE (buf_write buff 0 bs)) (\<lambda>buff. ret (r, buff, length bs)))"

definition fetch_reg_field :: "string \<Rightarrow> string \<Rightarrow> string \<Rightarrow> (bool \<times> string \<times> string) cmd" where
  "fetch_reg_field key buff dest =
     bindC (get_blob key JSON_REG_EMAIL_SIZE buff) (\<lambda>(r, buff, sz).
     if r \<noteq> ESP_OK then ret (False, buff, dest)
     else bindC (liftE (buf_write buff sz [nul])) (\<lambda>buff.
          bindC (liftE (buf_write dest 0 (take sz buff))) (\<lambda>dest. ret (True, buff, dest))))"

definition wifi_manager_fetch_reg_config :: "wifi_state \<Rightarrow> (bool \<times> wifi_state) cmd" where
  "wifi_manager_fetch_reg_config st =
     bindC (liftE (buf_write (reg_name (reg_info st)) 0 [nul])) (\<lambda>name.
     bindC (liftE (buf_write (reg_email (reg_info st)) 0 [nul])) (\<lambda>email.
     let st = st\<lparr>reg_info := (reg_info st)\<lparr>reg_name := name, reg_email := email\<rparr>\<rparr> in
     bindC (askI (Sys (NvsOpen nvs_namespace False))) (\<lambda>r.
     if r \<noteq> ESP_OK then ret (False, st) else
     bindC (malloc JSON_REG_EMAIL_SIZE) (\<lambda>(p, buff).
     if p = 0 then failC NullDeref else
     bindC (fetch_reg_field ''name'' buff name) (\<lambda>(ok, buff, name).
     let st = st\<lparr>reg_info := (reg_info st)\<lparr>reg_name := name\<rparr>\<rparr> in
     if \<not> ok then thenC (doC (Sys (Free p))) (ret (False, st)) else
     bindC (fetch_reg_field ''email'' buff email) (\<lambda>(ok, buff, email).
     let st = st\<lparr>reg_info := (reg_info st)\<lparr>reg_email := email\<rparr>\<rparr> in
     if \<not> ok then thenC (doC (Sys (Free p))) (ret (False, st)) else
     thenC (seqC [doC (Sys (Free p)), doC (Sys NvsClose)]) (ret (True, st))))))))"

text \<open>One blob of the station configuration, copied to its field.\<close>

definition fetch_field :: "string \<Rightarrow> nat \<Rightarrow> string \<Rightarrow> string \<Rightarrow> (bool \<times> string \<times> string) cmd" where
  "fetch_field key n buff dest =
     bindC (get_blob key n buff) (\<lambda>(r, buff, sz).
     if r \<noteq> ESP_OK then ret (False, buff, dest)
     else bindC (liftE (buf_write dest 0 (take sz buff))) (\<lambda>dest. ret (True, buff, dest)))"

text \<open>The allocated configuration is zeroed at once, so that its first contents do not matter.\<close>

definition wifi_manager_fetch_wifi_sta_config :: "wifi_state \<Rightarrow> (bool \<times> wifi_state) cmd" where
  "wifi_manager_fetch_wifi_sta_config st =
     bindC (askI (Sys (NvsOpen nvs_namespace False))) (\<lambda>r.
     if r \<noteq> ESP_OK then ret (False, st) else
     bindC (if config_sta st = None
            then bindC (malloc 96) (\<lambda>(p, _). if p = 0 then failC NullDeref else ret ())
            else ret ()) (\<lambda>_.
     let c = zero_sta; st = st\<lparr>config_sta := Some c, wifi_settings := replicate settings_size nul\<rparr> in
     bindC (malloc settings_size) (\<lambda>(p, buff).
     if p = 0 then failC NullDeref else
     bindC (liftE (memset buff nul 4)) (\<lambda>buff.
     bindC (fetch_field ''ssid'' 32 buff (sta_ssid c)) (\<lambda>(ok, buff, ssid).
     let c = c\<lparr>sta_ssid := ssid\<rparr>; st = st\<lparr>config_sta := Some c\<rparr> in
     if \<not> ok then thenC (doC (Sys (Free p))) (ret (False, st)) else
     bindC (fetch_field ''password'' 64 buff (sta_password c)) (\<lambda>(ok, buff, pwd).
     let c = c\<lparr>sta_password := pwd\<rparr>; st = st\<lparr>config_sta := Some c\<rparr> in
     if \<not> ok then thenC (doC (Sys (Free p))) (ret (False, st)) else
     bindC (fetch_field ''settings'' settings_size buff (wifi_settings st)) (\<lambda>(ok, buff, s).
     let st = st\<lparr>wifi_settings := s\<rparr> in
     if \<not> ok then thenC (doC (Sys (Free p))) (ret (False, st)) else
     thenC (seqC [doC (Sys (Free p)), doC (Sys NvsClose)])
       (ret (hd (sta_ssid c) \<noteq> nul, st)))))))))"

subsection \<open>The store\<close>

text \<open>
  What the key-value store documents: reading a key delivers the blob last written under it,
  provided the buffer is large enough.
\<close>

fun nvs_step :: "string \<Rightarrow> string option \<Rightarrow> call \<Rightarrow> string option" where
  "nvs_step key m (Sys (NvsSetBlob k b)) = (if k = key then Some b else m)"
| "nvs_step key m _ = m"

definition nvs_blob :: "string \<Rightarrow> call list \<Rightarrow> string option" where
  "nvs_blob key cs = foldl (nvs_step key) None cs"

definition nvs_reliable :: "env \<Rightarrow> bool" where
  "nvs_reliable e \<longleftrightarrow>
     (\<forall>tr ns w. ans_int e tr (Sys (NvsOpen ns w)) = 0) \<and>
     (\<forall>tr k b. ans_int e tr (Sys (NvsSetBlob k b)) = 0) \<and>
     (\<forall>tr. ans_int e tr (Sys NvsCommit) = 0) \<and>
     (\<forall>tr n. ans_int e tr (Sys (Malloc n)) \<noteq> 0) \<and>
     (\<forall>tr k n b. nvs_blob k tr = Some b \<and> length b \<le> n \<longrightarrow>
        ans_int e tr (Sys (NvsGetBlob k n)) = 0 \<and> ans_bytes e tr (Sys (NvsGetBlob k n)) = b)"

lemma nvs_get:
  "nvs_reliable e \<Longrightarrow> nvs_blob k tr = Some b \<Longrightarrow> length b \<le> n \<Longrightarrow>
   ans_int e tr (Sys (NvsGetBlob k n)) = 0 \<and> ans_bytes e tr (Sys (NvsGetBlob k n)) = b"
  unfolding nvs_reliable_def by blast

definition no_set :: "call list \<Rightarrow> bool" where
  "no_set cs \<longleftrightarrow> (\<forall>k b. Sys (NvsSetBlob k b) \<notin> set cs)"

lemma no_set_simps [simp]:
  "no_set []" "no_set (c # cs) \<longleftrightarrow> (\<forall>k b. c \<noteq> Sys (NvsSetBlob k b)) \<and> no_set cs"
  "no_set (cs @ ds) \<longleftrightarrow> no_set cs \<and> no_set ds"
  by (auto simp: no_set_def)

lemma foldl_nvs_step: "no_set cs \<Longrightarrow> foldl (nvs_step key) m cs = m"
proof (induction cs arbitrary: m)
  case (Cons c cs)
  then have "nvs_step key m c = m" by (cases "(key, m, c)" rule: nvs_step.cases) auto
  with Cons show ?case by simp
qed simp

lemma nvs_blob_append [simp]: "no_set ds \<Longrightarrow> nvs_blob key (cs @ ds) = nvs_blob key cs"
  by (simp add: nvs_blob_def foldl_nvs_step)

lemma until_error_ok:
  assumes "list_all2 (\<lambda>m c. \<forall>tr. m e tr = Inr (0, tr @ [c])) ms cs"
  shows "until_error ms k e tr = k e (tr @ cs)"
  using assms
proof (induction ms arbitrary: cs tr)
  case (Cons m ms)
  then obtain c cs' where "cs = c # cs'" "list_all2 (\<lambda>m c. \<forall>tr. m e tr = Inr (0, tr @ [c])) ms cs'"
    "\<forall>tr. m e tr = Inr (0, tr @ [c])"
    by (auto simp: list_all2_Cons1)
  then show ?case using Cons.IH [of cs' "tr @ [c]"] by (simp add: cmd_simps)
qed simp

lemma buf_write_all: "length s = length b \<Longrightarrow> buf_write b 0 s = Inr s"
  by (auto simp: buf_write_def)

lemma fetch_field_run:
  assumes "nvs_reliable e" "nvs_blob key tr = Some b" "length b = n" "length dest = n" "n \<le> length buff"
  shows "\<exists>buff'. fetch_field key n buff dest e tr = Inr ((True, buff', b), tr @ [Sys (NvsGetBlob key n)]) \<and>
    length buff' = length buff"
proof -
  have got: "ans_int e tr (Sys (NvsGetBlob key n)) = 0" "ans_bytes e tr (Sys (NvsGetBlob key n)) = b"
    using nvs_get [OF assms(1,2), of n] assms(3) by simp_all
  have "buf_write buff 0 b = Inr (b @ drop n buff)"
    using assms(3,5) by (auto simp: buf_write_def)
  then show ?thesis
    using got assms(3-5) by (simp add: fetch_field_def get_blob_def cmd_simps buf_write_all)
qed

definition sta_saves :: "sta_config \<Rightarrow> string \<Rightarrow> call list" where
  "sta_saves c s = [Sys (NvsOpen nvs_namespace True), Sys (NvsSetBlob ''ssid'' (sta_ssid c)),
     Sys (NvsSetBlob ''password'' (sta_password c)), Sys (NvsSetBlob ''settings'' s), Sys NvsCommit]"

lemma save_sta_run:
  assumes "nvs_reliable e" "wifi_ok st" "config_sta st = Some c"
  shows "wifi_manager_save_sta_config st e tr = Inr (0, tr @ sta_saves c (wifi_settings st) @ [Sys NvsClose])"
proof -
  have c: "length (sta_ssid c) = 32" "length (sta_password c) = 64"
    using assms(2,3) by (auto simp: wifi_ok_def)
  have "wifi_manager_save_sta_config st e tr =
      thenC (doC (Sys NvsClose)) (ret 0) e (tr @ sta_saves c (wifi_settings st))"
    unfolding wifi_manager_save_sta_config_def assms(3) option.case
    by (rule until_error_ok) (insert assms(1) c, simp add: sta_saves_def cmd_simps nvs_reliable_def)
  then show ?thesis by (simp add: cmd_simps)
qed

text \<open>A fetch when the three blobs are in the store.\<close>

definition sta_stored :: "sta_config \<Rightarrow> string \<Rightarrow> call list \<Rightarrow> bool" where
  "sta_stored c s tr \<longleftrightarrow> nvs_blob ''ssid'' tr = Some (sta_ssid c) \<and> nvs_blob ''password'' tr = Some (sta_password c) \<and>
     nvs_blob ''settings'' tr = Some s \<and>
     length (sta_ssid c) = 32 \<and> length (sta_password c) = 64 \<and> length s = settings_size"

lemma sta_stored_append: "sta_stored c s tr \<Longrightarrow> no_set xs \<Longrightarrow> sta_stored c s (tr @ xs)"
  by (simp add: sta_stored_def)

lemma sta_stored_saves:
  assumes "wifi_ok st" "config_sta st = Some c"
  shows "sta_stored c (wifi_settings st) (tr @ sta_saves c (wifi_settings st) @ [Sys NvsClose])"
  using assms by (auto simp: sta_stored_def wifi_ok_def sta_saves_def nvs_blob_def)

lemma fetch_sta_run:
  assumes "nvs_reliable e" and st: "sta_stored c s tr"
  shows "\<exists>es. wifi_manager_fetch_wifi_sta_config st2 e tr =
    Inr ((hd (sta_ssid c) \<noteq> nul, st2\<lparr>config_sta := Some c, wifi_settings := s\<rparr>), tr @ es)"
proof -
  have c: "length (sta_ssid c) = 32" "length (sta_password c) = 64" "length s = settings_size"
    using st by (auto simp: sta_stored_def)
  have blobs: "nvs_blob ''ssid'' (tr @ xs) = Some (sta_ssid c)" "nvs_blob ''password'' (tr @ xs) = Some (sta_password c)"
    "nvs_blob ''settings'' (tr @ xs) = Some s" if "no_set xs" for xs
    using that st by (simp_all add: sta_stored_def)
  define pre where "pre = Sys (NvsOpen nvs_namespace False) #
    (if config_sta st2 = None then [Sys (Malloc 96)] else []) @ [Sys (Malloc settings_size)]"
  define p where "p = ans_int e (tr @ butlast pre) (Sys (Malloc settings_size))"
  obtain b0 where b0: "memset (block settings_size (ans_bytes e (tr @ butlast pre) (Sys (Malloc settings_size)))) nul 4 = Inr b0"
    "length b0 = settings_size"
    by (simp add: memset_def buf_write_def settings_size_def)
  have np: "no_set pre" by (simp add: pre_def)
  obtain b1 where b1: "fetch_field ''ssid'' 32 b0 (sta_ssid zero_sta) e (tr @ pre) =
      Inr ((True, b1, sta_ssid c), (tr @ pre) @ [Sys (NvsGetBlob ''ssid'' 32)])" "length b1 = settings_size"
    using fetch_field_run [OF assms(1) blobs(1) [OF np], of 32 "sta_ssid zero_sta" b0] c b0(2)
    by (auto simp: zero_sta_def settings_size_def)
  obtain b2 where b2: "fetch_field ''password'' 64 b1 (sta_password zero_sta) e (tr @ pre @ [Sys (NvsGetBlob ''ssid'' 32)]) =
      Inr ((True, b2, sta_password c), (tr @ pre @ [Sys (NvsGetBlob ''ssid'' 32)]) @ [Sys (NvsGetBlob ''password'' 64)])"
    "length b2 = settings_size"
    using fetch_field_run [OF assms(1) blobs(2), of "pre @ [Sys (NvsGetBlob ''ssid'' 32)]" 64 "sta_password zero_sta" b1] np c b1(2)
    by (auto simp: zero_sta_def settings_size_def)
  let ?g = "[Sys (NvsGetBlob ''ssid'' 32), Sys (NvsGetBlob ''password'' 64)]"
  obtain b3 where b3: "fetch_field ''settings'' settings_size b2 (replicate settings_size nul) e (tr @ pre @ ?g) =
      Inr ((True, b3, s), (tr @ pre @ ?g) @ [Sys (NvsGetBlob ''settings'' settings_size)])"
    using fetch_field_run [OF assms(1) blobs(3), of "pre @ ?g" settings_size "replicate settings_size nul" b2] np c b2(2)
    by auto
  let ?es = "pre @ ?g @ [Sys (NvsGetBlob ''settings'' settings_size), Sys (Free p), Sys NvsClose]"
  have "wifi_manager_fetch_wifi_sta_config st2 e tr =
      Inr ((hd (sta_ssid c) \<noteq> nul, st2\<lparr>config_sta := Some c, wifi_settings := s\<rparr>), tr @ ?es)"
    using assms(1) b0(1) b1(1) b2(1) b3 unfolding nvs_reliable_def pre_def p_def
    by (auto simp: wifi_manager_fetch_wifi_sta_config_def cmd_simps)
  then show ?thesis by blast
qed

text \<open>
  C17: a saved station configuration survives: once the save has returned \<open>ESP_OK\<close>, fetching at
  any later time (with no other write in between), from whatever is in memory then, restores
  the SSID, the password and the settings byte for byte, changes nothing else, and reports
  whether there is an SSID.
\<close>

theorem sta_config_roundtrip:
  assumes "nvs_reliable e" "wifi_ok st" "config_sta st = Some c" "no_set ds"
  shows "\<exists>cs es. wifi_manager_save_sta_config st e tr = Inr (ESP_OK, tr @ cs) \<and>
    wifi_manager_fetch_wifi_sta_config st2 e (tr @ cs @ ds) =
      Inr ((hd (sta_ssid c) \<noteq> nul, st2\<lparr>config_sta := Some c, wifi_settings := wifi_settings st\<rparr>),
           tr @ cs @ ds @ es)"
proof -
  have "sta_stored c (wifi_settings st) (tr @ (sta_saves c (wifi_settings st) @ [Sys NvsClose]) @ ds)"
    using sta_stored_append [OF sta_stored_saves [OF assms(2,3), of tr] assms(4)] by simp
  from fetch_sta_run [OF assms(1) this] show ?thesis
    using save_sta_run [OF assms(1-3), of tr] by fastforce
qed

definition reg_saves :: "registration_info \<Rightarrow> call list" where
  "reg_saves r = [Sys (NvsOpen nvs_namespace True), Sys (NvsSetBlob ''name'' (reg_name r)),
     Sys (NvsSetBlob ''email'' (reg_email r)), Sys NvsCommit]"

lemma save_reg_run:
  assumes "nvs_reliable e" "wifi_ok st"
  shows "wifi_manager_save_reg_config st e tr = Inr (0, tr @ reg_saves (reg_info st) @ [Sys NvsClose])"
proof -
  have "wifi_manager_save_reg_config st e tr =
      thenC (doC (Sys NvsClose)) (ret 0) e (tr @ reg_saves (reg_info st))"
    unfolding wifi_manager_save_reg_config_def
    by (rule until_error_ok)
       (insert assms, simp add: reg_saves_def cmd_simps nvs_reliable_def wifi_ok_def wifi_sizes)
  then show ?thesis by (simp add: cmd_simps)
qed

text \<open>
  C38: the registration that was saved cannot be fetched without overrunning the heap: the
  e-mail address is stored as a blob of 254 bytes, the buffer it is read into has 254 bytes, and
  the terminator is written behind it.
\<close>

theorem reg_config_fetch_overruns:
  assumes "nvs_reliable e" "wifi_ok st" "no_set ds" "wifi_ok st2"
  shows "\<exists>cs. wifi_manager_save_reg_config st e tr = Inr (ESP_OK, tr @ cs) \<and>
    wifi_manager_fetch_reg_config st2 e (tr @ cs @ ds) = Inl OutOfBounds"
proof -
  let ?cs = "reg_saves (reg_info st) @ [Sys NvsClose]"
  define tr1 where "tr1 = tr @ ?cs @ ds"
  have len: "length (reg_name (reg_info st)) = 64" "length (reg_email (reg_info st)) = 254"
    "length (reg_name (reg_info st2)) = 64" "length (reg_email (reg_info st2)) = 254"
    using assms(2,4) by (simp_all add: wifi_ok_def)
  have blobs: "nvs_blob ''name'' (tr1 @ xs) = Some (reg_name (reg_info st))"
    "nvs_blob ''email'' (tr1 @ xs) = Some (reg_email (reg_info st))" if "no_set xs" for xs
    using that assms(3) by (simp_all add: tr1_def reg_saves_def nvs_blob_def foldl_nvs_step)
  have got: "ans_int e (tr1 @ xs) (Sys (NvsGetBlob ''name'' 254)) = 0 \<and>
      ans_bytes e (tr1 @ xs) (Sys (NvsGetBlob ''name'' 254)) = reg_name (reg_info st)"
    "ans_int e (tr1 @ xs) (Sys (NvsGetBlob ''email'' 254)) = 0 \<and>
      ans_bytes e (tr1 @ xs) (Sys (NvsGetBlob ''email'' 254)) = reg_email (reg_info st)" if "no_set xs" for xs
    using nvs_get [OF assms(1)] blobs [OF that] len by simp_all
  have "wifi_manager_fetch_reg_config st2 e tr1 = Inl OutOfBounds"
    using assms(1) len got [of "[Sys (NvsOpen nvs_namespace False), Sys (Malloc 254)]"]
      got(2) [of "[Sys (NvsOpen nvs_namespace False), Sys (Malloc 254), Sys (NvsGetBlob ''name'' 254)]"]
    by (auto simp: wifi_manager_fetch_reg_config_def fetch_reg_field_def get_blob_def cmd_simps
        wifi_sizes buf_write_def nvs_reliable_def)
  then show ?thesis
    using save_reg_run [OF assms(1,2), of tr] unfolding tr1_def by auto
qed

definition nvs_env :: env where
  "nvs_env = silent_env\<lparr>ans_int := (\<lambda>_ c. case c of Sys (Malloc _) \<Rightarrow> 1 | Rtos (MutexTake _ _) \<Rightarrow> 1 | _ \<Rightarrow> 0),
     ans_bytes := (\<lambda>tr c. case c of Sys (NvsGetBlob k n) \<Rightarrow> (case nvs_blob k tr of Some b \<Rightarrow> b | None \<Rightarrow> []) | _ \<Rightarrow> [])\<rparr>"

definition wifi_demo :: wifi_state where
  "wifi_demo = \<lparr>json_mutex = True, ap_num = 0, accessp_records = replicate 15 \<lparr>ssid = [], primary = 0, rssi = 0, authmode = 0, ap_other = []\<rparr>,
     accessp_json = None, ip_info_json = None, reg_info_json = None,
     config_sta = Some \<lparr>sta_ssid = ''home'' @ replicate 28 nul, sta_password = ''secret'' @ replicate 58 nul\<rparr>,
     wifi_settings = replicate 128 nul,
     reg_info = \<lparr>reg_name = replicate 64 nul, reg_email = replicate 254 nul, reg_mac = replicate 12 nul, reg_hidden = False\<rparr>\<rparr>"

lemma nvs_env_reliable: "nvs_reliable nvs_env"
  by (auto simp: nvs_reliable_def nvs_env_def)

lemma wifi_demo_ok: "wifi_ok wifi_demo"
  by (simp add: wifi_ok_def wifi_demo_def settings_size_def wifi_sizes)

lemma sta_config_roundtrip_witness:
  "\<exists>cs st' es. wifi_manager_save_sta_config wifi_demo nvs_env [] = Inr (ESP_OK, cs) \<and>
    wifi_manager_fetch_wifi_sta_config (wifi_demo\<lparr>config_sta := None\<rparr>) nvs_env (cs @ [Sys Restart]) =
      Inr ((True, st'), cs @ es) \<and> config_sta st' = config_sta wifi_demo"
proof -
  let ?c = "\<lparr>sta_ssid = ''home'' @ replicate 28 nul, sta_password = ''secret'' @ replicate 58 nul\<rparr> :: sta_config"
  have "config_sta wifi_demo = Some ?c" by (simp add: wifi_demo_def)
  then show ?thesis
    using sta_config_roundtrip [OF nvs_env_reliable wifi_demo_ok, of ?c "[Sys Restart]" "[]" "wifi_demo\<lparr>config_sta := None\<rparr>"]
    by fastforce
qed

lemma reg_config_fetch_overruns_witness:
  "\<exists>cs. wifi_manager_save_reg_config wifi_demo nvs_env [] = Inr (ESP_OK, cs) \<and>
    wifi_manager_fetch_reg_config wifi_demo nvs_env cs = Inl OutOfBounds"
  using reg_config_fetch_overruns [OF nvs_env_reliable wifi_demo_ok _ wifi_demo_ok, of "[]" "[]"] by auto

end
