(* ===== verification/WifiJson.thy ===== *)
theory WifiJson
  imports WifiStore ApFilter Json
begin

text \<open>
  The three JSON texts the Wi-Fi manager keeps for its clients (\<open>main/wifi_manager.c\<close>): the list
  of access points, the connection status and the registration. Each is built in a buffer of
  fixed size by appending pieces, one of them an escaped string; the buffers of the source have
  the sizes of \<open>wifi_manager.h\<close>. The lemmas say which text results and exactly when it fits.
\<close>

subsection \<open>The code\<close>

definition with_ptr :: "'a option \<Rightarrow> ('a \<Rightarrow> 'b result) \<Rightarrow> 'b result" where
  "with_ptr p f = (case p of None \<Rightarrow> Inl NullDeref | Some x \<Rightarrow> f x)"

lemma bindE_Inr_right [simp]: "bindE m Inr = m"
  by (cases m) simp_all

lemma with_ptr_simps [simp]: "with_ptr None f = Inl NullDeref" "with_ptr (Some x) f = f x"
  by (simp_all add: with_ptr_def)

text \<open>\<open>json_print_string\<close> at the end of the string in the buffer.\<close>

definition print_at_end :: "string \<Rightarrow> string \<Rightarrow> string result" where
  "print_at_end s b = bindE (strlen b) (\<lambda>n. json_print_buf s b n)"

definition wifi_manager_clear_reg_info_json :: "wifi_state \<Rightarrow> wifi_state result" where
  "wifi_manager_clear_reg_info_json st =
     with_ptr (reg_info_json st) (\<lambda>b.
     bindE (strcpy b (''{}'' @ [lf])) (\<lambda>b. Inr (st\<lparr>reg_info_json := Some b\<rparr>)))"

text \<open>
  The name and the e-mail address are read up to the first NUL; a field that is full has none
  of its own, so that the text goes on in the next field of the structure.
\<close>

definition reg_json_fill :: "registration_info \<Rightarrow> string \<Rightarrow> string \<Rightarrow> string result" where
  "reg_json_fill r mac b =
     bindE (memset b nul JSON_REG_INFO_SIZE) (\<lambda>b.
     bindE (strcat b (''{'' @ [dquote] @ ''name'' @ [dquote] @ '':'')) (\<lambda>b.
     bindE (print_at_end (c_str (reg_name r @ reg_email r @ reg_mac r)) b) (\<lambda>b.
     bindE (strcat b ('','' @ [dquote] @ ''email'' @ [dquote] @ '':'')) (\<lambda>b.
     bindE (print_at_end (c_str (reg_email r @ reg_mac r)) b) (\<lambda>b.
     bindE (strlen b) (\<lambda>len.
     let vis = '','' @ [dquote] @ ''mapVisibility'' @ [dquote] @ '':'' @ fmt_d (if reg_hidden r then 0 else 1) in
     bindE (sprintf b len vis) (\<lambda>b.
     let len = len + length vis;
         h = (\<lambda>i. fmt_0X 2 (of_char (mac ! i)));
         m = '','' @ [dquote] @ ''macAddress'' @ [dquote] @ '':'' @ [dquote] @
           h 0 @ '':'' @ h 1 @ '':'' @ h 2 @ '':'' @ h 3 @ '':'' @ h 4 @ '':'' @ h 5 @ [dquote] @ ''}''
     in sprintf b len m)))))))"

definition wifi_manager_generate_reg_info_json :: "wifi_state \<Rightarrow> wifi_state cmd" where
  "wifi_manager_generate_reg_info_json st =
     bindC (liftE (with_ptr (reg_info_json st) Inr)) (\<lambda>b.
     bindC (askIS (Sys EfuseMacGet)) (\<lambda>(_, mac).
     if length mac < 6 then failC Undefined else
     bindC (liftE (reg_json_fill (reg_info st) mac b)) (\<lambda>b. ret (st\<lparr>reg_info_json := Some b\<rparr>))))"

definition wifi_manager_clear_ip_info_json :: "wifi_state \<Rightarrow> wifi_state result" where
  "wifi_manager_clear_ip_info_json st =
     with_ptr (ip_info_json st) (\<lambda>b.
     bindE (strcpy b (''{}'' @ [lf])) (\<lambda>b. Inr (st\<lparr>ip_info_json := Some b\<rparr>)))"

datatype update_reason_code =
    UPDATE_CONNECTION_OK
  | UPDATE_FAILED_ATTEMPT
  | UPDATE_USER_DISCONNECT
  | UPDATE_LOST_CONNECTION

fun urc :: "update_reason_code \<Rightarrow> int" where
  "urc UPDATE_CONNECTION_OK = 0"
| "urc UPDATE_FAILED_ATTEMPT = 1"
| "urc UPDATE_USER_DISCONNECT = 2"
| "urc UPDATE_LOST_CONNECTION = 3"

definition ip_info_json_format :: "string \<Rightarrow> string \<Rightarrow> string \<Rightarrow> int \<Rightarrow> string" where
  "ip_info_json_format ip netmask gw code =
     '','' @ [dquote] @ ''ip'' @ [dquote] @ '':'' @ [dquote] @ ip @ [dquote] @
     '','' @ [dquote] @ ''netmask'' @ [dquote] @ '':'' @ [dquote] @ netmask @ [dquote] @
     '','' @ [dquote] @ ''gw'' @ [dquote] @ '':'' @ [dquote] @ gw @ [dquote] @
     '','' @ [dquote] @ ''urc'' @ [dquote] @ '':'' @ fmt_d code @ ''}'' @ [lf]"

text \<open>
  \<open>ip4addr_ntoa\<close> belongs to the network stack and is a parameter, a function of the four bytes
  of the address. The buffers it is copied to have 16 bytes.
\<close>

definition copy_ip :: "(string \<Rightarrow> string) \<Rightarrow> string \<Rightarrow> string result" where
  "copy_ip ntoa bytes = bindE (strcpy (replicate 16 nul) (ntoa bytes)) (\<lambda>b. Inr (c_str b))"

definition ip_json_head :: "sta_config \<Rightarrow> string \<Rightarrow> string result" where
  "ip_json_head config b =
     bindE (memset b nul JSON_IP_INFO_SIZE) (\<lambda>b.
     bindE (strcpy b (''{'' @ [dquote] @ ''ssid'' @ [dquote] @ '':'')) (\<lambda>b.
     print_at_end (c_str (sta_ssid config @ sta_password config @ [nul])) b))"

definition snprintf_at_end :: "string \<Rightarrow> nat \<Rightarrow> string \<Rightarrow> string result" where
  "snprintf_at_end b sz text = bindE (strlen b) (\<lambda>n. snprintf b n sz text)"

definition wifi_manager_generate_ip_info_json ::
    "(string \<Rightarrow> string) \<Rightarrow> update_reason_code \<Rightarrow> wifi_state \<Rightarrow> wifi_state cmd" where
  "wifi_manager_generate_ip_info_json ntoa code st =
     (case config_sta st of
        None \<Rightarrow> liftE (wifi_manager_clear_ip_info_json st)
      | Some config \<Rightarrow>
          bindC (liftE (with_ptr (ip_info_json st) (ip_json_head config))) (\<lambda>b.
          bindC (if code = UPDATE_CONNECTION_OK
                 then bindC (askIS (Wifi TcpipGetIpInfo)) (\<lambda>(r, info).
                      thenC (esp_error_check r)
                      (if length info < 12 then failC Undefined else
                       bindC (liftE (copy_ip ntoa (take 4 info))) (\<lambda>ip.
                       bindC (liftE (copy_ip ntoa (take 4 (drop 4 info)))) (\<lambda>netmask.
                       bindC (liftE (copy_ip ntoa (take 4 (drop 8 info)))) (\<lambda>gw.
                       liftE (snprintf_at_end b JSON_IP_INFO_SIZE (ip_info_json_format ip netmask gw (urc code))))))))
                 else liftE (snprintf_at_end b JSON_IP_INFO_SIZE (ip_info_json_format ''0'' ''0'' ''0'' (urc code))))
            (\<lambda>b. ret (st\<lparr>ip_info_json := Some b\<rparr>))))"

definition wifi_manager_clear_access_points_json :: "wifi_state \<Rightarrow> wifi_state result" where
  "wifi_manager_clear_access_points_json st =
     with_ptr (accessp_json st) (\<lambda>b.
     bindE (strcpy b (''[]'' @ [lf])) (\<lambda>b. Inr (st\<lparr>accessp_json := Some b\<rparr>)))"

definition oneap_str :: "wifi_ap_record \<Rightarrow> bool \<Rightarrow> string" where
  "oneap_str ap final =
     '','' @ [dquote] @ ''chan'' @ [dquote] @ '':'' @ fmt_d (int (primary ap)) @
     '','' @ [dquote] @ ''rssi'' @ [dquote] @ '':'' @ fmt_d (rssi ap) @
     '','' @ [dquote] @ ''auth'' @ [dquote] @ '':'' @ fmt_d (int (authmode ap)) @ ''}'' @
     (if final then '']'' else '','') @ [lf]"

text \<open>The loop over the list; the last record is told by its index.\<close>

fun ap_json_loop :: "wifi_ap_record list \<Rightarrow> string \<Rightarrow> string result" where
  "ap_json_loop [] b = Inr b"
| "ap_json_loop (ap # aps) b =
     bindE (strcat b (''{'' @ [dquote] @ ''ssid'' @ [dquote] @ '':'')) (\<lambda>b.
     bindE (print_at_end (ssid ap) b) (\<lambda>b.
     bindE (snprintf (replicate JSON_ONE_APP_SIZE nul) 0 JSON_ONE_APP_SIZE (oneap_str ap (aps = []))) (\<lambda>one_ap.
     bindE (strcat b (c_str one_ap)) (\<lambda>b. ap_json_loop aps b))))"

definition wifi_manager_generate_acess_points_json :: "wifi_state \<Rightarrow> wifi_state result" where
  "wifi_manager_generate_acess_points_json st =
     with_ptr (accessp_json st) (\<lambda>b.
     bindE (strcpy b ''['') (\<lambda>b.
     if length (accessp_records st) < unat (ap_num st) then Inl OutOfBounds else
     bindE (ap_json_loop (take (unat (ap_num st)) (accessp_records st)) b) (\<lambda>b.
     Inr (st\<lparr>accessp_json := Some b\<rparr>))))"

definition wifi_manager_lock_json_buffer :: "nat option \<Rightarrow> wifi_state \<Rightarrow> bool cmd" where
  "wifi_manager_lock_json_buffer ticks st =
     (if json_mutex st
      then bindC (askI (Rtos (MutexTake ''json'' ticks))) (\<lambda>r. ret (r = 1))
      else ret False)"

definition wifi_manager_unlock_json_buffer :: "unit cmd" where
  "wifi_manager_unlock_json_buffer = doC (Rtos (MutexGive ''json''))"

definition wifi_manager_json_status_update ::
    "(string \<Rightarrow> string) \<Rightarrow> update_reason_code \<Rightarrow> wifi_state \<Rightarrow> wifi_state cmd" where
  "wifi_manager_json_status_update ntoa statusCode st =
     bindC (wifi_manager_lock_json_buffer None st) (\<lambda>ok.
     if ok
     then bindC (wifi_manager_generate_ip_info_json ntoa statusCode st) (\<lambda>st.
          thenC wifi_manager_unlock_json_buffer (ret st))
     else failC Aborted)"

definition wifi_manager_connect_async :: "wifi_state \<Rightarrow> wifi_state cmd" where
  "wifi_manager_connect_async st =
     bindC (wifi_manager_lock_json_buffer None st) (\<lambda>ok.
     bindC (if ok
            then bindC (liftE (wifi_manager_clear_ip_info_json st)) (\<lambda>st.
                 thenC wifi_manager_unlock_json_buffer (ret st))
            else ret st) (\<lambda>st.
     thenC (wm_set WIFI_MANAGER_REQUEST_STA_CONNECT_BIT) (ret st)))"

subsection \<open>Building a text in a buffer\<close>

text \<open>
  The outcome of building a text in a buffer of \<open>cap\<close> bytes: the buffer holds the text, or the
  text did not fit and a write went past the end.
\<close>

definition builds :: "nat \<Rightarrow> string result \<Rightarrow> string \<Rightarrow> bool" where
  "builds cap m t \<longleftrightarrow> (if length t < cap then \<exists>b. m = Inr b \<and> holds cap t b else m = Inl OutOfBounds)"

lemma builds_strcat:
  assumes "builds cap m s" "nul \<notin> set t"
  shows "builds cap (bindE m (\<lambda>b. strcat b t)) (s @ t)"
proof (cases "length s < cap")
  case True
  then obtain b where "m = Inr b" "holds cap s b" using assms(1) by (auto simp: builds_def)
  then show ?thesis
    using assms(2) by (auto simp: builds_def strcat_append intro: app_to_holds)
next
  case False
  then show ?thesis using assms(1) by (simp add: builds_def)
qed

lemma builds_init:
  "length b = cap \<Longrightarrow> nul \<notin> set t \<Longrightarrow> builds cap (strcpy b t) t"
  by (auto simp: builds_def strcpy_fits holds_def)

lemma builds_Inr: "holds cap t b \<Longrightarrow> builds cap (Inr b) t"
  using holds_len [of cap t b] by (simp add: builds_def)

lemma print_at_end_strcat: "print_at_end s b = strcat b (json_quoted s)"
  by (simp add: print_at_end_def strcat_def jp.print_write)

lemma nul_notin_quoted: "nul \<notin> set (json_quoted s)"
  by (rule jp.render_nul)

lemma builds_print:
  "builds cap m s \<Longrightarrow> builds cap (bindE m (print_at_end x)) (s @ json_quoted x)"
  using builds_strcat [OF _ nul_notin_quoted] by (simp add: print_at_end_strcat [abs_def])

lemma snprintf_at_end_strcat: "length t < sz \<Longrightarrow> snprintf_at_end b sz t = strcat b t"
  by (auto simp: snprintf_at_end_def strcat_def snprintf_def)

text \<open>Two calls of \<open>sprintf\<close>, the second at the end of the first's text.\<close>

lemma builds_two_sprintf:
  assumes "builds cap m s" "nul \<notin> set t" "nul \<notin> set u"
  shows "builds cap (bindE m (\<lambda>b. bindE (strlen b) (\<lambda>n. bindE (sprintf b n t) (\<lambda>b. sprintf b (n + length t) u))))
    (s @ t @ u)"
proof (cases "length s < cap")
  case True
  then obtain b where b: "m = Inr b" "holds cap s b" using assms(1) by (auto simp: builds_def)
  have "holds cap (s @ t) (app_to s t b)" if "length s + length t < cap"
    using b(2) assms(2) that by (intro app_to_holds)
  then show ?thesis
    using b assms(2,3) sprintf_append [of cap "s @ t" "app_to s t b" u] app_to_holds [of cap "s @ t" "app_to s t b" u]
    by (auto simp: builds_def holds_strlen [OF b(2)] sprintf_append)
next
  case False
  then show ?thesis using assms(1) by (simp add: builds_def)
qed

lemma memset_all: "length b = n \<Longrightarrow> memset b nul n = Inr (replicate n nul)"
  by (auto simp: memset_def buf_write_def)

lemma holds_zero: "0 < n \<Longrightarrow> holds n [] (replicate n nul)"
  by (cases n) (simp_all add: holds_def)

subsection \<open>The registration\<close>

definition reg_text :: "registration_info \<Rightarrow> string \<Rightarrow> string" where
  "reg_text r mac =
     ''{'' @ [dquote] @ ''name'' @ [dquote] @ '':'' @
     json_quoted (c_str (reg_name r @ reg_email r @ reg_mac r)) @
     '','' @ [dquote] @ ''email'' @ [dquote] @ '':'' @
     json_quoted (c_str (reg_email r @ reg_mac r)) @
     '','' @ [dquote] @ ''mapVisibility'' @ [dquote] @ '':'' @ fmt_d (if reg_hidden r then 0 else 1) @
     '','' @ [dquote] @ ''macAddress'' @ [dquote] @ '':'' @ [dquote] @
     fmt_0X 2 (of_char (mac ! 0)) @ '':'' @ fmt_0X 2 (of_char (mac ! 1)) @ '':'' @
     fmt_0X 2 (of_char (mac ! 2)) @ '':'' @ fmt_0X 2 (of_char (mac ! 3)) @ '':'' @
     fmt_0X 2 (of_char (mac ! 4)) @ '':'' @ fmt_0X 2 (of_char (mac ! 5)) @ [dquote] @ ''}''"

lemma fmt_0X_byte: "length (fmt_0X 2 (of_char c)) = 2" "nul \<notin> set (fmt_0X 2 (of_char c))"
proof -
  have c: "(of_char c :: nat) < 256" "(of_char c :: nat) div 16 < 16"
    using nat_of_char_less_256 [of c] by linarith+
  then show "length (fmt_0X 2 (of_char c)) = 2" "nul \<notin> set (fmt_0X 2 (of_char c))"
    using nul_not_digit(2) [of "of_char c div 16"] nul_not_digit(2) [of "of_char c mod 16"]
    by (auto simp: fmt_0X_two)
qed

lemma builds_reg_json:
  assumes "length b = JSON_REG_INFO_SIZE"
  shows "builds JSON_REG_INFO_SIZE (reg_json_fill r mac b) (reg_text r mac)"
proof -
  let ?n = JSON_REG_INFO_SIZE
  let ?a = "''{'' @ [dquote] @ ''name'' @ [dquote] @ '':''" and ?c = "'','' @ [dquote] @ ''email'' @ [dquote] @ '':''"
  let ?x = "c_str (reg_name r @ reg_email r @ reg_mac r)" and ?y = "c_str (reg_email r @ reg_mac r)"
  let ?vis = "'','' @ [dquote] @ ''mapVisibility'' @ [dquote] @ '':'' @ fmt_d (if reg_hidden r then 0 else 1)"
  let ?h = "\<lambda>i. fmt_0X 2 (of_char (mac ! i))"
  let ?m = "'','' @ [dquote] @ ''macAddress'' @ [dquote] @ '':'' @ [dquote] @
    ?h 0 @ '':'' @ ?h 1 @ '':'' @ ?h 2 @ '':'' @ ?h 3 @ '':'' @ ?h 4 @ '':'' @ ?h 5 @ [dquote] @ ''}''"
  have "builds ?n (Inr (replicate ?n nul)) []"
    by (intro builds_Inr holds_zero) (simp add: wifi_sizes)
  then have "builds ?n (bindE (Inr (replicate ?n nul)) (\<lambda>b. strcat b ?a)) ([] @ ?a)"
    by (rule builds_strcat) simp
  then have "builds ?n (bindE (bindE (Inr (replicate ?n nul)) (\<lambda>b. strcat b ?a)) (print_at_end ?x)) (([] @ ?a) @ json_quoted ?x)"
    by (rule builds_print)
  then have "builds ?n (bindE (bindE (bindE (Inr (replicate ?n nul)) (\<lambda>b. strcat b ?a)) (print_at_end ?x))
      (\<lambda>b. strcat b ?c)) ((([] @ ?a) @ json_quoted ?x) @ ?c)"
    by (rule builds_strcat) simp
  then have "builds ?n (bindE (bindE (bindE (bindE (Inr (replicate ?n nul)) (\<lambda>b. strcat b ?a)) (print_at_end ?x))
      (\<lambda>b. strcat b ?c)) (print_at_end ?y)) (((([] @ ?a) @ json_quoted ?x) @ ?c) @ json_quoted ?y)"
    by (rule builds_print)
  from builds_two_sprintf [OF this, of ?vis ?m] show ?thesis
    using assms nul_notin_fmt_d fmt_0X_byte(2)
    by (simp add: reg_json_fill_def reg_text_def memset_all bindE_assoc Let_def print_at_end_def [abs_def])
qed

lemma length_reg_text:
  "length (reg_text r mac) = 73 + length (json_escape (c_str (reg_name r @ reg_email r @ reg_mac r))) +
     length (json_escape (c_str (reg_email r @ reg_mac r)))"
proof -
  have "length (fmt_d (if reg_hidden r then 0 else 1)) = 1"
    by (simp add: fmt_d_def fmt_u_def show_base.simps [of digit_char 10 0] show_base.simps [of digit_char 10 "Suc 0"])
  then show ?thesis by (simp add: reg_text_def json_quoted_def fmt_0X_byte(1))
qed

text \<open>
  C22: generating the registration JSON yields exactly the text of the user's name, e-mail
  address, visibility and MAC address, escaped, when the two escaped texts are together at most
  295 bytes; otherwise it writes past the buffer, although the fields admit 318 bytes.
\<close>

theorem reg_info_json_exact:
  assumes "wifi_ok st" "reg_info_json st = Some b" "length (ans_bytes e tr (Sys EfuseMacGet)) = 6"
  shows "let r = reg_info st; mac = ans_bytes e tr (Sys EfuseMacGet);
             used = length (json_escape (c_str (reg_name r @ reg_email r @ reg_mac r))) +
                    length (json_escape (c_str (reg_email r @ reg_mac r)))
         in if used \<le> 295
            then \<exists>b'. wifi_manager_generate_reg_info_json st e tr =
                   Inr (st\<lparr>reg_info_json := Some b'\<rparr>, tr @ [Sys EfuseMacGet]) \<and>
                 length b' = JSON_REG_INFO_SIZE \<and> c_str b' = reg_text r mac
            else wifi_manager_generate_reg_info_json st e tr = Inl OutOfBounds"
proof -
  have "length b = JSON_REG_INFO_SIZE" using assms(1,2) by (simp add: wifi_ok_def)
  from builds_reg_json [OF this, of "reg_info st" "ans_bytes e tr (Sys EfuseMacGet)"]
  have "builds 369 (reg_json_fill (reg_info st) (ans_bytes e tr (Sys EfuseMacGet)) b)
      (reg_text (reg_info st) (ans_bytes e tr (Sys EfuseMacGet)))"
    by (simp add: wifi_sizes)
  then show ?thesis
    using assms(2,3)
    by (auto simp: wifi_manager_generate_reg_info_json_def cmd_simps builds_def length_reg_text wifi_sizes
        holds_c_str holds_length split: if_splits)
qed

lemma reg_info_json_exact_witness:
  "\<exists>b' tr. wifi_manager_generate_reg_info_json (wifi_demo\<lparr>reg_info_json := Some (replicate 369 nul)\<rparr>)
      (silent_env\<lparr>ans_bytes := (\<lambda>_ _. ''012345'')\<rparr>) [] =
    Inr (wifi_demo\<lparr>reg_info_json := Some b'\<rparr>, tr) \<and>
    c_str b' = reg_text (reg_info wifi_demo) ''012345''"
proof -
  have "wifi_ok (wifi_demo\<lparr>reg_info_json := Some (replicate 369 nul)\<rparr>)"
    using wifi_demo_ok by (simp add: wifi_ok_def wifi_sizes)
  moreover have "c_str (reg_name (reg_info wifi_demo) @ reg_email (reg_info wifi_demo) @ reg_mac (reg_info wifi_demo)) = []"
    "c_str (reg_email (reg_info wifi_demo) @ reg_mac (reg_info wifi_demo)) = []"
    by (simp_all add: wifi_demo_def c_str_def)
  ultimately show ?thesis
    using reg_info_json_exact [of "wifi_demo\<lparr>reg_info_json := Some (replicate 369 nul)\<rparr>" "replicate 369 nul"
        "silent_env\<lparr>ans_bytes := (\<lambda>_ _. ''012345'')\<rparr>" "[]"]
    by (auto simp: Let_def json_escape_simps)
qed

subsection \<open>The connection status\<close>

definition ip_text :: "sta_config \<Rightarrow> string \<Rightarrow> string \<Rightarrow> string \<Rightarrow> int \<Rightarrow> string" where
  "ip_text config ip netmask gw code =
     ''{'' @ [dquote] @ ''ssid'' @ [dquote] @ '':'' @
     json_quoted (c_str (sta_ssid config @ sta_password config @ [nul])) @
     ip_info_json_format ip netmask gw code"

lemma builds_ip_head:
  assumes "length b = JSON_IP_INFO_SIZE"
  shows "builds JSON_IP_INFO_SIZE (ip_json_head config b)
    (''{'' @ [dquote] @ ''ssid'' @ [dquote] @ '':'' @ json_quoted (c_str (sta_ssid config @ sta_password config @ [nul])))"
proof -
  let ?a = "''{'' @ [dquote] @ ''ssid'' @ [dquote] @ '':''"
  have "builds JSON_IP_INFO_SIZE (strcpy (replicate JSON_IP_INFO_SIZE nul) ?a) ?a"
    by (rule builds_init) simp_all
  from builds_print [OF this] show ?thesis
    using assms by (simp add: ip_json_head_def memset_all print_at_end_def [abs_def])
qed

lemma length_urc: "length (fmt_d (urc code)) = 1"
proof (cases code)
qed (simp_all add: fmt_d_def fmt_u_def show_base.simps)

lemma length_ip_format:
  "length (ip_info_json_format ip netmask gw (urc code)) = 39 + length ip + length netmask + length gw"
  by (simp add: ip_info_json_format_def length_urc)

lemma builds_ip_json:
  assumes "length b = JSON_IP_INFO_SIZE" "nul \<notin> set ip" "nul \<notin> set netmask" "nul \<notin> set gw"
    and "length ip \<le> 15" "length netmask \<le> 15" "length gw \<le> 15"
  shows "builds JSON_IP_INFO_SIZE
    (bindE (ip_json_head config b) (\<lambda>b. snprintf_at_end b JSON_IP_INFO_SIZE (ip_info_json_format ip netmask gw (urc code))))
    (ip_text config ip netmask gw (urc code))"
proof -
  let ?t = "ip_info_json_format ip netmask gw (urc code)"
  have "length ?t < JSON_IP_INFO_SIZE"
    using assms(5-7) by (simp add: length_ip_format wifi_sizes)
  moreover have "nul \<notin> set ?t"
    using assms(2-4) nul_notin_fmt_d by (simp add: ip_info_json_format_def)
  ultimately show ?thesis
    using builds_strcat [OF builds_ip_head [OF assms(1)], of ?t config]
    by (simp add: snprintf_at_end_strcat ip_text_def)
qed

lemma copy_ip_short: "length (ntoa x) \<le> 15 \<Longrightarrow> nul \<notin> set (ntoa x) \<Longrightarrow> copy_ip ntoa x = Inr (ntoa x)"
  by (simp add: copy_ip_def strcpy_fits c_str_def takeWhile_no)

text \<open>
  The network stack writes an address in at most 15 characters. The reported addresses are the
  parts of the answer to the query of the interface, or zeros when there is no connection.
\<close>

definition ip_fields :: "(string \<Rightarrow> string) \<Rightarrow> update_reason_code \<Rightarrow> string \<Rightarrow> string \<times> string \<times> string" where
  "ip_fields ntoa code info =
     (if code = UPDATE_CONNECTION_OK
      then (ntoa (take 4 info), ntoa (take 4 (drop 4 info)), ntoa (take 4 (drop 8 info)))
      else (''0'', ''0'', ''0''))"

text \<open>
  C23: the status JSON is exactly the escaped SSID, the three addresses and the reason code, when
  that text has fewer than 150 bytes; otherwise the write goes past the buffer (\<open>snprintf\<close> is
  given the size of the whole buffer, not of what is left of it). The SSID is what is in its
  field up to a NUL: an SSID of 32 characters has none, and the text goes on with the password.
\<close>

theorem ip_info_json_exact:
  assumes "wifi_ok st" "ip_info_json st = Some b" "config_sta st = Some config"
    and "\<And>x. length (ntoa x) \<le> 15 \<and> nul \<notin> set (ntoa x)"
    and "ans_int e tr (Wifi TcpipGetIpInfo) = ESP_OK" "length (ans_bytes e tr (Wifi TcpipGetIpInfo)) = 12"
  shows "let (ip, netmask, gw) = ip_fields ntoa code (ans_bytes e tr (Wifi TcpipGetIpInfo));
             t = ip_text config ip netmask gw (urc code);
             tr' = (if code = UPDATE_CONNECTION_OK then tr @ [Wifi TcpipGetIpInfo] else tr)
         in if length t < JSON_IP_INFO_SIZE
            then \<exists>b'. wifi_manager_generate_ip_info_json ntoa code st e tr =
                   Inr (st\<lparr>ip_info_json := Some b'\<rparr>, tr') \<and> length b' = JSON_IP_INFO_SIZE \<and> c_str b' = t
            else wifi_manager_generate_ip_info_json ntoa code st e tr = Inl OutOfBounds"
proof -
  obtain ip netmask gw where f: "ip_fields ntoa code (ans_bytes e tr (Wifi TcpipGetIpInfo)) = (ip, netmask, gw)"
    by (cases "ip_fields ntoa code (ans_bytes e tr (Wifi TcpipGetIpInfo))")
  have lens: "length ip \<le> 15 \<and> nul \<notin> set ip" "length netmask \<le> 15 \<and> nul \<notin> set netmask" "length gw \<le> 15 \<and> nul \<notin> set gw"
    using f assms(4) by (auto simp: ip_fields_def split: if_splits)
  have len: "length b = JSON_IP_INFO_SIZE" using assms(1,2) by (simp add: wifi_ok_def)
  let ?t = "ip_text config ip netmask gw (urc code)"
  let ?r = "bindE (ip_json_head config b) (\<lambda>b. snprintf_at_end b JSON_IP_INFO_SIZE (ip_info_json_format ip netmask gw (urc code)))"
  let ?tr = "if code = UPDATE_CONNECTION_OK then tr @ [Wifi TcpipGetIpInfo] else tr"
  have run: "wifi_manager_generate_ip_info_json ntoa code st e tr =
      bindE ?r (\<lambda>b. Inr (st\<lparr>ip_info_json := Some b\<rparr>, ?tr))"
    using assms(2-6) f copy_ip_short [of ntoa] snprintf_at_end_def
    by (cases "ip_json_head config b"; cases "code = UPDATE_CONNECTION_OK")
       (auto simp: wifi_manager_generate_ip_info_json_def cmd_simps ip_fields_def liftE_def split: sum.splits)
  have "builds JSON_IP_INFO_SIZE ?r ?t"
    using lens len by (intro builds_ip_json) auto
  then show ?thesis
    unfolding f run Let_def prod.case by (auto simp: builds_def holds_c_str holds_length split: if_splits)
qed

definition ip_demo :: wifi_state where
  "ip_demo = wifi_demo\<lparr>ip_info_json := Some (replicate 150 nul)\<rparr>"

lemma ip_info_json_exact_witness:
  "\<exists>b'. wifi_manager_generate_ip_info_json (\<lambda>_. ''10.0.0.1'') UPDATE_CONNECTION_OK ip_demo
     (silent_env\<lparr>ans_bytes := (\<lambda>_ _. replicate 12 CHR ''a'')\<rparr>) [] =
     Inr (ip_demo\<lparr>ip_info_json := Some b'\<rparr>, [Wifi TcpipGetIpInfo]) \<and>
   c_str b' = ip_text (the (config_sta ip_demo)) ''10.0.0.1'' ''10.0.0.1'' ''10.0.0.1'' 0"
proof -
  let ?c = "\<lparr>sta_ssid = ''home'' @ replicate 28 nul, sta_password = ''secret'' @ replicate 58 nul\<rparr> :: sta_config"
  have c: "config_sta ip_demo = Some ?c" "wifi_ok ip_demo" "ip_info_json ip_demo = Some (replicate 150 nul)"
    using wifi_demo_ok by (simp_all add: ip_demo_def wifi_ok_def wifi_sizes) (simp add: wifi_demo_def)
  have s: "c_str (sta_ssid ?c @ sta_password ?c @ [nul]) = ''home''"
    by (simp add: c_str_def)
  have "json_escape ''home'' = ''home''" by code_simp
  then have "length (ip_text ?c ''10.0.0.1'' ''10.0.0.1'' ''10.0.0.1'' (urc UPDATE_CONNECTION_OK)) < JSON_IP_INFO_SIZE"
    unfolding ip_text_def s by (simp add: length_ip_format json_quoted_def wifi_sizes del: urc.simps)
  then show ?thesis
    using ip_info_json_exact [of ip_demo "replicate 150 nul" ?c "\<lambda>_. ''10.0.0.1''"
        "silent_env\<lparr>ans_bytes := (\<lambda>_ _. replicate 12 CHR ''a'')\<rparr>" "[]" UPDATE_CONNECTION_OK] c
    by (auto simp: ip_fields_def Let_def)
qed

subsection \<open>The list of access points\<close>

fun ap_entries :: "wifi_ap_record list \<Rightarrow> string" where
  "ap_entries [] = []"
| "ap_entries (ap # aps) =
     ''{'' @ [dquote] @ ''ssid'' @ [dquote] @ '':'' @ json_quoted (ssid ap) @ oneap_str ap (aps = []) @ ap_entries aps"

text \<open>The ranges of the fields of a record, from the types of the driver.\<close>

definition ap_ok :: "wifi_ap_record \<Rightarrow> bool" where
  "ap_ok ap \<longleftrightarrow> length (ssid ap) \<le> 32 \<and> nul \<notin> set (ssid ap) \<and> primary ap < 256 \<and>
     - 128 \<le> rssi ap \<and> rssi ap \<le> 127 \<and> authmode ap < 10"

lemma length_fmt_d_byte: "- 128 \<le> i \<Longrightarrow> i < 256 \<Longrightarrow> length (fmt_d i) \<le> 4"
proof -
  assume "- 128 \<le> i" "i < 256"
  then have "nat (- i) < 1000" "nat i < 1000" by linarith+
  then show ?thesis
    using length_fmt_u [of "nat (- i)" 3] length_fmt_u [of "nat i" 3] by (simp add: fmt_d_def)
qed

lemma length_oneap_str:
  assumes "ap_ok ap"
  shows "length (oneap_str ap final) \<le> 35"
proof -
  have "length (fmt_d (int (primary ap))) \<le> 3"
    using assms length_fmt_u [of "primary ap" 3] by (simp add: ap_ok_def fmt_d_def)
  moreover have "length (fmt_d (int (authmode ap))) \<le> 1"
    using assms length_fmt_u [of "authmode ap" 1] by (simp add: ap_ok_def fmt_d_def)
  moreover have "length (fmt_d (rssi ap)) \<le> 4"
    using assms by (intro length_fmt_d_byte) (simp_all add: ap_ok_def)
  ultimately show ?thesis by (simp add: oneap_str_def)
qed

lemma one_ap_text:
  assumes "ap_ok ap"
  shows "\<exists>c. snprintf (replicate JSON_ONE_APP_SIZE nul) 0 JSON_ONE_APP_SIZE (oneap_str ap final) = Inr c \<and>
    c_str c = oneap_str ap final"
proof -
  have "nul \<notin> set (oneap_str ap final)"
    using nul_notin_fmt_d by (simp add: oneap_str_def)
  then show ?thesis
    using length_oneap_str [OF assms, of final]
    by (simp add: snprintf_def buf_write_def wifi_sizes c_str_def takeWhile_no)
qed

lemma builds_ap_loop:
  assumes "builds cap m s" "\<forall>ap \<in> set aps. ap_ok ap"
  shows "builds cap (bindE m (ap_json_loop aps)) (s @ ap_entries aps)"
  using assms
proof (induction aps arbitrary: m s)
  case Nil
  then show ?case by (cases m) simp_all
next
  case (Cons ap aps)
  let ?a = "''{'' @ [dquote] @ ''ssid'' @ [dquote] @ '':''" and ?o = "oneap_str ap (aps = [])"
  obtain c where c: "snprintf (replicate JSON_ONE_APP_SIZE nul) 0 JSON_ONE_APP_SIZE ?o = Inr c" "c_str c = ?o"
    using one_ap_text [of ap "aps = []"] Cons.prems(2) by auto
  have "builds cap (bindE m (\<lambda>b. strcat b ?a)) (s @ ?a)"
    using Cons.prems(1) by (rule builds_strcat) simp
  from builds_print [OF this, of "ssid ap"]
  have "builds cap (bindE (bindE (bindE m (\<lambda>b. strcat b ?a)) (print_at_end (ssid ap))) (\<lambda>b. strcat b ?o))
      (((s @ ?a) @ json_quoted (ssid ap)) @ ?o)"
    by (rule builds_strcat) (simp add: oneap_str_def nul_notin_fmt_d)
  from Cons.IH [OF this] show ?case
    using Cons.prems(2) c by (simp add: bindE_assoc)
qed

lemma length_ap_entries:
  assumes "\<forall>ap \<in> set aps. ap_ok ap"
  shows "length (ap_entries aps) \<le> 77 * length aps + sum_list (map (escape_characters \<circ> ssid) aps)"
  using assms
proof (induction aps)
  case (Cons ap aps)
  then have "length (oneap_str ap (aps = [])) \<le> 35" "length (ssid ap) \<le> 32"
    by (auto intro: length_oneap_str simp: ap_ok_def)
  then show ?case
    using Cons by (simp add: json_quoted_def length_json_escape)
qed simp

lemma access_points_json_builds:
  assumes "wifi_ok st" "accessp_json st = Some b" "\<forall>ap \<in> set (take (unat (ap_num st)) (accessp_records st)). ap_ok ap"
  shows "builds 1489 (bindE (wifi_manager_generate_acess_points_json st) (\<lambda>st'. with_ptr (accessp_json st') Inr))
      (''['' @ ap_entries (take (unat (ap_num st)) (accessp_records st))) \<and>
    (\<forall>st'. wifi_manager_generate_acess_points_json st = Inr st' \<longrightarrow>
       (\<exists>b'. st' = st\<lparr>accessp_json := Some b'\<rparr>))"
proof -
  let ?aps = "take (unat (ap_num st)) (accessp_records st)"
  have n: "\<not> length (accessp_records st) < unat (ap_num st)" "length b = 1489"
    using assms(1,2) by (simp_all add: wifi_ok_def wifi_sizes)
  have "builds 1489 (strcpy b ''['') ''[''"
    using n(2) by (intro builds_init) simp_all
  from builds_ap_loop [OF this assms(3)] show ?thesis
    using assms(2) n(1)
    by (cases "strcpy b ''[''")
       (auto simp: wifi_manager_generate_acess_points_json_def bindE_assoc bindE_eq_Inr)
qed

text \<open>
  C24: the list of access points is exactly the entries of the first \<open>ap_num\<close> records in order,
  each with its escaped SSID, channel, signal and authentication mode, when the text has fewer
  than 1489 bytes, and otherwise a write goes past the buffer. It always fits when escaping the
  SSIDs takes at most 330 bytes together; in particular when no SSID needs escaping. (An empty
  list leaves \<open>[\<close>, which is not JSON.)
\<close>

theorem access_points_json_exact:
  assumes "wifi_ok st" "accessp_json st = Some b" "\<forall>ap \<in> set (accessp_records st). ap_ok ap"
  shows "let aps = take (unat (ap_num st)) (accessp_records st); t = ''['' @ ap_entries aps
         in (if length t < 1489
             then \<exists>b'. wifi_manager_generate_acess_points_json st = Inr (st\<lparr>accessp_json := Some b'\<rparr>) \<and>
                  length b' = 1489 \<and> c_str b' = t
             else wifi_manager_generate_acess_points_json st = Inl OutOfBounds) \<and>
            (sum_list (map (escape_characters \<circ> ssid) aps) \<le> 330 \<longrightarrow> length t < 1489)"
proof -
  let ?aps = "take (unat (ap_num st)) (accessp_records st)"
  have ok: "\<forall>ap \<in> set ?aps. ap_ok ap" using assms(3) by (meson in_set_takeD)
  have n: "length ?aps \<le> 15" using assms(1) by (simp add: wifi_ok_def wifi_sizes)
  have 1: "if length (''['' @ ap_entries ?aps) < 1489
             then \<exists>b'. wifi_manager_generate_acess_points_json st = Inr (st\<lparr>accessp_json := Some b'\<rparr>) \<and>
                  length b' = 1489 \<and> c_str b' = ''['' @ ap_entries ?aps
             else wifi_manager_generate_acess_points_json st = Inl OutOfBounds"
    using access_points_json_builds [OF assms(1,2) ok]
    by (cases "wifi_manager_generate_acess_points_json st")
       (auto simp: builds_def holds_c_str holds_length split: if_splits)
  have "length (ap_entries ?aps) \<le> 77 * length ?aps + sum_list (map (escape_characters \<circ> ssid) ?aps)"
    by (rule length_ap_entries [OF ok])
  also have "77 * length ?aps \<le> 77 * 15" using n by (rule mult_le_mono2)
  finally have "sum_list (map (escape_characters \<circ> ssid) ?aps) \<le> 330 \<longrightarrow> length (''['' @ ap_entries ?aps) < 1489"
    by (simp add: comp_def)
  with 1 show ?thesis by (simp only: Let_def)
qed

definition ap_demo :: "nat \<Rightarrow> wifi_state" where
  "ap_demo n = wifi_demo\<lparr>accessp_json := Some (replicate 1489 nul), ap_num := of_nat n,
     accessp_records := replicate 15 \<lparr>ssid = replicate 32 dquote, primary = 12, rssi = - 100, authmode = 4, ap_other = []\<rparr>\<rparr>"

lemma access_points_json_exact_witness:
  "\<exists>b'. wifi_manager_generate_acess_points_json (ap_demo 1) = Inr ((ap_demo 1)\<lparr>accessp_json := Some b'\<rparr>) \<and>
     c_str b' = ''['' @ ap_entries (take 1 (accessp_records (ap_demo 1)))"
proof -
  have ok: "wifi_ok (ap_demo 1)" "\<forall>ap \<in> set (accessp_records (ap_demo 1)). ap_ok ap"
    "accessp_json (ap_demo 1) = Some (replicate 1489 nul)" "unat (ap_num (ap_demo 1)) = 1"
    using wifi_demo_ok by (simp_all add: ap_demo_def wifi_ok_def wifi_sizes ap_ok_def)
  have "escape_characters (replicate 32 dquote) = 32" by code_simp
  then have "sum_list (map (escape_characters \<circ> ssid) (take 1 (accessp_records (ap_demo 1)))) \<le> 330"
    by (simp add: ap_demo_def)
  then show ?thesis
    using access_points_json_exact [OF ok(1,3,2)] ok(4) by (auto simp: Let_def)
qed

lemma ap_entries_replicate:
  assumes "length (oneap_str ap False) = k" "length (oneap_str ap True) = k"
  shows "length (ap_entries (replicate n ap)) = n * (8 + length (json_quoted (ssid ap)) + k)"
proof (induction n)
  case (Suc n)
  then show ?case using assms by (cases n) (simp_all add: algebra_simps)
qed simp

text \<open>
  The case the header file sizes the buffer for, fifteen SSIDs of 32 quotation marks each,
  overruns it: such an entry takes 108 bytes and a terminator, 77 + 32, which the header computes as 99.
\<close>

theorem access_points_json_overruns:
  "\<exists>st b. wifi_ok st \<and> accessp_json st = Some b \<and> list_all (\<lambda>ap. ap_ok ap \<and> ssid ap = replicate 32 dquote) (accessp_records st) \<and>
     wifi_manager_generate_acess_points_json st = Inl OutOfBounds"
proof -
  let ?ap = "\<lparr>ssid = replicate 32 dquote, primary = 12, rssi = - 100, authmode = 4, ap_other = []\<rparr>"
  have ok: "wifi_ok (ap_demo 15)" "\<forall>ap \<in> set (accessp_records (ap_demo 15)). ap_ok ap \<and> ssid ap = replicate 32 dquote"
    "accessp_json (ap_demo 15) = Some (replicate 1489 nul)" "unat (ap_num (ap_demo 15)) = 15"
    "accessp_records (ap_demo 15) = replicate 15 ?ap"
    using wifi_demo_ok by (simp_all add: ap_demo_def wifi_ok_def wifi_sizes ap_ok_def)
  have len: "length (oneap_str ?ap False) = 34" "length (oneap_str ?ap True) = 34" "length (json_quoted (ssid ?ap)) = 66"
    by code_simp+
  have "length (ap_entries (replicate 15 ?ap)) = 15 * (8 + 66 + 34)"
    using ap_entries_replicate [OF len(1,2), of 15] len(3) by (simp only:)
  then have "\<not> length (''['' @ ap_entries (take (unat (ap_num (ap_demo 15))) (accessp_records (ap_demo 15)))) < 1489"
    by (simp only: ok(4,5) take_replicate min.idem length_append) simp
  moreover have taken: "\<forall>ap \<in> set (take (unat (ap_num (ap_demo 15))) (accessp_records (ap_demo 15))). ap_ok ap"
    using ok(2) by (meson in_set_takeD)
  ultimately have "wifi_manager_generate_acess_points_json (ap_demo 15) = Inl OutOfBounds"
    using access_points_json_builds [OF ok(1,3) taken]
    by (cases "wifi_manager_generate_acess_points_json (ap_demo 15)") (auto simp: builds_def simp del: ap_entries.simps)
  then show ?thesis using ok unfolding list_all_iff by blast
qed

end
