(* ===== verification/WifiManager.thy ===== *)
theory WifiManager
  imports WifiJson Led Trace
begin

text \<open>
  The Wi-Fi manager task, \<open>main/wifi_manager.c\<close>: the handler of the driver's events, the
  connection check, the start-up of the task and one turn of its loop. The handler, the timer and
  the ping callback run in other tasks; each is a definition of its own, and what they do to the
  event bits while the manager waits is in the answers of the environment.
\<close>

subsection \<open>Events\<close>

datatype system_event =
    SYSTEM_EVENT_AP_START
  | SYSTEM_EVENT_AP_STACONNECTED
  | SYSTEM_EVENT_AP_STADISCONNECTED
  | SYSTEM_EVENT_STA_START
  | SYSTEM_EVENT_STA_GOT_IP
  | SYSTEM_EVENT_STA_DISCONNECTED nat \<comment> \<open>the reason\<close>
  | SYSTEM_EVENT_OTHER

definition WIFI_REASON_ASSOC_LEAVE :: nat where "WIFI_REASON_ASSOC_LEAVE = 8"
definition WIFI_REASON_4WAY_HANDSHAKE_TIMEOUT :: nat where "WIFI_REASON_4WAY_HANDSHAKE_TIMEOUT = 15"
definition WIFI_REASON_AUTH_FAIL :: nat where "WIFI_REASON_AUTH_FAIL = 202"

fun wifi_manager_event_handler :: "system_event \<Rightarrow> esp_err cmd" where
  "wifi_manager_event_handler SYSTEM_EVENT_AP_START =
     thenC (wm_set WIFI_MANAGER_AP_STARTED) (ret ESP_OK)"
| "wifi_manager_event_handler SYSTEM_EVENT_AP_STACONNECTED =
     thenC (wm_set WIFI_MANAGER_AP_STA_CONNECTED_BIT) (ret ESP_OK)"
| "wifi_manager_event_handler SYSTEM_EVENT_AP_STADISCONNECTED =
     thenC (wm_clear WIFI_MANAGER_AP_STA_CONNECTED_BIT) (ret ESP_OK)"
| "wifi_manager_event_handler SYSTEM_EVENT_STA_GOT_IP =
     thenC (seqC [wm_set WIFI_MANAGER_WIFI_CONNECTED_BIT, wm_clear WIFI_MANAGER_REQUEST_RECONNECT,
                  LED_SetEventBit LED_EVENT_WIFI_CONNECTED_BIT]) (ret ESP_OK)"
| "wifi_manager_event_handler (SYSTEM_EVENT_STA_DISCONNECTED reason) =
     thenC (seqC [whenC (reason \<noteq> WIFI_REASON_ASSOC_LEAVE \<and> reason \<noteq> WIFI_REASON_4WAY_HANDSHAKE_TIMEOUT \<and>
                         reason \<noteq> WIFI_REASON_AUTH_FAIL) (wm_set WIFI_MANAGER_REQUEST_STA_CONNECT_BIT),
                  wm_set WIFI_MANAGER_STA_DISCONNECT_BIT,
                  wm_clear WIFI_MANAGER_WIFI_CONNECTED_BIT,
                  wm_clear WIFI_MANAGER_HAVE_INTERNET_BIT,
                  LED_SetEventBit LED_EVENT_WIFI_DISCONNECTED_BIT]) (ret ESP_OK)"
| "wifi_manager_event_handler _ = ret ESP_OK"

definition wifi_timer_callback :: "unit cmd" where
  "wifi_timer_callback =
     seqC [doC (Rtos (TimerStop ''wifi_reconnect_timer'')), wm_set WIFI_MANAGER_REQUEST_PING_TEST]"

subsection \<open>The connection check\<close>

text \<open>Ticks, and the waiting times in them.\<close>

definition MS2TICK :: "nat \<Rightarrow> nat" where "MS2TICK ms = ms div portTICK_PERIOD_MS"
definition ONE_SECOND_DELAY :: nat where "ONE_SECOND_DELAY = 1000 div portTICK_PERIOD_MS"
definition RECONNECT_RETRY_PERIOD :: nat where "RECONNECT_RETRY_PERIOD = 30 * ONE_SECOND_DELAY"
definition PING_TEST_TIMEOUT_MS :: nat where "PING_TEST_TIMEOUT_MS = 3000"

definition ERR_WIFI_DISCONECTED :: int where "ERR_WIFI_DISCONECTED = - 2"

definition pingResults :: "nat \<Rightarrow> wifi_state \<Rightarrow> (esp_err \<times> wifi_state) cmd" where
  "pingResults recv_count st =
     (if recv_count > 0
      then thenC (seqC [wm_set WIFI_MANAGER_HAVE_INTERNET_BIT, LED_SetEventBit LED_EVENT_WIFI_CONNECTED_BIT,
                        doC (Rtos (TimerStop ''wifi_reconnect_timer''))]) (ret (ESP_OK, st))
      else bindC (wifi_manager_connect_async st) (\<lambda>st. ret (ESP_OK, st)))"

definition wifi_manager_ping_test :: "unit cmd" where
  "wifi_manager_ping_test =
     seqC [wm_clear WIFI_MANAGER_HAVE_INTERNET_BIT, LED_SetEventBit LED_EVENT_WIFI_DISCONNECTED_BIT,
           doC (Wifi (PingSetTarget ''count 1'')), doC (Wifi (PingSetTarget ''timeout 3000'')),
           doC (Wifi (PingSetTarget ''8.8.8.8'')), doC (Wifi (PingSetTarget ''pingResults'')),
           doC (Wifi PingInit)]"

text \<open>Start the reconnect timer unless it is running.\<close>

definition start_reconnect_timer :: "unit cmd" where
  "start_reconnect_timer =
     bindC (askI (Rtos (TimerIsActive ''wifi_reconnect_timer''))) (\<lambda>active.
     whenC (active = 0) (doC (Rtos (TimerStart ''wifi_reconnect_timer''))))"

definition wifi_manager_check_connection :: "int cmd" where
  "wifi_manager_check_connection =
     bindC wifi_manager_connected_to_access_point (\<lambda>connected.
     if connected
     then thenC wifi_manager_ping_test
          (bindC (askB (Rtos (EventGroupWaitBits WifiGroup WIFI_MANAGER_HAVE_INTERNET_BIT False True (Some (MS2TICK PING_TEST_TIMEOUT_MS))))) (\<lambda>bits.
           let r = uint (WIFI_MANAGER_HAVE_INTERNET_BIT AND bits) in
           thenC (whenC (r = 0) (seqC [LED_SetEventBit LED_EVENT_WIFI_DISCONNECTED_BIT, start_reconnect_timer]))
             (ret r)))
     else ret ERR_WIFI_DISCONECTED)"

subsection \<open>One turn of the task\<close>

definition checkC :: "call \<Rightarrow> unit cmd" where
  "checkC c = bindC (askI c) esp_error_check"

definition wait_disconnected :: "unit cmd" where
  "wait_disconnected =
     bindC (askB (Rtos (EventGroupWaitBits WifiGroup WIFI_MANAGER_STA_DISCONNECT_BIT False True None))) (\<lambda>_. ret ())"

definition turn_disconnect :: "(string \<Rightarrow> string) \<Rightarrow> u32 \<Rightarrow> wifi_state \<Rightarrow> wifi_state cmd" where
  "turn_disconnect ntoa uxBits st =
     thenC (seqC [wm_clear WIFI_MANAGER_HAVE_INTERNET_BIT, LED_SetEventBit LED_EVENT_WIFI_DISCONNECTED_BIT,
                  whenC (uxBits AND WIFI_MANAGER_WIFI_CONNECTED_BIT \<noteq> 0)
                    (seqC [wm_clear WIFI_MANAGER_STA_DISCONNECT_BIT, checkC (Wifi WifiDisconnect), wait_disconnected]),
                  wm_clear WIFI_MANAGER_STA_DISCONNECT_BIT])
     (let st = (case config_sta st of None \<Rightarrow> st | Some _ \<Rightarrow> st\<lparr>config_sta := Some zero_sta\<rparr>) in
      bindC (wifi_manager_save_sta_config st) (\<lambda>_.
      bindC (wifi_manager_json_status_update ntoa UPDATE_USER_DISCONNECT st) (\<lambda>st.
      thenC (wm_clear WIFI_MANAGER_REQUEST_WIFI_DISCONNECT) (ret st))))"

text \<open>A null configuration is passed on to the driver.\<close>

definition set_sta_config :: "wifi_state \<Rightarrow> unit cmd" where
  "set_sta_config st =
     (case config_sta st of None \<Rightarrow> doC (Wifi (WifiSetConfigSta [] []))
      | Some c \<Rightarrow> doC (Wifi (WifiSetConfigSta (sta_ssid c) (sta_password c))))"

definition turn_connect :: "(string \<Rightarrow> string) \<Rightarrow> u32 \<Rightarrow> wifi_state \<Rightarrow> wifi_state cmd" where
  "turn_connect ntoa uxBits st =
     thenC (seqC [whenC (uxBits AND WIFI_MANAGER_WIFI_CONNECTED_BIT = WIFI_MANAGER_WIFI_CONNECTED_BIT)
                    (seqC [wm_clear WIFI_MANAGER_STA_DISCONNECT_BIT, checkC (Wifi WifiDisconnect), wait_disconnected]),
                  wm_clear WIFI_MANAGER_STA_DISCONNECT_BIT, set_sta_config st, doC (Wifi WifiConnect)])
     (bindC (askB (Rtos (EventGroupWaitBits WifiGroup
               (WIFI_MANAGER_WIFI_CONNECTED_BIT OR WIFI_MANAGER_STA_DISCONNECT_BIT) False False None))) (\<lambda>uxBits.
      bindC (if uxBits AND (WIFI_MANAGER_WIFI_CONNECTED_BIT OR WIFI_MANAGER_STA_DISCONNECT_BIT) \<noteq> 0
             then (if uxBits AND WIFI_MANAGER_WIFI_CONNECTED_BIT \<noteq> 0
                   then bindC (wifi_manager_json_status_update ntoa UPDATE_CONNECTION_OK st) (\<lambda>st.
                        thenC (LED_SetEventBit LED_EVENT_WIFI_CONNECTED_BIT)
                        (bindC (wifi_manager_save_sta_config st) (\<lambda>_.
                         bindC wifi_manager_check_connection (\<lambda>r.
                         thenC (if r = 1 then wm_clear WIFI_MANAGER_REQUEST_RECONNECT else start_reconnect_timer)
                           (ret st)))))
                   else bindC (wifi_manager_json_status_update ntoa UPDATE_FAILED_ATTEMPT st) (\<lambda>st.
                        thenC (LED_SetEventBit LED_EVENT_WIFI_DISCONNECTED_BIT)
                        (case config_sta st of
                           None \<Rightarrow> failC NullDeref
                         | Some _ \<Rightarrow>
                             thenC (wm_set WIFI_MANAGER_STA_DISCONNECT_BIT)
                               (ret (st\<lparr>config_sta := Some zero_sta\<rparr>)))))
             else thenC (wm_set WIFI_MANAGER_STA_DISCONNECT_BIT) (ret st)) (\<lambda>st.
      thenC (wm_clear WIFI_MANAGER_REQUEST_STA_CONNECT_BIT) (ret st))))"

text \<open>The records of a scan replace the front of the array.\<close>

definition turn_scan :: "u32 \<Rightarrow> wifi_state \<Rightarrow> wifi_state cmd" where
  "turn_scan uxBits st =
     (let st = st\<lparr>ap_num := of_nat MAX_AP_NUM\<rparr> in
      bindC (if uxBits AND WIFI_MANAGER_REQUEST_STA_CONNECT_BIT = 0
             then thenC (checkC (Wifi WifiScanStart))
                  (bindC (askA (Wifi (WifiScanGetApRecords (unat (ap_num st))))) (\<lambda>(r, aps).
                   thenC (esp_error_check r)
                   (let st = st\<lparr>ap_num := of_nat (length aps),
                               accessp_records := aps @ drop (length aps) (accessp_records st)\<rparr> in
                    bindC (wifi_manager_lock_json_buffer (Some 20) st) (\<lambda>ok.
                    if ok
                    then bindC (wifi_manager_filter_unique (accessp_records st) (ap_num st)) (\<lambda>(l, n).
                         bindC (liftE (wifi_manager_generate_acess_points_json
                                  (st\<lparr>accessp_records := l, ap_num := n\<rparr>))) (\<lambda>st.
                         thenC wifi_manager_unlock_json_buffer (ret st)))
                    else ret st))))
             else thenC (wm_set WIFI_MANAGER_REQUEST_WIFI_DISCONNECT) (ret st)) (\<lambda>st.
      thenC (wm_clear WIFI_MANAGER_REQUEST_WIFI_SCAN) (ret st)))"

definition turn_ping :: "wifi_state \<Rightarrow> wifi_state cmd" where
  "turn_ping st =
     bindC wifi_manager_check_connection (\<lambda>r.
     bindC (if r = ERR_WIFI_DISCONECTED
            then bindC (wifi_manager_fetch_wifi_sta_config st) (\<lambda>(_, st).
                 case config_sta st of
                   None \<Rightarrow> failC NullDeref
                 | Some c \<Rightarrow>
                     if c_str (sta_ssid c @ sta_password c @ [nul]) \<noteq> [] then wifi_manager_connect_async st
                     else ret st)
            else ret st) (\<lambda>st.
     thenC (wm_clear WIFI_MANAGER_REQUEST_PING_TEST) (ret st)))"

definition turn_mask :: u32 where
  "turn_mask = WIFI_MANAGER_REQUEST_STA_CONNECT_BIT OR WIFI_MANAGER_REQUEST_WIFI_SCAN OR
     WIFI_MANAGER_REQUEST_WIFI_DISCONNECT OR WIFI_MANAGER_REQUEST_PING_TEST"

definition wifi_manager_turn :: "(string \<Rightarrow> string) \<Rightarrow> wifi_state \<Rightarrow> wifi_state cmd" where
  "wifi_manager_turn ntoa st =
     bindC (askB (Rtos (EventGroupWaitBits WifiGroup turn_mask False False None))) (\<lambda>uxBits.
     bindC (if uxBits AND WIFI_MANAGER_REQUEST_WIFI_DISCONNECT \<noteq> 0 then turn_disconnect ntoa uxBits st else ret st) (\<lambda>st.
     bindC (if uxBits AND WIFI_MANAGER_REQUEST_STA_CONNECT_BIT \<noteq> 0 then turn_connect ntoa uxBits st
            else if uxBits AND WIFI_MANAGER_REQUEST_WIFI_SCAN \<noteq> 0 then turn_scan uxBits st
            else if uxBits AND WIFI_MANAGER_REQUEST_PING_TEST \<noteq> 0 then turn_ping st
            else ret st) (\<lambda>st.
     bindC wm_get (\<lambda>bits.
     thenC (whenC (bits AND WIFI_MANAGER_HAVE_INTERNET_BIT = 0) (LED_SetEventBit LED_EVENT_WIFI_DISCONNECTED_BIT))
       (ret st)))))"

subsection \<open>Start-up and end of the task\<close>

text \<open>The fields of the settings, by their offsets.\<close>

definition settings_u8 :: "string \<Rightarrow> nat \<Rightarrow> nat" where
  "settings_u8 s i = of_char (s ! i)"

definition ap_ssid_of :: "string \<Rightarrow> string" where "ap_ssid_of s = take 32 s"
definition ap_pwd_of :: "string \<Rightarrow> string" where "ap_pwd_of s = take 64 (drop 32 s)"
definition ap_channel_of :: "string \<Rightarrow> nat" where "ap_channel_of s = settings_u8 s 96"
definition ap_hidden_of :: "string \<Rightarrow> nat" where "ap_hidden_of s = settings_u8 s 97"
definition ap_bandwidth_of :: "string \<Rightarrow> nat" where "ap_bandwidth_of s = settings_u8 s 100"
definition sta_power_save_of :: "string \<Rightarrow> nat" where "sta_power_save_of s = settings_u8 s 108"
definition sta_static_ip_of :: "string \<Rightarrow> bool" where "sta_static_ip_of s = (settings_u8 s 112 \<noteq> 0)"
definition sta_static_config_of :: "string \<Rightarrow> string" where "sta_static_config_of s = take 12 (drop 116 s)"

definition ip4 :: "nat \<Rightarrow> nat \<Rightarrow> nat \<Rightarrow> nat \<Rightarrow> string" where
  "ip4 a b c d = map char_of [a, b, c, d]"

definition WIFI_AUTH_WPA2_PSK :: nat where "WIFI_AUTH_WPA2_PSK = 3"

definition settings_prepare :: "string \<Rightarrow> string \<Rightarrow> string result" where
  "settings_prepare mac s =
     bindE (buf_write s 116 (ip4 192 168 0 10 @ ip4 255 255 255 0 @ ip4 192 168 0 1)) (\<lambda>s.
     sprintf s 0 (DEFAULT_AP_SSID @ ''-'' @ fmt_0X 2 (of_char (mac ! 4)) @ fmt_0X 2 (of_char (mac ! 5))))"

definition ptr_of :: "int \<times> 'a \<Rightarrow> 'a option" where
  "ptr_of pb = (if fst pb = 0 then None else Some (snd pb))"

definition wifi_manager_alloc :: "wifi_state \<Rightarrow> wifi_state cmd" where
  "wifi_manager_alloc st =
     bindC (askI (Rtos (MutexCreate ''json''))) (\<lambda>m.
     bindC (askA (Sys (Malloc (80 * MAX_AP_NUM)))) (\<lambda>(_, recs).
     let st = st\<lparr>json_mutex := (m \<noteq> 0), accessp_records := take MAX_AP_NUM (recs @ replicate MAX_AP_NUM zero_ap)\<rparr> in
     bindC (malloc (MAX_AP_NUM * JSON_ONE_APP_SIZE + 4)) (\<lambda>pb.
     bindC (liftE (wifi_manager_clear_access_points_json (st\<lparr>accessp_json := ptr_of pb\<rparr>))) (\<lambda>st.
     bindC (malloc JSON_IP_INFO_SIZE) (\<lambda>pb.
     let st = st\<lparr>ip_info_json := ptr_of pb\<rparr> in
     bindC (malloc JSON_REG_INFO_SIZE) (\<lambda>pb.
     let st = st\<lparr>reg_info_json := ptr_of pb\<rparr> in
     bindC (liftE (wifi_manager_clear_ip_info_json st)) (\<lambda>st.
     bindC (liftE (wifi_manager_clear_reg_info_json st)) (\<lambda>st.
     bindC (malloc 96) (\<lambda>pb.
     if fst pb = 0 then failC NullDeref else ret (st\<lparr>config_sta := Some zero_sta\<rparr>))))))))))"

definition wifi_manager_init :: "wifi_state \<Rightarrow> wifi_state cmd" where
  "wifi_manager_init st =
     bindC (wifi_manager_alloc st) (\<lambda>st.
     bindC (askIS (Sys EfuseMacGet)) (\<lambda>(_, mac).
     if length mac < 6 then failC Undefined else
     bindC (liftE (settings_prepare mac (wifi_settings st))) (\<lambda>s.
     let st = st\<lparr>wifi_settings := s\<rparr> in
     thenC (seqC [doC (Wifi TcpipInit), doC (Rtos (EventGroupCreate WifiGroup)), checkC (Wifi EventLoopInit)])
     (bindC (wifi_manager_fetch_wifi_sta_config st) (\<lambda>(found, st).
      thenC (seqC [whenC found (wm_set WIFI_MANAGER_REQUEST_STA_CONNECT_BIT),
                   checkC (Wifi DhcpsStop),
                   checkC (Wifi (SetIpInfo ''AP'' (ip4 192 168 4 1 @ ip4 255 255 255 0 @ ip4 192 168 4 1))),
                   checkC (Wifi DhcpsStart),
                   (if sta_static_ip_of (wifi_settings st)
                    then seqC [checkC (Wifi DhcpcStop),
                               checkC (Wifi (SetIpInfo ''STA'' (sta_static_config_of (wifi_settings st))))]
                    else bindC (askIB (Wifi DhcpcGetStatus)) (\<lambda>(r, status).
                         seqC [esp_error_check r, whenC (status \<noteq> 1) (checkC (Wifi DhcpcStart))])),
                   checkC (Wifi WifiInit), checkC (Wifi WifiSetStorageRam), checkC (Wifi WifiSetModeApSta),
                   checkC (Wifi (WifiSetBandwidth (ap_bandwidth_of (wifi_settings st)))),
                   checkC (Wifi (WifiSetPs (sta_power_save_of (wifi_settings st)))),
                   checkC (Wifi (WifiSetConfigAp (ap_ssid_of (wifi_settings st)) (ap_pwd_of (wifi_settings st))
                             (ap_channel_of (wifi_settings st)) (ap_hidden_of (wifi_settings st))
                             WIFI_AUTH_WPA2_PSK AP_MAX_CONNECTIONS AP_BEACON_INTERVAL)),
                   checkC (Wifi WifiStart),
                   bindC (askB (Rtos (EventGroupWaitBits WifiGroup WIFI_MANAGER_AP_STARTED False True None))) (\<lambda>_. ret ()),
                   doC (Rtos (EventGroupSetBits HttpGroup 1)),
                   doC (Rtos (TimerCreate ''wifi_reconnect_timer'' (RECONNECT_RETRY_PERIOD * portTICK_PERIOD_MS))),
                   wm_set WIFI_MANAGER_REQUEST_WIFI_SCAN])
        (ret st))))))"

definition wifi_manager_destroy :: "wifi_state \<Rightarrow> wifi_state cmd" where
  "wifi_manager_destroy st =
     thenC (seqC ([doC (Sys (Free 1)), doC (Sys (Free 2)), doC (Sys (Free 3)), doC (Sys (Free 4))] @
                  (if config_sta st = None then [] else [doC (Sys (Free 5))]) @
                  [doC (Rtos (MutexDelete ''json'')), doC (Rtos (EventGroupDelete WifiGroup)), doC (Rtos TaskDelete)]))
       (ret (st\<lparr>accessp_records := [], accessp_json := None, ip_info_json := None, reg_info_json := None,
               config_sta := None, json_mutex := False\<rparr>))"

subsection \<open>Event bits\<close>

lemma mask_disjoint:
  fixes b m n :: u32
  assumes "m AND n = 0"
  shows "(b OR m) AND n = b AND n" "(b AND NOT m) AND n = b AND n"
proof -
  have "\<not> (bit m i \<and> bit n i)" for i
    using assms by (metis bit_0_eq bit_and_iff bot_apply bot_bool_def)
  then show "(b OR m) AND n = b AND n" "(b AND NOT m) AND n = b AND n"
    by (auto intro!: bit_word_eqI simp: bit_simps)
qed

lemma or_andnot_order:
  fixes b c d x y :: u32
  shows "((b OR c) AND NOT x) AND NOT y = (b OR c) AND NOT (x OR y)"
    "((b OR c OR d) AND NOT x) AND NOT y = (b OR d OR c) AND NOT (x OR y)"
  by (auto intro!: bit_word_eqI simp: bit_simps)

definition wifi_requests :: u32 where
  "wifi_requests = WIFI_MANAGER_REQUEST_WIFI_SCAN OR WIFI_MANAGER_REQUEST_WIFI_DISCONNECT OR
     WIFI_MANAGER_REQUEST_PING_TEST"

lemma wifi_requests_disjoint:
  "WIFI_MANAGER_AP_STARTED AND wifi_requests = 0" "WIFI_MANAGER_AP_STA_CONNECTED_BIT AND wifi_requests = 0"
  "WIFI_MANAGER_WIFI_CONNECTED_BIT AND wifi_requests = 0" "WIFI_MANAGER_REQUEST_RECONNECT AND wifi_requests = 0"
  "WIFI_MANAGER_STA_DISCONNECT_BIT AND wifi_requests = 0" "WIFI_MANAGER_REQUEST_STA_CONNECT_BIT AND wifi_requests = 0"
  "WIFI_MANAGER_HAVE_INTERNET_BIT AND wifi_requests = 0"
  by (simp_all add: wifi_requests_def wifi_bits)

fun event_calls :: "system_event \<Rightarrow> call list" where
  "event_calls SYSTEM_EVENT_AP_START = [Rtos (EventGroupSetBits WifiGroup WIFI_MANAGER_AP_STARTED)]"
| "event_calls SYSTEM_EVENT_AP_STACONNECTED = [Rtos (EventGroupSetBits WifiGroup WIFI_MANAGER_AP_STA_CONNECTED_BIT)]"
| "event_calls SYSTEM_EVENT_AP_STADISCONNECTED = [Rtos (EventGroupClearBits WifiGroup WIFI_MANAGER_AP_STA_CONNECTED_BIT)]"
| "event_calls SYSTEM_EVENT_STA_GOT_IP =
     [Rtos (EventGroupSetBits WifiGroup WIFI_MANAGER_WIFI_CONNECTED_BIT),
      Rtos (EventGroupClearBits WifiGroup WIFI_MANAGER_REQUEST_RECONNECT),
      Rtos (EventGroupSetBits LedGroup LED_EVENT_WIFI_CONNECTED_BIT)]"
| "event_calls (SYSTEM_EVENT_STA_DISCONNECTED reason) =
     (if reason \<in> {8, 15, 202} then [] else [Rtos (EventGroupSetBits WifiGroup WIFI_MANAGER_REQUEST_STA_CONNECT_BIT)]) @
     [Rtos (EventGroupSetBits WifiGroup WIFI_MANAGER_STA_DISCONNECT_BIT),
      Rtos (EventGroupClearBits WifiGroup WIFI_MANAGER_WIFI_CONNECTED_BIT),
      Rtos (EventGroupClearBits WifiGroup WIFI_MANAGER_HAVE_INTERNET_BIT),
      Rtos (EventGroupSetBits LedGroup LED_EVENT_WIFI_DISCONNECTED_BIT)]"
| "event_calls _ = []"

lemma wifi_manager_event_handler_run:
  "wifi_manager_event_handler ev e tr = Inr (ESP_OK, tr @ event_calls ev)"
  by (cases ev)
     (simp_all add: cmd_simps LED_SetEventBit_def WIFI_REASON_ASSOC_LEAVE_def
        WIFI_REASON_4WAY_HANDSHAKE_TIMEOUT_def WIFI_REASON_AUTH_FAIL_def)

text \<open>
  What the handler of the driver's events does to the event bits. Losing the connection
  clears the connected and the Internet bit and posts the disconnect bit; it asks for a new
  connection unless the reason is that the user left or that the password was refused, in which
  case a request that was pending stays as it is. Getting an address posts the connected bit.
  No event touches the requests for a scan, a disconnection or a ping.
\<close>

theorem wifi_manager_event_bits:
  "\<exists>cs. wifi_manager_event_handler ev e tr = Inr (ESP_OK, tr @ cs) \<and>
     group_bits WifiGroup b cs =
       (case ev of
          SYSTEM_EVENT_AP_START \<Rightarrow> b OR WIFI_MANAGER_AP_STARTED
        | SYSTEM_EVENT_AP_STACONNECTED \<Rightarrow> b OR WIFI_MANAGER_AP_STA_CONNECTED_BIT
        | SYSTEM_EVENT_AP_STADISCONNECTED \<Rightarrow> b AND NOT WIFI_MANAGER_AP_STA_CONNECTED_BIT
        | SYSTEM_EVENT_STA_GOT_IP \<Rightarrow> (b OR WIFI_MANAGER_WIFI_CONNECTED_BIT) AND NOT WIFI_MANAGER_REQUEST_RECONNECT
        | SYSTEM_EVENT_STA_DISCONNECTED reason \<Rightarrow>
            (if reason \<in> {8, 15, 202} then b OR WIFI_MANAGER_STA_DISCONNECT_BIT
             else b OR WIFI_MANAGER_STA_DISCONNECT_BIT OR WIFI_MANAGER_REQUEST_STA_CONNECT_BIT)
            AND NOT (WIFI_MANAGER_WIFI_CONNECTED_BIT OR WIFI_MANAGER_HAVE_INTERNET_BIT)
        | _ \<Rightarrow> b) \<and>
     group_bits WifiGroup b cs AND wifi_requests = b AND wifi_requests"
proof (intro exI conjI)
  show "wifi_manager_event_handler ev e tr = Inr (ESP_OK, tr @ event_calls ev)"
    by (rule wifi_manager_event_handler_run)
  show "group_bits WifiGroup b (event_calls ev) AND wifi_requests = b AND wifi_requests"
    by (cases ev) (simp_all add: mask_disjoint wifi_requests_disjoint)
  show "group_bits WifiGroup b (event_calls ev) =
       (case ev of
          SYSTEM_EVENT_AP_START \<Rightarrow> b OR WIFI_MANAGER_AP_STARTED
        | SYSTEM_EVENT_AP_STACONNECTED \<Rightarrow> b OR WIFI_MANAGER_AP_STA_CONNECTED_BIT
        | SYSTEM_EVENT_AP_STADISCONNECTED \<Rightarrow> b AND NOT WIFI_MANAGER_AP_STA_CONNECTED_BIT
        | SYSTEM_EVENT_STA_GOT_IP \<Rightarrow> (b OR WIFI_MANAGER_WIFI_CONNECTED_BIT) AND NOT WIFI_MANAGER_REQUEST_RECONNECT
        | SYSTEM_EVENT_STA_DISCONNECTED reason \<Rightarrow>
            (if reason \<in> {8, 15, 202} then b OR WIFI_MANAGER_STA_DISCONNECT_BIT
             else b OR WIFI_MANAGER_STA_DISCONNECT_BIT OR WIFI_MANAGER_REQUEST_STA_CONNECT_BIT)
            AND NOT (WIFI_MANAGER_WIFI_CONNECTED_BIT OR WIFI_MANAGER_HAVE_INTERNET_BIT)
        | _ \<Rightarrow> b)"
    by (cases ev) (simp_all add: ac_simps or_andnot_order)
qed

subsection \<open>What the pieces of a turn call\<close>

text \<open>The requests a call acknowledges by clearing their bits.\<close>

fun ack_of :: "call \<Rightarrow> u32 list" where
  "ack_of (Rtos (EventGroupClearBits g b)) =
     (if g = WifiGroup \<and> b \<in> {WIFI_MANAGER_REQUEST_STA_CONNECT_BIT, WIFI_MANAGER_REQUEST_WIFI_SCAN,
                              WIFI_MANAGER_REQUEST_WIFI_DISCONNECT, WIFI_MANAGER_REQUEST_PING_TEST}
      then [b] else [])"
| "ack_of _ = []"

definition acks :: "call list \<Rightarrow> u32 list" where
  "acks cs = concat (map ack_of cs)"

lemma acks_append [simp]: "acks (cs @ ds) = acks cs @ acks ds"
  by (simp add: acks_def)

lemma acks_none: "list_all (\<lambda>c. ack_of c = []) cs \<Longrightarrow> acks cs = []"
  unfolding acks_def list_all_iff concat_eq_Nil_conv by simp

fun json_mutex_call :: "call \<Rightarrow> bool" where
  "json_mutex_call (Rtos (MutexTake m t)) \<longleftrightarrow> m = ''json''"
| "json_mutex_call (Rtos (MutexGive m)) \<longleftrightarrow> m = ''json''"
| "json_mutex_call _ \<longleftrightarrow> False"

text \<open>A quiet call acknowledges no request and leaves the JSON mutex alone.\<close>

definition quiet :: "call \<Rightarrow> bool" where
  "quiet c \<longleftrightarrow> ack_of c = [] \<and> \<not> json_mutex_call c"

lemma quietD: "quiet c \<Longrightarrow> ack_of c = []" "quiet c \<Longrightarrow> \<not> json_mutex_call c"
  by (simp_all add: quiet_def)

lemma emits_until_error [emits_intros]:
  "list_all (emits P) ms \<Longrightarrow> emits P k \<Longrightarrow> emits P (until_error ms k)"
  by (induction ms) (auto intro!: emits_intros)

lemma quiet_simps [simp]:
  "quiet (Sys s)" "quiet (Wifi w)" "quiet (Rtos (EventGroupSetBits g b))" "quiet (Rtos (EventGroupGetBits g))"
  "quiet (Rtos (EventGroupWaitBits g b x y n))" "quiet (Rtos (TimerIsActive m))" "quiet (Rtos (TimerStart m))"
  "quiet (Rtos (TimerStop m))"
  "quiet (Rtos (EventGroupClearBits WifiGroup WIFI_MANAGER_HAVE_INTERNET_BIT))"
  "quiet (Rtos (EventGroupClearBits WifiGroup WIFI_MANAGER_STA_DISCONNECT_BIT))"
  "quiet (Rtos (EventGroupClearBits WifiGroup WIFI_MANAGER_REQUEST_RECONNECT))"
  by (simp_all add: quiet_def wifi_bits)

lemmas emits_auto = emits_intros list.pred_inject conjI TrueI quiet_simps

lemma quiet_leaf [emits_intros]:
  "emits quiet (wm_set b)" "emits quiet wm_get" "emits quiet (LED_SetEventBit b)"
  "emits quiet (wm_clear WIFI_MANAGER_HAVE_INTERNET_BIT)" "emits quiet (wm_clear WIFI_MANAGER_STA_DISCONNECT_BIT)"
  "emits quiet (wm_clear WIFI_MANAGER_REQUEST_RECONNECT)" "emits quiet (checkC (Wifi w))" "emits quiet wait_disconnected"
  unfolding wm_set_def wm_get_def LED_SetEventBit_def wm_clear_def checkC_def wait_disconnected_def
  by (intro emits_intros quiet_simps)+

lemma quiet_set_sta [emits_intros]: "emits quiet (set_sta_config st)"
  unfolding set_sta_config_def by (intro emits_intros quiet_simps)

lemma quiet_save_sta [emits_intros]: "emits quiet (wifi_manager_save_sta_config st)"
  unfolding wifi_manager_save_sta_config_def list.pred_inject
  by (intro emits_intros quiet_simps) (auto intro!: emits_intros)

lemma quiet_generate_ip [emits_intros]: "emits quiet (wifi_manager_generate_ip_info_json ntoa code st)"
  unfolding wifi_manager_generate_ip_info_json_def by (intro emits_intros quiet_simps)

lemma quiet_get_blob [emits_intros]: "emits quiet (get_blob key n buff)"
  unfolding get_blob_def by (intro emits_intros quiet_simps)

lemma quiet_fetch_field [emits_intros]: "emits quiet (fetch_field key n buff dest)"
  unfolding fetch_field_def by (intro emits_intros quiet_simps)

lemma quiet_fetch_sta [emits_intros]: "emits quiet (wifi_manager_fetch_wifi_sta_config st)"
  unfolding wifi_manager_fetch_wifi_sta_config_def
  by (intro emits_intros quiet_simps) (auto intro!: emits_intros)

lemma quiet_filter [emits_intros]: "emits quiet (wifi_manager_filter_unique l n)"
  unfolding wifi_manager_filter_unique_def by (intro emits_intros quiet_simps)

lemma quiet_timer [emits_intros]: "emits quiet start_reconnect_timer"
  unfolding start_reconnect_timer_def by (intro emits_intros quiet_simps)

lemma quiet_connected [emits_intros]: "emits quiet wifi_manager_connected_to_access_point"
  unfolding wifi_manager_connected_to_access_point_def by (intro emits_intros)

lemma quiet_ping_test [emits_intros]: "emits quiet wifi_manager_ping_test"
  unfolding wifi_manager_ping_test_def by (intro emits_intros) (auto intro!: emits_intros)

lemma quiet_check_connection [emits_intros]: "emits quiet wifi_manager_check_connection"
  unfolding wifi_manager_check_connection_def
  by (intro emits_intros quiet_simps) (auto intro!: emits_intros)

subsection \<open>The JSON mutex\<close>

definition json_delta :: "env \<Rightarrow> call list \<Rightarrow> call \<Rightarrow> int" where
  "json_delta e tr c =
     (case c of Rtos (MutexTake m t) \<Rightarrow> if m = ''json'' \<and> ans_int e tr c = 1 then 1 else 0
      | Rtos (MutexGive m) \<Rightarrow> if m = ''json'' then - 1 else 0
      | _ \<Rightarrow> 0)"

interpretation jm: resource json_delta json_mutex_call
proof
  fix c e tr
  assume "\<not> json_mutex_call c"
  then show "json_delta e tr c = 0"
    by (cases c rule: json_mutex_call.cases) (simp_all add: json_delta_def)
qed

lemma jm_quiet: "emits quiet m \<Longrightarrow> emits (\<lambda>c. \<not> json_mutex_call c) m" "emits quiet m \<Longrightarrow> jm.neutral m"
  by (auto intro!: jm.neutral_emits elim: emits_weaken dest: quietD)

lemma jm_lock: "jm.moves 0 (\<lambda>ok. if ok then 1 else 0) (wifi_manager_lock_json_buffer ticks st)"
  by (auto simp: jm.moves_def wifi_manager_lock_json_buffer_def json_delta_def cmd_simps)

lemma jm_unlock: "jm.moves 1 (\<lambda>_. 0) wifi_manager_unlock_json_buffer"
  by (simp add: jm.moves_def wifi_manager_unlock_json_buffer_def json_delta_def cmd_simps)

lemma jm_status_update: "jm.neutral (wifi_manager_json_status_update ntoa code st)"
  unfolding wifi_manager_json_status_update_def
  by (intro jm.neutral_section jm_lock jm_unlock jm_quiet jm.neutral_ret emits_intros)

lemma jm_connect_async: "jm.neutral (wifi_manager_connect_async st)"
proof -
  have *: "wifi_manager_connect_async st =
     bindC (bindC (wifi_manager_lock_json_buffer None st) (\<lambda>ok.
       if ok then bindC (liftE (wifi_manager_clear_ip_info_json st)) (\<lambda>st. thenC wifi_manager_unlock_json_buffer (ret st))
       else ret st)) (\<lambda>st. thenC (wm_set WIFI_MANAGER_REQUEST_STA_CONNECT_BIT) (ret st))"
    unfolding wifi_manager_connect_async_def
    by (rule ext)+ (simp add: bindC_run bindE_assoc case_prod_beta')
  show ?thesis
    unfolding *
    by (intro jm.neutral_bind jm.neutral_section jm_lock jm_unlock jm_quiet jm.neutral_ret emits_intros)
qed

lemma jm_scan_section:
  "jm.neutral (bindC (wifi_manager_lock_json_buffer (Some 20) st) (\<lambda>ok.
     if ok
     then bindC (wifi_manager_filter_unique l n) (\<lambda>(l, n).
          bindC (liftE (wifi_manager_generate_acess_points_json (st\<lparr>accessp_records := l, ap_num := n\<rparr>))) (\<lambda>st.
          thenC wifi_manager_unlock_json_buffer (ret st)))
     else ret st))"
proof -
  have *: "bindC (wifi_manager_filter_unique l n) (\<lambda>(l, n).
          bindC (liftE (wifi_manager_generate_acess_points_json (st\<lparr>accessp_records := l, ap_num := n\<rparr>))) (\<lambda>st.
          thenC wifi_manager_unlock_json_buffer (ret st))) =
    bindC (bindC (wifi_manager_filter_unique l n) (\<lambda>(l, n).
             liftE (wifi_manager_generate_acess_points_json (st\<lparr>accessp_records := l, ap_num := n\<rparr>))))
      (\<lambda>st. thenC wifi_manager_unlock_json_buffer (ret st))"
    by (rule ext)+ (simp add: bindC_run bindE_assoc case_prod_beta')
  show ?thesis
    unfolding * by (intro jm.neutral_section jm_lock jm_unlock jm_quiet jm.neutral_ret emits_intros)
qed

lemma jm_clear: "jm.neutral (wm_clear b)"
  by (rule jm.neutral_emits) (simp add: wm_clear_def emits_atoms)

lemmas jm_intros = jm.neutral_intros jm_status_update jm_connect_async jm_clear

lemma jm_turn_disconnect: "jm.neutral (turn_disconnect ntoa u st)"
  unfolding turn_disconnect_def Let_def
  by (intro jm_intros; rule jm_quiet; auto intro!: emits_intros)

lemma jm_turn_connect: "jm.neutral (turn_connect ntoa u st)"
  unfolding turn_connect_def Let_def
  by (intro jm_intros; rule jm_quiet; auto intro!: emits_intros)

lemma jm_turn_scan: "jm.neutral (turn_scan u st)"
  unfolding turn_scan_def Let_def
  by (intro jm_scan_section jm_intros; rule jm_quiet; auto intro!: emits_intros)

lemma jm_turn_ping: "jm.neutral (turn_ping st)"
  unfolding turn_ping_def Let_def
  by (intro jm_intros; rule jm_quiet; auto intro!: emits_intros)

lemma jm_turn: "jm.neutral (wifi_manager_turn ntoa st)"
  unfolding wifi_manager_turn_def
  by (intro jm_turn_disconnect jm_turn_connect jm_turn_scan jm_turn_ping jm_intros; rule jm_quiet; auto intro!: emits_intros)

lemma jm_pingResults: "jm.neutral (pingResults n st)"
  unfolding pingResults_def by (intro jm_intros; rule jm_quiet; auto intro!: emits_intros)

text \<open>
  Over a turn of the task, whatever is requested and whatever the platform answers, the
  JSON mutex is taken only while it is not held, given back only while it is held, and free at
  the end.
\<close>

theorem wifi_manager_turn_mutex:
  assumes "wifi_manager_turn ntoa st e tr = Inr (st', tr')"
  shows "\<exists>cs. tr' = tr @ cs \<and> disciplined json_delta e tr 0 cs \<and> balance json_delta e tr cs = 0"
  using assms jm_turn [of ntoa st] unfolding jm.neutral_def by (metis jm.movesE add_0)

text \<open>A platform on which the bits of the group are always \<open>u\<close>, the mutex is granted and no network is found.\<close>

definition turn_demo_env :: "u32 \<Rightarrow> env" where
  "turn_demo_env u = silent_env\<lparr>ans_bits := (\<lambda>_ c. case c of Rtos _ \<Rightarrow> u | _ \<Rightarrow> 0),
     ans_int := (\<lambda>_ c. case c of Rtos (MutexTake _ _) \<Rightarrow> 1 | _ \<Rightarrow> 0)\<rparr>"

lemma turn_demo_env_simps [simp]:
  "ans_bits (turn_demo_env u) tr (Rtos r) = u"
  "ans_int (turn_demo_env u) tr (Rtos (MutexTake m k)) = 1"
  "ans_int (turn_demo_env u) tr (Wifi w) = 0"
  "ans_int (turn_demo_env u) tr (Sys s) = 0"
  "ans_int (turn_demo_env u) tr (Rtos (TimerIsActive m)) = 0"
  "ans_aps (turn_demo_env u) tr c = []" "ans_bytes (turn_demo_env u) tr c = []"
  by (simp_all add: turn_demo_env_def)

lemma turn_demo_scan:
  "\<exists>st'. wifi_manager_turn ntoa (wifi_demo\<lparr>accessp_json := Some (block 1489 [])\<rparr>)
      (turn_demo_env WIFI_MANAGER_REQUEST_WIFI_SCAN) [] =
    Inr (st', [Rtos (EventGroupWaitBits WifiGroup turn_mask False False None), Wifi WifiScanStart,
               Wifi (WifiScanGetApRecords 15), Rtos (MutexTake ''json'' (Some 20)), Wifi WifiDeinit,
               Rtos (MutexGive ''json''), Rtos (EventGroupClearBits WifiGroup WIFI_MANAGER_REQUEST_WIFI_SCAN),
               Rtos (EventGroupGetBits WifiGroup), Rtos (EventGroupSetBits LedGroup LED_EVENT_WIFI_DISCONNECTED_BIT)])"
proof -
  have "\<exists>b. strcpy (block 1489 []) ''['' = Inr b"
    by (simp add: strcpy_def buf_simps)
  then obtain b where "strcpy (block 1489 []) ''['' = Inr b" ..
  then show ?thesis
    by (simp add: wifi_manager_turn_def turn_scan_def wifi_bits cmd_simps checkC_def wifi_manager_lock_json_buffer_def
        wifi_manager_filter_unique_def filter_pass1_def filter_pass2_def wifi_manager_generate_acess_points_json_def
        wifi_manager_unlock_json_buffer_def LED_SetEventBit_def MAX_AP_NUM_def wifi_demo_def)
qed

theorem wifi_manager_turn_mutex_witness:
  "\<exists>st' cs. wifi_manager_turn (\<lambda>_. ''0.0.0.0'') (wifi_demo\<lparr>accessp_json := Some (block 1489 [])\<rparr>)
      (turn_demo_env WIFI_MANAGER_REQUEST_WIFI_SCAN) [] = Inr (st', cs) \<and>
    Rtos (MutexTake ''json'' (Some 20)) \<in> set cs \<and>
    balance json_delta (turn_demo_env WIFI_MANAGER_REQUEST_WIFI_SCAN) [] cs = 0"
  using turn_demo_scan [of "\<lambda>_. ''0.0.0.0''"] wifi_manager_turn_mutex by fastforce

subsection \<open>Acknowledging requests\<close>

definition acked :: "u32 list \<Rightarrow> 'a cmd \<Rightarrow> bool" where
  "acked bs m \<longleftrightarrow> (\<forall>e tr x tr'. m e tr = Inr (x, tr') \<longrightarrow> (\<exists>cs. tr' = tr @ cs \<and> acks cs = bs))"

lemma ackedE:
  assumes "acked bs m" "m e tr = Inr (x, tr')"
  obtains cs where "tr' = tr @ cs" "acks cs = bs"
  using assms unfolding acked_def by blast

lemma acked_emits: "emits (\<lambda>c. ack_of c = []) m \<Longrightarrow> acked [] m"
  unfolding acked_def by (auto elim!: emitsE dest: acks_none)

lemma acked_quiet: "emits quiet m \<Longrightarrow> acked [] m"
  by (rule acked_emits) (auto elim: emits_weaken dest: quietD)

lemma acked_bind:
  assumes "acked as m" and f: "\<And>x. acked bs (f x)"
  shows "acked (as @ bs) (bindC m f)"
  unfolding acked_def
proof (intro allI impI)
  fix e tr y tr'
  assume "bindC m f e tr = Inr (y, tr')"
  then obtain x tr1 where 1: "m e tr = Inr (x, tr1)" and 2: "f x e tr1 = Inr (y, tr')"
    by (auto simp: bindC_def split: sum.splits prod.splits)
  obtain cs where "tr1 = tr @ cs" "acks cs = as" using assms(1) 1 by (rule ackedE)
  moreover obtain ds where "tr' = tr1 @ ds" "acks ds = bs" using f 2 by (rule ackedE)
  ultimately show "\<exists>cs. tr' = tr @ cs \<and> acks cs = as @ bs" by (intro exI [of _ "cs @ ds"]) simp
qed

text \<open>A branch does its work and then clears the bit of its request.\<close>

lemma acked_last:
  assumes "acked [] m" "ack_of (Rtos (EventGroupClearBits WifiGroup b)) = [b]"
  shows "acked [b] (bindC m (\<lambda>x. thenC (wm_clear b) (ret x)))"
proof -
  have "acked [b] (thenC (wm_clear b) (ret x))" for x :: 'a
    using assms(2) by (simp add: acked_def cmd_simps acks_def)
  from acked_bind [OF assms(1) this] show ?thesis by simp
qed

lemma acked_if:
  "(c \<Longrightarrow> acked as m) \<Longrightarrow> (\<not> c \<Longrightarrow> acked bs n) \<Longrightarrow> acked (if c then as else bs) (if c then m else n)"
  by simp

lemma acked_ret: "acked [] (ret x)"
  by (rule acked_quiet) (rule emits_atoms)

definition silent_call :: "call \<Rightarrow> bool" where
  "silent_call c \<longleftrightarrow> ack_of c = []"

lemma silent_quiet: "emits quiet m \<Longrightarrow> emits silent_call m"
  by (erule emits_weaken) (simp add: silent_call_def quietD)

lemma silent_lock: "emits silent_call (wifi_manager_lock_json_buffer t st)"
  unfolding wifi_manager_lock_json_buffer_def by (intro emits_intros) (simp add: silent_call_def)

lemma silent_unlock: "emits silent_call wifi_manager_unlock_json_buffer"
  unfolding wifi_manager_unlock_json_buffer_def by (intro emits_intros) (simp add: silent_call_def)

lemma silent_status_update: "emits silent_call (wifi_manager_json_status_update ntoa code st)"
  unfolding wifi_manager_json_status_update_def
  by (intro silent_lock silent_unlock emits_intros silent_quiet)

lemma silent_connect_async: "emits silent_call (wifi_manager_connect_async st)"
  unfolding wifi_manager_connect_async_def
  by (intro silent_lock silent_unlock emits_intros silent_quiet)

lemmas silent_intros = silent_lock silent_unlock silent_status_update silent_connect_async

lemma silent_acked: "emits silent_call m \<Longrightarrow> acked [] m"
  by (rule acked_emits) (simp add: silent_call_def [abs_def])

lemma thenC_bindC: "bindC (thenC m n) f = thenC m (bindC n f)"
  by (rule ext)+ (simp add: cmd_simps bindE_assoc case_prod_beta')

lemma bindC_bindC: "bindC (bindC m g) f = bindC m (\<lambda>x. bindC (g x) f)"
  by (rule ext)+ (simp add: cmd_simps bindE_assoc case_prod_beta')

lemma ack_of_requests:
  "ack_of (Rtos (EventGroupClearBits WifiGroup WIFI_MANAGER_REQUEST_STA_CONNECT_BIT)) = [WIFI_MANAGER_REQUEST_STA_CONNECT_BIT]"
  "ack_of (Rtos (EventGroupClearBits WifiGroup WIFI_MANAGER_REQUEST_WIFI_SCAN)) = [WIFI_MANAGER_REQUEST_WIFI_SCAN]"
  "ack_of (Rtos (EventGroupClearBits WifiGroup WIFI_MANAGER_REQUEST_WIFI_DISCONNECT)) = [WIFI_MANAGER_REQUEST_WIFI_DISCONNECT]"
  "ack_of (Rtos (EventGroupClearBits WifiGroup WIFI_MANAGER_REQUEST_PING_TEST)) = [WIFI_MANAGER_REQUEST_PING_TEST]"
  by simp_all

lemmas acked_request = acked_last [OF silent_acked]

lemma acked_turn_ping: "acked [WIFI_MANAGER_REQUEST_PING_TEST] (turn_ping st)"
  unfolding turn_ping_def bindC_bindC [symmetric]
  by (rule acked_request [OF _ ack_of_requests(4)])
     (intro silent_intros emits_intros; rule silent_quiet; auto intro!: emits_intros)

lemma acked_turn_scan: "acked [WIFI_MANAGER_REQUEST_WIFI_SCAN] (turn_scan u st)"
  unfolding turn_scan_def Let_def
  by (rule acked_request [OF _ ack_of_requests(2)])
     (intro silent_intros emits_intros; (simp add: silent_call_def)?; rule silent_quiet; auto intro!: emits_intros)

lemma acked_turn_connect: "acked [WIFI_MANAGER_REQUEST_STA_CONNECT_BIT] (turn_connect ntoa u st)"
  unfolding turn_connect_def bindC_bindC [symmetric] thenC_bindC [symmetric]
  by (rule acked_request [OF _ ack_of_requests(1)])
     (intro silent_intros emits_intros; (simp add: silent_call_def)?; (rule silent_quiet)?; auto intro!: emits_intros silent_quiet)

lemma acked_turn_disconnect: "acked [WIFI_MANAGER_REQUEST_WIFI_DISCONNECT] (turn_disconnect ntoa u st)"
  unfolding turn_disconnect_def Let_def bindC_bindC [symmetric] thenC_bindC [symmetric]
  by (rule acked_request [OF _ ack_of_requests(3)])
     (intro silent_intros emits_intros; (simp add: silent_call_def)?; (rule silent_quiet)?; auto intro!: emits_intros silent_quiet)

text \<open>
  C14: a turn acknowledges the requests it serves and no others: the disconnection when it was
  asked for, and then one of the others, a connection before a scan before a ping. A request
  that has to wait keeps its bit and is found by the next turn.
\<close>

theorem wifi_manager_turn_acknowledges:
  assumes "wifi_manager_turn ntoa st e tr = Inr (st', tr')"
  shows "let u = ans_bits e tr (Rtos (EventGroupWaitBits WifiGroup turn_mask False False None))
         in \<exists>cs. tr' = tr @ cs \<and>
           acks cs = (if u AND WIFI_MANAGER_REQUEST_WIFI_DISCONNECT \<noteq> 0 then [WIFI_MANAGER_REQUEST_WIFI_DISCONNECT] else []) @
             (if u AND WIFI_MANAGER_REQUEST_STA_CONNECT_BIT \<noteq> 0 then [WIFI_MANAGER_REQUEST_STA_CONNECT_BIT]
              else if u AND WIFI_MANAGER_REQUEST_WIFI_SCAN \<noteq> 0 then [WIFI_MANAGER_REQUEST_WIFI_SCAN]
              else if u AND WIFI_MANAGER_REQUEST_PING_TEST \<noteq> 0 then [WIFI_MANAGER_REQUEST_PING_TEST] else [])"
proof -
  let ?w = "Rtos (EventGroupWaitBits WifiGroup turn_mask False False None)"
  define u where "u = ans_bits e tr ?w"
  let ?d = "if u AND WIFI_MANAGER_REQUEST_WIFI_DISCONNECT \<noteq> 0 then turn_disconnect ntoa u st else ret st"
  let ?m = "\<lambda>st. if u AND WIFI_MANAGER_REQUEST_STA_CONNECT_BIT \<noteq> 0 then turn_connect ntoa u st
            else if u AND WIFI_MANAGER_REQUEST_WIFI_SCAN \<noteq> 0 then turn_scan u st
            else if u AND WIFI_MANAGER_REQUEST_PING_TEST \<noteq> 0 then turn_ping st else ret st"
  let ?as = "if u AND WIFI_MANAGER_REQUEST_WIFI_DISCONNECT \<noteq> 0 then [WIFI_MANAGER_REQUEST_WIFI_DISCONNECT] else []"
  let ?bs = "if u AND WIFI_MANAGER_REQUEST_STA_CONNECT_BIT \<noteq> 0 then [WIFI_MANAGER_REQUEST_STA_CONNECT_BIT]
              else if u AND WIFI_MANAGER_REQUEST_WIFI_SCAN \<noteq> 0 then [WIFI_MANAGER_REQUEST_WIFI_SCAN]
              else if u AND WIFI_MANAGER_REQUEST_PING_TEST \<noteq> 0 then [WIFI_MANAGER_REQUEST_PING_TEST] else []"
  let ?fin = "\<lambda>st. bindC wm_get (\<lambda>bits. thenC (whenC (bits AND WIFI_MANAGER_HAVE_INTERNET_BIT = 0)
       (LED_SetEventBit LED_EVENT_WIFI_DISCONNECTED_BIT)) (ret st))"
  have "acked ?as ?d" by (intro acked_if acked_turn_disconnect acked_ret)
  moreover have "acked ?bs (?m st)" for st
    by (intro acked_if acked_turn_connect acked_turn_scan acked_turn_ping acked_ret)
  moreover have "acked [] (?fin st)" for st :: wifi_state by (rule acked_quiet) (intro emits_intros)
  ultimately have "acked (?as @ ?bs @ []) (bindC ?d (\<lambda>st. bindC (?m st) ?fin))"
    by (intro acked_bind)
  moreover have "bindC ?d (\<lambda>st. bindC (?m st) ?fin) e (tr @ [?w]) = Inr (st', tr')"
    using assms unfolding wifi_manager_turn_def bindC_run [of "askB _"] cmd_run(5) bindE_simps prod.case
    by (simp only: u_def)
  ultimately obtain cs where "tr' = (tr @ [?w]) @ cs" "acks cs = ?as @ ?bs @ []"
    by (rule ackedE)
  then have "tr' = tr @ (?w # cs) \<and> acks (?w # cs) = ?as @ ?bs"
    by (simp only: acks_def list.map ack_of.simps concat.simps append_Nil append_Nil2 append_assoc append_Cons)
  then show ?thesis unfolding Let_def u_def by blast
qed

theorem wifi_manager_turn_acknowledges_witness:
  "\<exists>st' cs. wifi_manager_turn (\<lambda>_. ''0.0.0.0'') (wifi_demo\<lparr>accessp_json := Some (block 1489 [])\<rparr>)
      (turn_demo_env WIFI_MANAGER_REQUEST_WIFI_SCAN) [] = Inr (st', cs) \<and> acks cs = [WIFI_MANAGER_REQUEST_WIFI_SCAN]"
proof -
  from turn_demo_scan [of "\<lambda>_. ''0.0.0.0''"] obtain st' cs where
    run: "wifi_manager_turn (\<lambda>_. ''0.0.0.0'') (wifi_demo\<lparr>accessp_json := Some (block 1489 [])\<rparr>)
      (turn_demo_env WIFI_MANAGER_REQUEST_WIFI_SCAN) [] = Inr (st', cs)" by blast
  show ?thesis
    using wifi_manager_turn_acknowledges [OF run] run by (auto simp: wifi_bits)
qed

subsection \<open>The connection check\<close>

lemma internet_bit: "uint (WIFI_MANAGER_HAVE_INTERNET_BIT AND b) \<in> {0, 256}"
proof -
  have only: "bit (256 :: u32) n \<Longrightarrow> n = 8" for n
    using bit_exp_iff [where 'a = u32, of 8 n] by auto
  have "256 AND b = (if bit b 8 then 256 else 0)"
  proof (rule bit_word_eqI)
    fix n
    show "bit (256 AND b) n = bit (if bit b 8 then 256 else 0 :: u32) n"
      using only [of n] by (cases "n = 8") (auto simp only: bit_and_iff bit_0_eq split: if_splits)
  qed
  then show ?thesis by (simp add: wifi_bits)
qed

lemma check_connection_codes: "yields (\<lambda>r. r \<in> {ERR_WIFI_DISCONECTED, 0, 256}) wifi_manager_check_connection"
  unfolding wifi_manager_check_connection_def Let_def
  by (intro yields_intros) (use internet_bit in auto)

lemma start_reconnect_timer_run:
  "start_reconnect_timer e tr = Inr ((), tr @ Rtos (TimerIsActive ''wifi_reconnect_timer'') #
     (if ans_int e tr (Rtos (TimerIsActive ''wifi_reconnect_timer'')) = 0
      then [Rtos (TimerStart ''wifi_reconnect_timer'')] else []))"
  by (simp add: start_reconnect_timer_def cmd_simps)

text \<open>The comparison with 1 behind a successful connection never holds.\<close>

lemma reconnect_branch:
  "bindC wifi_manager_check_connection (\<lambda>r.
     thenC (if r = 1 then wm_clear WIFI_MANAGER_REQUEST_RECONNECT else start_reconnect_timer) (ret st)) =
   bindC wifi_manager_check_connection (\<lambda>_. thenC start_reconnect_timer (ret st))"
  by (rule bindC_cong_yields [OF check_connection_codes]) (auto simp: ERR_WIFI_DISCONECTED_def)

definition connect_wait :: call where
  "connect_wait = Rtos (EventGroupWaitBits WifiGroup
     (WIFI_MANAGER_WIFI_CONNECTED_BIT OR WIFI_MANAGER_STA_DISCONNECT_BIT) False False None)"

definition connect_head :: "u32 \<Rightarrow> wifi_state \<Rightarrow> unit cmd" where
  "connect_head u st =
     seqC [whenC (u AND WIFI_MANAGER_WIFI_CONNECTED_BIT = WIFI_MANAGER_WIFI_CONNECTED_BIT)
             (seqC [wm_clear WIFI_MANAGER_STA_DISCONNECT_BIT, checkC (Wifi WifiDisconnect), wait_disconnected]),
           wm_clear WIFI_MANAGER_STA_DISCONNECT_BIT, set_sta_config st, doC (Wifi WifiConnect)]"

lemma quiet_connect_head: "emits quiet (connect_head u st)"
  unfolding connect_head_def by (intro emits_intros; auto intro!: emits_intros)

lemma bindC_askB: "bindC (askB c) f e tr = f (ans_bits e tr c) e (tr @ [c])"
  by (simp add: cmd_simps)

lemma bindC_ret: "bindC (ret x) f = f x"
  by (rule ext)+ (simp add: cmd_simps)

lemma connected_bits:
  fixes b :: u32
  assumes "b AND m \<noteq> 0" shows "b AND (m OR n) \<noteq> 0"
proof
  assume "b AND (m OR n) = 0"
  then have "(b AND m) OR (b AND n) = 0" by (simp add: bit.conj_disj_distrib)
  then show False using assms by (simp add: or_eq_0_iff)
qed

lemma turn_connect_connected:
  assumes "turn_connect ntoa u st e tr = Inr (st', tr')"
    and "\<And>tr. ans_bits e tr connect_wait AND WIFI_MANAGER_WIFI_CONNECTED_BIT \<noteq> 0"
  obtains cs where "connect_head u st e tr = Inr ((), tr @ cs)"
    "bindC (bindC (wifi_manager_json_status_update ntoa UPDATE_CONNECTION_OK st) (\<lambda>st.
       thenC (LED_SetEventBit LED_EVENT_WIFI_CONNECTED_BIT)
       (bindC (wifi_manager_save_sta_config st) (\<lambda>_.
        bindC wifi_manager_check_connection (\<lambda>_. ret st)))))
     (\<lambda>st. thenC start_reconnect_timer (thenC (wm_clear WIFI_MANAGER_REQUEST_STA_CONNECT_BIT) (ret st)))
     e (tr @ cs @ [connect_wait]) = Inr (st', tr')"
proof -
  obtain tr1 where head: "connect_head u st e tr = Inr ((), tr1)"
    and rest: "bindC (bindC (wifi_manager_json_status_update ntoa UPDATE_CONNECTION_OK st) (\<lambda>st.
       thenC (LED_SetEventBit LED_EVENT_WIFI_CONNECTED_BIT)
       (bindC (wifi_manager_save_sta_config st) (\<lambda>_.
        bindC wifi_manager_check_connection (\<lambda>_. thenC start_reconnect_timer (ret st))))))
     (\<lambda>st. thenC (wm_clear WIFI_MANAGER_REQUEST_STA_CONNECT_BIT) (ret st)) e (tr1 @ [connect_wait]) = Inr (st', tr')"
    using assms(1) assms(2) connected_bits [OF assms(2)]
    unfolding turn_connect_def connect_head_def [symmetric] connect_wait_def [symmetric] reconnect_branch
      thenC_run [of "connect_head u st"]
    by (auto simp: bindE_eq_Inr bindC_askB)
  obtain cs where "tr1 = tr @ cs" using quiet_connect_head head by (rule emitsE)
  with head rest show ?thesis
    by (intro that [of cs]) (simp_all add: bindC_bindC thenC_def bindC_ret)
qed

text \<open>
  C28: once a connection is established, the turn always ends by looking at the reconnect timer
  and starting it when it is not running, even when the check has just found the Internet: the
  check returns the bit itself, 256, 0 or an error, and the code compares it with 1.
\<close>

theorem connect_starts_reconnect_timer:
  assumes "turn_connect ntoa u st e tr = Inr (st', tr')"
    and "\<And>tr. ans_bits e tr connect_wait AND WIFI_MANAGER_WIFI_CONNECTED_BIT \<noteq> 0"
  shows "\<exists>cs. tr' = tr @ cs @ [Rtos (TimerIsActive ''wifi_reconnect_timer'')] @
    (if ans_int e (tr @ cs) (Rtos (TimerIsActive ''wifi_reconnect_timer'')) = 0
     then [Rtos (TimerStart ''wifi_reconnect_timer'')] else []) @
    [Rtos (EventGroupClearBits WifiGroup WIFI_MANAGER_REQUEST_STA_CONNECT_BIT)]"
proof -
  let ?m = "bindC (wifi_manager_json_status_update ntoa UPDATE_CONNECTION_OK st) (\<lambda>st.
       thenC (LED_SetEventBit LED_EVENT_WIFI_CONNECTED_BIT)
       (bindC (wifi_manager_save_sta_config st) (\<lambda>_. bindC wifi_manager_check_connection (\<lambda>_. ret st))))"
  obtain cs where run: "bindC ?m (\<lambda>st. thenC start_reconnect_timer
      (thenC (wm_clear WIFI_MANAGER_REQUEST_STA_CONNECT_BIT) (ret st))) e (tr @ cs @ [connect_wait]) = Inr (st', tr')"
    using assms by (rule turn_connect_connected)
  then obtain st1 tr1 where m: "?m e (tr @ cs @ [connect_wait]) = Inr (st1, tr1)"
    and t: "thenC start_reconnect_timer (thenC (wm_clear WIFI_MANAGER_REQUEST_STA_CONNECT_BIT) (ret st1)) e tr1 = Inr (st', tr')"
    unfolding bindC_run [of ?m] bindE_eq_Inr by auto
  have "emits silent_call ?m" by (intro silent_intros emits_intros silent_quiet)
  then obtain ds where "tr1 = (tr @ cs @ [connect_wait]) @ ds" using m by (rule emitsE)
  then show ?thesis
    using t by (intro exI [of _ "cs @ [connect_wait] @ ds"]) (simp add: cmd_simps start_reconnect_timer_run split: if_splits)
qed

theorem connect_starts_reconnect_timer_witness:
  "\<exists>st' cs. turn_connect (\<lambda>_. ''0.0.0.0'') 0 (wifi_demo\<lparr>config_sta := None, ip_info_json := Some (block 150 [])\<rparr>)
      (turn_demo_env (WIFI_MANAGER_WIFI_CONNECTED_BIT OR WIFI_MANAGER_HAVE_INTERNET_BIT)) [] = Inr (st', cs) \<and>
    Rtos (TimerStart ''wifi_reconnect_timer'') \<in> set cs"
proof -
  let ?e = "turn_demo_env (WIFI_MANAGER_WIFI_CONNECTED_BIT OR WIFI_MANAGER_HAVE_INTERNET_BIT)"
  let ?st = "wifi_demo\<lparr>config_sta := None, ip_info_json := Some (block 150 [])\<rparr>"
  have "\<exists>b. strcpy (block 150 []) (''{}'' @ [lf]) = Inr b" by (simp add: strcpy_def buf_simps)
  then obtain b where "strcpy (block 150 []) (''{}'' @ [lf]) = Inr b" ..
  then have "\<exists>st' cs. turn_connect (\<lambda>_. ''0.0.0.0'') 0 ?st ?e [] = Inr (st', cs)"
    by (simp add: turn_connect_def cmd_simps set_sta_config_def wifi_bits wifi_manager_json_status_update_def
        wifi_manager_lock_json_buffer_def wifi_manager_generate_ip_info_json_def wifi_manager_clear_ip_info_json_def
        wifi_manager_unlock_json_buffer_def LED_SetEventBit_def wifi_manager_save_sta_config_def
        wifi_manager_check_connection_def wifi_manager_connected_to_access_point_def wifi_manager_ping_test_def
        start_reconnect_timer_run wifi_demo_def)
  then obtain st' cs where run: "turn_connect (\<lambda>_. ''0.0.0.0'') 0 ?st ?e [] = Inr (st', cs)" by blast
  have "ans_bits ?e tr connect_wait AND WIFI_MANAGER_WIFI_CONNECTED_BIT \<noteq> 0" for tr
    by (simp add: connect_wait_def wifi_bits)
  from connect_starts_reconnect_timer [OF run this] run show ?thesis by auto
qed

subsection \<open>Forgetting a network\<close>

fun stores :: "call \<Rightarrow> bool" where
  "stores (Sys (NvsSetBlob k b)) \<longleftrightarrow> True"
| "stores _ \<longleftrightarrow> False"

lemma no_set_stores: "no_set cs \<longleftrightarrow> list_all (\<lambda>c. \<not> stores c) cs"
  by (auto simp: no_set_def list_all_iff elim: stores.elims)

lemma status_update_stores: "emits (\<lambda>c. \<not> stores c) (wifi_manager_json_status_update ntoa code st)"
  unfolding wifi_manager_json_status_update_def wifi_manager_lock_json_buffer_def
    wifi_manager_generate_ip_info_json_def wifi_manager_unlock_json_buffer_def
  by (intro emits_intros) simp_all

text \<open>
  C18: a disconnection the user asked for is remembered: after a turn has served it, with a
  reliable store, the configuration in memory is cleared, and the next start of the device finds
  no network to connect to, while the settings are those from before.
\<close>

theorem user_disconnect_forgets:
  assumes "nvs_reliable e" "wifi_ok st" "config_sta st = Some c"
    and "turn_disconnect ntoa u st e tr = Inr (st', tr')" "no_set ds"
  shows "config_sta st' = Some zero_sta \<and>
    (\<exists>es. wifi_manager_fetch_wifi_sta_config st2 e (tr' @ ds) =
       Inr ((False, st2\<lparr>config_sta := Some zero_sta, wifi_settings := wifi_settings st\<rparr>), tr' @ ds @ es))"
proof -
  let ?st = "st\<lparr>config_sta := Some zero_sta\<rparr>"
  let ?head = "seqC [wm_clear WIFI_MANAGER_HAVE_INTERNET_BIT, LED_SetEventBit LED_EVENT_WIFI_DISCONNECTED_BIT,
     whenC (u AND WIFI_MANAGER_WIFI_CONNECTED_BIT \<noteq> 0)
       (seqC [wm_clear WIFI_MANAGER_STA_DISCONNECT_BIT, checkC (Wifi WifiDisconnect), wait_disconnected]),
     wm_clear WIFI_MANAGER_STA_DISCONNECT_BIT]"
  have ok: "wifi_ok ?st" using assms(2) by (auto simp: wifi_ok_def zero_sta_def)
  obtain tr1 where "?head e tr = Inr ((), tr1)" and
    rest: "bindC (wifi_manager_save_sta_config ?st) (\<lambda>_.
      bindC (wifi_manager_json_status_update ntoa UPDATE_USER_DISCONNECT ?st) (\<lambda>st.
      thenC (wm_clear WIFI_MANAGER_REQUEST_WIFI_DISCONNECT) (ret st))) e tr1 = Inr (st', tr')"
    using assms(3,4) unfolding turn_disconnect_def thenC_run [of ?head] bindE_eq_Inr Let_def by auto
  let ?tr2 = "tr1 @ sta_saves zero_sta (wifi_settings st) @ [Sys NvsClose]"
  obtain cs where upd: "wifi_manager_json_status_update ntoa UPDATE_USER_DISCONNECT ?st e ?tr2 = Inr (st', ?tr2 @ cs)"
    and tr': "tr' = ?tr2 @ cs @ [Rtos (EventGroupClearBits WifiGroup WIFI_MANAGER_REQUEST_WIFI_DISCONNECT)]"
    and cs: "no_set cs"
  proof -
    from rest obtain x where x: "wifi_manager_json_status_update ntoa UPDATE_USER_DISCONNECT ?st e ?tr2 = Inr (st', x)"
      "tr' = x @ [Rtos (EventGroupClearBits WifiGroup WIFI_MANAGER_REQUEST_WIFI_DISCONNECT)]"
      using save_sta_run [OF assms(1) ok, of zero_sta tr1] by (auto simp: cmd_simps bindE_eq_Inr)
    moreover obtain cs where "x = ?tr2 @ cs" "list_all (\<lambda>c. \<not> stores c) cs"
      using status_update_stores x(1) by (rule emitsE)
    ultimately show ?thesis using that [of cs] by (simp add: no_set_stores)
  qed
  have "sta_stored zero_sta (wifi_settings st) (?tr2 @ cs @ [Rtos (EventGroupClearBits WifiGroup WIFI_MANAGER_REQUEST_WIFI_DISCONNECT)] @ ds)"
    using sta_stored_append [OF sta_stored_saves [OF ok, of zero_sta tr1]] cs assms(5) by simp
  then have "sta_stored zero_sta (wifi_settings st) (tr' @ ds)" unfolding tr' by simp
  from fetch_sta_run [OF assms(1) this, of st2] have
    "\<exists>es. wifi_manager_fetch_wifi_sta_config st2 e (tr' @ ds) =
       Inr ((False, st2\<lparr>config_sta := Some zero_sta, wifi_settings := wifi_settings st\<rparr>), tr' @ ds @ es)"
    by (simp add: zero_sta_def)
  moreover have "config_sta st' = Some zero_sta"
    using upd unfolding wifi_manager_json_status_update_def wifi_manager_generate_ip_info_json_def
    by (auto simp: cmd_simps bindE_eq_Inr split: if_splits)
  ultimately show ?thesis by blast
qed

lemma generate_ip_zero:
  assumes "length b = JSON_IP_INFO_SIZE"
  shows "\<exists>b'. bindE (ip_json_head zero_sta b) (\<lambda>b. snprintf_at_end b JSON_IP_INFO_SIZE (ip_info_json_format ''0'' ''0'' ''0'' 2)) = Inr b'"
proof -
  have "c_str (sta_ssid zero_sta @ sta_password zero_sta @ [nul]) = []"
    by (simp add: zero_sta_def c_str_def)
  then have "length (ip_text zero_sta ''0'' ''0'' ''0'' (urc UPDATE_USER_DISCONNECT)) < JSON_IP_INFO_SIZE"
    by (simp add: ip_text_def length_ip_format json_quoted_def json_escape_simps wifi_sizes del: urc.simps)
  then show ?thesis
    using builds_ip_json [OF assms, of "''0''" "''0''" "''0''" zero_sta UPDATE_USER_DISCONNECT]
    by (auto simp: builds_def split: sum.splits)
qed

theorem user_disconnect_forgets_witness:
  "\<exists>st' tr' es. turn_disconnect (\<lambda>_. ''0.0.0.0'') 0 ip_demo nvs_env [] = Inr (st', tr') \<and>
     wifi_manager_fetch_wifi_sta_config wifi_demo nvs_env (tr' @ [Sys Restart]) =
       Inr ((False, wifi_demo\<lparr>config_sta := Some zero_sta, wifi_settings := wifi_settings ip_demo\<rparr>),
            tr' @ Sys Restart # es)"
proof -
  have ok: "wifi_ok ip_demo" "ip_info_json ip_demo = Some (replicate 150 nul)" "json_mutex ip_demo"
    using wifi_demo_ok by (simp_all add: ip_demo_def wifi_ok_def wifi_sizes wifi_demo_def)
  obtain c where c: "config_sta ip_demo = Some c" by (simp add: ip_demo_def wifi_demo_def)
  have zok: "wifi_ok (ip_demo\<lparr>config_sta := Some zero_sta\<rparr>)" using ok(1) by (auto simp: wifi_ok_def zero_sta_def)
  obtain b' where "bindE (ip_json_head zero_sta (replicate 150 nul))
      (\<lambda>b. snprintf_at_end b JSON_IP_INFO_SIZE (ip_info_json_format ''0'' ''0'' ''0'' 2)) = Inr b'"
    using generate_ip_zero [of "replicate 150 nul"] by (auto simp: wifi_sizes)
  then have "\<exists>st' tr'. turn_disconnect (\<lambda>_. ''0.0.0.0'') 0 ip_demo nvs_env [] = Inr (st', tr')"
    using save_sta_run [OF nvs_env_reliable zok, of zero_sta] ok c
    by (auto simp: turn_disconnect_def cmd_simps LED_SetEventBit_def wifi_manager_json_status_update_def
        wifi_manager_lock_json_buffer_def wifi_manager_generate_ip_info_json_def wifi_manager_unlock_json_buffer_def
        bindE_eq_Inr liftE_def nvs_env_def)
  then obtain st' tr' where run: "turn_disconnect (\<lambda>_. ''0.0.0.0'') 0 ip_demo nvs_env [] = Inr (st', tr')" by blast
  from user_disconnect_forgets [OF nvs_env_reliable ok(1) c run, of "[Sys Restart]" wifi_demo] run
  show ?thesis by auto
qed

end
