(* ===== verification/Gps.thy ===== *)
theory Gps
  imports Platform Fp Led
begin

text \<open>
  The GPS receiver, \<open>main/gps_if.c\<close>: NMEA sentences arrive over a UART, a parser takes the
  position and the time from GGA sentences and the date and the time from RMC sentences.

  A pointer into the sentence is the rest of the buffer from there on. Local variables that are
  written and never read (the quality of the fix, speed, dilution, the millisecond part, the
  satellites and the like) are left out. The bytes of \<open>degreebuff\<close> are all written
  before they are read, so that its first contents do not matter.
\<close>

subsection \<open>State\<close>

definition GPS_UART_NUM :: nat where "GPS_UART_NUM = 1"
definition GPS_TX_GPIO :: nat where [simp]: "GPS_TX_GPIO = 22"
definition GPS_RX_GPIO :: nat where [simp]: "GPS_RX_GPIO = 23"
definition MAX_SENTENCE_LEN :: nat where "MAX_SENTENCE_LEN = 1024"

record esp_gps =
  lat :: rat
  lon :: rat
  alt :: rat
  gps_year :: u8
  gps_month :: u8
  gps_day :: u8
  gps_hour :: u8
  gps_min :: u8
  gps_sec :: u8

definition esp_gps_init :: esp_gps where
  "esp_gps_init = \<lparr>lat = - 1, lon = - 1, alt = - 1, gps_year = 0, gps_month = 0, gps_day = 0,
     gps_hour = 0, gps_min = 0, gps_sec = 0\<rparr>"

subsection \<open>Reading text\<close>

definition parseHex :: "char \<Rightarrow> u8" where
  "parseHex c =
     (let n = of_char c :: nat in
      if n < 48 then 0 else if n \<le> 57 then of_nat (n - 48)
      else if n < 65 then 0 else if n \<le> 70 then of_nat (n - 65 + 10) else 0)"

definition peek :: "string \<Rightarrow> char result" where
  "peek p = (case p of [] \<Rightarrow> Inl OutOfBounds | c # _ \<Rightarrow> Inr c)"

definition advance :: "nat \<Rightarrow> string \<Rightarrow> string result" where
  "advance n p = (if length p < n then Inl OutOfBounds else Inr (drop n p))"

abbreviation comma :: char where "comma \<equiv> CHR '',''"

text \<open>
  \<open>atof\<close>: blanks, a sign, digits with an optional fraction, rounded to a \<open>double\<close>. The other
  forms the C library accepts (an exponent, a hexadecimal number, infinity and NaN) do not occur
  in NMEA sentences and are not modelled.
\<close>

definition dot_digits :: "string \<Rightarrow> string" where
  "dot_digits t = (case t of c # r \<Rightarrow> if c = CHR ''.'' then takeWhile is_digit r else [] | [] \<Rightarrow> [])"

definition atof_unmodelled :: "string \<Rightarrow> bool" where
  "atof_unmodelled t =
     ((case t of c # _ \<Rightarrow> c \<in> set ''iInN'' | [] \<Rightarrow> False) \<or> prefix ''0x'' t \<or> prefix ''0X'' t \<or>
      (case dropWhile (\<lambda>c. is_digit c \<or> c = CHR ''.'') t of c # _ \<Rightarrow> c \<in> set ''eE'' | [] \<Rightarrow> False))"

definition atof :: "string \<Rightarrow> rat result" where
  "atof s =
     (let (sg, t) = sign_of (dropWhile is_space s);
          ip = takeWhile is_digit t; fp = dot_digits (dropWhile is_digit t)
      in if atof_unmodelled t then Inl Unmodelled
         else Inr (f64 (of_int sg * (of_nat (digits_val 0 ip) + of_nat (digits_val 0 fp) / 10 ^ length fp))))"

text \<open>Conversion of a floating-point value to \<open>uint32_t\<close>; out of range it is undefined.\<close>

definition to_uint32 :: "rat \<Rightarrow> nat result" where
  "to_uint32 x = (let i = trunc x in if 0 \<le> i \<and> i < 2 ^ 32 then Inr (nat i) else Inl Undefined)"

subsection \<open>The check of a sentence\<close>

text \<open>
  The loop over the sentence. Its counter has 8 bits and its bound does not: when the bound is
  more than 255 the loop has no end.
\<close>

fun checksum_loop :: "nat \<Rightarrow> u8 \<Rightarrow> nat \<Rightarrow> string \<Rightarrow> u16 \<Rightarrow> u16 result" where
  "checksum_loop 0 i bound nmea acc = Inl NoFuel"
| "checksum_loop (Suc fuel) i bound nmea acc =
     (if unat i < bound then checksum_loop fuel (i + 1) bound nmea (acc XOR of_char (nmea ! unat i))
      else Inr acc)"

definition checksum_ok :: "nat \<Rightarrow> string \<Rightarrow> bool result" where
  "checksum_ok fuel nmea =
     bindE (strlen nmea) (\<lambda>n.
     if n < 4 then Inl OutOfBounds
     else if nmea ! (n - 4) = CHR ''*''
     then (let acc = ucast (parseHex (nmea ! (n - 3))) * 16 + ucast (parseHex (nmea ! (n - 2)))
           in bindE (checksum_loop fuel 2 (n - 4) nmea acc) (\<lambda>acc. Inr (acc = 0)))
     else Inr True)"

subsection \<open>The fields of a sentence\<close>

text \<open>\<open>ddmm.mmmm\<close>, as degrees times \<open>10^7\<close> and minutes in the same unit, to degrees.\<close>

definition coord_degrees :: "int \<Rightarrow> int \<Rightarrow> rat" where
  "coord_degrees degree minutes =
     (let latitude = f32 (f32 (of_int (c_div degree 100000)) + f32 (f32 (of_int minutes) * f32 (6 / 1000000)));
          i = trunc (f32 (latitude / 100));
          latitudeDegrees = f32 (f64 (f32 (latitude - f32 (of_int (100 * i))) / 60))
      in f32 (latitudeDegrees + f32 (of_int i)))"

text \<open>The sum of the two, a 32-bit number that nobody reads, is computed all the same.\<close>

definition parse_coord :: "nat \<Rightarrow> string \<Rightarrow> (rat \<times> string) result" where
  "parse_coord n p =
     bindE (strncpy (replicate 10 nul) 0 p n) (\<lambda>degreebuff.
     bindE (advance n p) (\<lambda>p.
     bindE (buf_write degreebuff n [nul]) (\<lambda>degreebuff.
     bindE (int32 (atol degreebuff * 10000000)) (\<lambda>degree.
     bindE (strncpy degreebuff 0 p 2) (\<lambda>degreebuff.
     bindE (advance 3 p) (\<lambda>p.
     bindE (strncpy degreebuff 2 p 4) (\<lambda>degreebuff.
     bindE (buf_write degreebuff 6 [nul]) (\<lambda>degreebuff.
     let minutes = c_div (50 * atol degreebuff) 3 in
     bindE (int32 (degree + minutes)) (\<lambda>_. Inr (coord_degrees degree minutes, p))))))))))"

text \<open>The coordinate field and the hemisphere field behind it; nothing for a wrong hemisphere.\<close>

definition parse_position :: "nat \<Rightarrow> char \<Rightarrow> char \<Rightarrow> string \<Rightarrow> ((rat \<times> string) option) result" where
  "parse_position n pos neg p =
     bindE (strchr_next comma p) (\<lambda>p.
     bindE (peek p) (\<lambda>c.
     bindE (if c \<noteq> comma then parse_coord n p else Inr (0, p)) (\<lambda>(deg, p).
     bindE (strchr_next comma p) (\<lambda>p.
     bindE (peek p) (\<lambda>c.
     if c = comma then Inr (Some (deg, p))
     else if c = neg then Inr (Some (- deg, p))
     else if c = pos then Inr (Some (deg, p))
     else Inr None)))))"

text \<open>\<open>hhmmss\<close>, through a \<open>float\<close>; each part is cut to 8 bits.\<close>

definition parse_time :: "string \<Rightarrow> (u8 \<times> u8 \<times> u8) result" where
  "parse_time p =
     bindE (atof p) (\<lambda>v.
     bindE (to_uint32 (f32 v)) (\<lambda>time.
     Inr (of_nat (time div 10000), of_nat (time mod 10000 div 100), of_nat (time mod 100))))"

text \<open>Skip to behind the next comma, a number of times.\<close>

fun skip_fields :: "nat \<Rightarrow> string \<Rightarrow> string result" where
  "skip_fields 0 p = Inr p"
| "skip_fields (Suc n) p = bindE (strchr_next comma p) (\<lambda>p. skip_fields n p)"

subsection \<open>Sentences\<close>

definition parse_gga :: "string \<Rightarrow> esp_gps \<Rightarrow> (esp_err \<times> esp_gps) result" where
  "parse_gga nmea st =
     bindE (strchr_next comma nmea) (\<lambda>p.
     bindE (parse_time p) (\<lambda>(hour, minute, seconds).
     bindE (parse_position 2 (CHR ''N'') (CHR ''S'') p) (\<lambda>r.
     case r of None \<Rightarrow> Inr (ESP_FAIL, st) | Some (latitudeDegrees, p) \<Rightarrow>
     bindE (parse_position 3 (CHR ''E'') (CHR ''W'') p) (\<lambda>r.
     case r of None \<Rightarrow> Inr (ESP_FAIL, st) | Some (longitudeDegrees, p) \<Rightarrow>
     bindE (skip_fields 4 p) (\<lambda>p.
     bindE (peek p) (\<lambda>c.
     bindE (if c \<noteq> comma then bindE (atof p) (\<lambda>v. Inr (f32 v)) else Inr 0) (\<lambda>altitude.
     bindE (skip_fields 2 p) (\<lambda>p.
     Inr (ESP_OK, st\<lparr>alt := altitude, lat := latitudeDegrees, lon := longitudeDegrees,
                    gps_hour := hour, gps_min := minute, gps_sec := seconds\<rparr>)))))))))"

definition parse_date :: "string \<Rightarrow> (u8 \<times> u8 \<times> u8) result" where
  "parse_date p =
     bindE (peek p) (\<lambda>c.
     if c \<noteq> comma
     then bindE (atof p) (\<lambda>v.
          bindE (to_uint32 v) (\<lambda>fulldate.
          Inr (of_nat (fulldate div 10000), of_nat (fulldate mod 10000 div 100), of_nat (fulldate mod 100))))
     else Inr (0, 0, 0))"

text \<open>The positions in an RMC sentence are parsed, and not used.\<close>

definition parse_rmc :: "string \<Rightarrow> esp_gps \<Rightarrow> (esp_err \<times> esp_gps) cmd" where
  "parse_rmc nmea st =
     bindC (liftE (strchr_next comma nmea)) (\<lambda>p.
     bindC (liftE (parse_time p)) (\<lambda>(hour, minute, seconds).
     bindC (liftE (strchr_next comma p)) (\<lambda>p.
     bindC (liftE (peek p)) (\<lambda>c.
     if c \<noteq> CHR ''A'' \<and> c \<noteq> CHR ''V'' then ret (ESP_FAIL, st) else
     bindC (liftE (parse_position 2 (CHR ''N'') (CHR ''S'') p)) (\<lambda>r.
     case r of None \<Rightarrow> ret (ESP_FAIL, st) | Some (_, p) \<Rightarrow>
     bindC (liftE (parse_position 3 (CHR ''E'') (CHR ''W'') p)) (\<lambda>r.
     case r of None \<Rightarrow> ret (ESP_FAIL, st) | Some (_, p) \<Rightarrow>
     bindC (liftE (skip_fields 3 p)) (\<lambda>p.
     bindC (liftE (parse_date p)) (\<lambda>(day, month, year).
     thenC (whenC (year < 80) (LED_SetEventBit LED_EVENT_GPS_RTC_SET_BIT))
     (ret (ESP_OK, st\<lparr>gps_day := day, gps_month := month, gps_year := year,
                     gps_hour := hour, gps_min := minute, gps_sec := seconds\<rparr>))))))))))"

text \<open>A failed check returns \<open>false\<close>, which is \<open>ESP_OK\<close>.\<close>

definition parse :: "nat \<Rightarrow> string \<Rightarrow> esp_gps \<Rightarrow> (esp_err \<times> esp_gps) cmd" where
  "parse fuel nmea st =
     bindC (liftE (checksum_ok fuel nmea)) (\<lambda>ok.
     if \<not> ok then ret (ESP_OK, st)
     else if strstr (c_str nmea) ''$GPGGA'' \<noteq> None then liftE (parse_gga nmea st)
     else if strstr (c_str nmea) ''$GPRMC'' \<noteq> None then parse_rmc nmea st
     else ret (ESP_FAIL, st))"

subsection \<open>The task and the interface\<close>

definition uart_gps_event :: "nat \<Rightarrow> uart_event \<Rightarrow> esp_gps \<Rightarrow> esp_gps cmd" where
  "uart_gps_event fuel ev st =
     (let nmea = replicate MAX_SENTENCE_LEN nul in
      case ev of
        UART_FIFO_OVF \<Rightarrow>
          thenC (seqC [doC (Uart (UartFlushInput GPS_UART_NUM)), doC (Rtos (QueueReset ''gps_event_queue''))]) (ret st)
      | UART_BUFFER_FULL \<Rightarrow>
          thenC (seqC [doC (Uart (UartFlushInput GPS_UART_NUM)), doC (Rtos (QueueReset ''gps_event_queue''))]) (ret st)
      | UART_PATTERN_DET \<Rightarrow>
          thenC (doC (Uart (UartGetBufferedLen GPS_UART_NUM)))
          (bindC (askI (Uart (UartPatternPopPos GPS_UART_NUM))) (\<lambda>pos.
           if pos \<noteq> - 1
           then bindC (askIS (Uart (UartReadBytes GPS_UART_NUM (nat (pos + 1))))) (\<lambda>(read_len, bs).
                bindC (liftE (buf_write nmea 0 bs)) (\<lambda>nmea.
                if read_len < 0 then failC OutOfBounds else
                bindC (liftE (buf_write nmea (nat read_len) [nul])) (\<lambda>nmea.
                bindC (parse fuel nmea st) (\<lambda>(_, st). ret st))))
           else thenC (doC (Uart (UartFlushInput GPS_UART_NUM))) (ret st)))
      | _ \<Rightarrow> ret st)"

definition GPS_Initialize :: "esp_err cmd" where
  "GPS_Initialize =
     bindC (askI (Uart (UartParamConfig GPS_UART_NUM))) (\<lambda>err.
     if err \<noteq> ESP_OK then ret err else
     bindC (askI (Uart (UartSetPin GPS_UART_NUM GPS_TX_GPIO GPS_RX_GPIO))) (\<lambda>err.
     if err \<noteq> ESP_OK then ret err else
     bindC (askI (Uart (UartDriverInstall GPS_UART_NUM (MAX_SENTENCE_LEN * 2) 20))) (\<lambda>err.
     if err \<noteq> ESP_OK then ret err else
     thenC (seqC [doC (Uart (UartEnablePatternDet GPS_UART_NUM lf)), doC (Uart (UartPatternQueueReset GPS_UART_NUM 20)),
                  doC (Uart (UartFlush GPS_UART_NUM)), doC (Rtos (TaskCreate ''uart_pms_event_task'')),
                  LED_SetEventBit LED_EVENT_GPS_RTC_NOT_SET_BIT])
       (ret err))))"

definition GPS_Tx :: "string \<Rightarrow> unit cmd" where
  "GPS_Tx pmtk = doC (Uart (UartWriteBytes GPS_UART_NUM pmtk))"

definition GPS_Poll :: "esp_gps \<Rightarrow> esp_gps \<Rightarrow> esp_gps" where
  "GPS_Poll gps st =
     gps\<lparr>alt := alt st, lat := lat st, lon := lon st, gps_year := gps_year st, gps_month := gps_month st,
         gps_day := gps_day st, gps_hour := gps_hour st, gps_min := gps_min st, gps_sec := gps_sec st\<rparr>"

subsection \<open>Accuracy of a coordinate\<close>

lemma fl_error_le: "\<bar>x\<bar> \<le> b \<Longrightarrow> \<bar>fl p x - x\<bar> \<le> b / 2 ^ p"
  by (rule order_trans [OF fl_error]) (simp add: divide_right_mono)

lemma c_div_nonneg: "0 \<le> a \<Longrightarrow> c_div a b = a div b"
  by (simp add: c_div_def)

lemma fl_error_num: "\<bar>x\<bar> \<le> b \<Longrightarrow> b \<le> c * 2 ^ p \<Longrightarrow> \<bar>fl p x - x\<bar> \<le> c"
  using fl_error_le [of x "c * 2 ^ p" p] by simp

text \<open>The minutes, from units of \<open>10^-7\<close> degrees.\<close>

lemma minutes_error:
  assumes "0 \<le> m" "m < 600000"
  defines "b \<equiv> f32 (f32 (of_int (50 * m div 3)) * f32 (6 / 1000000))"
  shows "\<bar>b - of_int m / 10000\<bar> \<le> 112 / 10000000" "0 \<le> b"
proof -
  define a where "a = 50 * m div 3"
  have a: "0 \<le> a" "a \<le> 9999984" "3 * a \<le> 50 * m" "50 * m \<le> 3 * a + 2"
    using assms(1,2) by (auto simp: a_def)
  have fa: "f32 (of_int a) = of_int a" using a(1,2) by (intro fl_of_int) simp_all
  define C where "C = f32 (6 / 1000000)"
  have C: "\<bar>C - 6 / 1000000\<bar> \<le> (6 / 1000000) / 2 ^ 24"
    unfolding C_def by (rule fl_error_le) simp
  then have C0: "0 \<le> C" "C \<le> 6000001 / 1000000000000"
    using abs_le_D1 [OF C] abs_le_D2 [OF C] by simp_all
  have ra: "(0 :: rat) \<le> of_int a" "of_int a \<le> (9999984 :: rat)" using a(1,2) by simp_all
  have ac: "of_int a * (6 / 1000000) \<le> (600000 :: rat) / 10000" using ra by simp
  have "\<bar>of_int a * C - of_int a * (6 / 1000000)\<bar> = of_int a * \<bar>C - 6 / 1000000\<bar>"
    unfolding right_diff_distrib [symmetric] abs_mult using ra(1) by (simp only: abs_of_nonneg)
  also have "\<dots> \<le> of_int a * ((6 / 1000000) / 2 ^ 24)" using C ra by (intro mult_left_mono) simp_all
  also have "\<dots> \<le> 36 / 10000000" using ra by simp
  finally have 1: "\<bar>of_int a * C - of_int a * (6 / 1000000)\<bar> \<le> 36 / 10000000" .
  have ub: "\<bar>of_int a * C\<bar> \<le> 9999984 * (6000001 / 1000000000000)"
    unfolding abs_mult abs_of_nonneg [OF ra(1)] abs_of_nonneg [OF C0(1)]
    using ra C0 by (intro mult_mono) simp_all
  then have "\<bar>f32 (of_int a * C) - of_int a * C\<bar> \<le> (9999984 * (6000001 / 1000000000000)) / 2 ^ 24"
    by (rule fl_error_le)
  then have 2: "\<bar>f32 (of_int a * C) - of_int a * C\<bar> \<le> 36 / 10000000" by simp
  have "(of_int (3 * a) :: rat) \<le> of_int (50 * m)" "(of_int (50 * m) :: rat) \<le> of_int (3 * a + 2)"
    using a(3,4) by (simp_all only: of_int_le_iff)
  then have "3 * (of_int a :: rat) \<le> 50 * of_int m" "50 * of_int m \<le> 3 * (of_int a :: rat) + 2"
    by simp_all
  then have 3: "\<bar>of_int a * (6 / 1000000) - of_int m / 10000\<bar> \<le> (4 :: rat) / 1000000" by (simp add: abs_le_iff)
  have b: "b = f32 (of_int a * C)" by (simp add: b_def a_def [symmetric] fa C_def)
  show "\<bar>b - of_int m / 10000\<bar> \<le> 112 / 10000000" unfolding b using 1 2 3 by linarith
  have "0 \<le> of_int a * C" using ra(1) C0(1) by (rule mult_nonneg_nonneg)
  moreover have "of_int a * C < 2 ^ 24" using abs_le_D1 [OF ub] by simp
  ultimately show "0 \<le> b"
    unfolding b using fl_ge_int [of 0 "of_int a * C" 24] by (cases "of_int a * C = 0") (simp_all only: less_le, auto)
qed

text \<open>
  The whole computation, for a position of \<open>d\<close> degrees and \<open>m\<close> ten-thousandths of a minute:
  the truncation finds the degrees again, and the rounding errors add up to less than three
  hundred-thousandths of a degree.
\<close>

lemma coord_degrees_error:
  assumes d: "0 \<le> d" "d \<le> 180" and m: "0 \<le> m" "m < 600000"
  shows "\<bar>coord_degrees (d * 10000000) (50 * m div 3) - (of_int d + of_int m / 600000)\<bar> \<le> 3 / 100000"
proof -
  define D M :: rat where "D = of_int d" and "M = of_int m"
  define b where "b = f32 (f32 (of_int (50 * m div 3)) * f32 (6 / 1000000))"
  have b: "\<bar>b - M / 10000\<bar> \<le> 112 / 10000000" "0 \<le> b"
    using minutes_error [OF m] by (simp_all only: b_def M_def)
  have D: "0 \<le> D" "D \<le> 180" and M: "0 \<le> M" "M \<le> 600000" using d m by (simp_all add: D_def M_def)
  have f: "f32 (100 * D) = 100 * D" "f32 D = D"
    using fl_of_int [of "100 * d" 24] fl_of_int [of d 24] d by (simp_all add: D_def)
  define s where "s = 100 * D + b"
  have s: "0 \<le> s" "s \<le> 18061" "100 * D \<le> s" unfolding s_def using D M b by linarith+
  define l where "l = f32 s"
  have "\<bar>s\<bar> \<le> 18061" using s by linarith
  then have l: "\<bar>l - s\<bar> \<le> 11 / 10000" unfolding l_def by (rule fl_error_num) simp
  have lo: "100 * D \<le> l"
  proof (cases "s = 0")
    case True
    then show ?thesis using s D by (simp add: l_def)
  next
    case False
    have "of_int (100 * d) \<le> fl 24 s" by (rule fl_ge_int) (use s d False in \<open>simp_all add: D_def\<close>)
    then show ?thesis by (simp add: l_def D_def)
  qed
  define q where "q = l / 100"
  have q: "D \<le> q" "q \<le> D + 61 / 100" using lo l b(1) M unfolding q_def s_def by linarith+
  have "\<bar>q\<bar> \<le> 181" using q D by linarith
  then have fq: "\<bar>f32 q - q\<bar> \<le> 1 / 10000" by (rule fl_error_num) simp
  have "D \<le> f32 q"
  proof (cases "q = 0")
    case True
    then show ?thesis using q D by simp
  next
    case False
    have "of_int d \<le> fl 24 q" by (rule fl_ge_int) (use q D d False in \<open>simp_all add: D_def [symmetric]\<close>)
    then show ?thesis by (simp add: D_def)
  qed
  moreover have "f32 q < D + 1" using fq q D by linarith
  ultimately have i: "trunc (f32 q) = d"
    using d by (simp add: trunc_def D_def floor_eq_iff)
  define x where "x = f32 (l - 100 * D)"
  have "\<bar>l - 100 * D\<bar> \<le> 61" using q lo unfolding q_def by linarith
  then have x: "\<bar>x - (l - 100 * D)\<bar> \<le> 4 / 1000000" unfolding x_def by (rule fl_error_num) simp
  define y where "y = f64 (x / 60)"
  have x60: "\<bar>x / 60\<bar> \<le> 2" using x q lo unfolding q_def by linarith
  have y: "\<bar>y - x / 60\<bar> \<le> 1 / 1000000000" unfolding y_def by (rule fl_error_num [OF x60]) simp
  define z where "z = f32 y"
  have y3: "\<bar>y\<bar> \<le> 3" using x60 y by linarith
  have z: "\<bar>z - y\<bar> \<le> 2 / 10000000" unfolding z_def by (rule fl_error_num [OF y3]) simp
  have z4: "\<bar>z + D\<bar> \<le> 184" using z y3 D by linarith
  have w: "\<bar>f32 (z + D) - (z + D)\<bar> \<le> 11 / 1000000" by (rule fl_error_num [OF z4]) simp
  have "coord_degrees (d * 10000000) (50 * m div 3) = f32 (z + D)"
    using d f i by (simp add: coord_degrees_def c_div_def Let_def b_def s_def l_def q_def x_def y_def z_def D_def)
  then show ?thesis
    unfolding D_def [symmetric] M_def [symmetric]
    using w z y x l b(1) unfolding s_def by linarith
qed

subsection \<open>Reading digits\<close>

definition digits :: "nat \<Rightarrow> string \<Rightarrow> bool" where
  "digits n s \<longleftrightarrow> length s = n \<and> list_all is_digit s"

lemma digitsD: "digits n s \<Longrightarrow> length s = n" "digits n s \<Longrightarrow> c \<in> set s \<Longrightarrow> is_digit c"
  by (auto simp: digits_def list_all_iff)

lemma is_digit_other [simp]:
  "\<not> is_digit comma" "\<not> is_digit nul" "\<not> is_digit (CHR ''.'')" "\<not> is_digit (CHR ''*'')"
  "\<not> is_digit (CHR ''i'')" "\<not> is_digit (CHR ''I'')" "\<not> is_digit (CHR ''n'')" "\<not> is_digit (CHR ''N'')"
  "\<not> is_digit (CHR ''x'')" "\<not> is_digit (CHR ''X'')" "\<not> is_digit (CHR ''e'')" "\<not> is_digit (CHR ''E'')"
  "\<not> is_digit (CHR ''-'')" "\<not> is_digit (CHR ''+'')"
  by (simp_all add: is_digit_def)

lemma digit_not_space: "is_digit c \<Longrightarrow> \<not> is_space c"
  by (auto simp: is_digit_def is_space_def)

lemma takeWhile_digits: "digits n s \<Longrightarrow> \<not> is_digit c \<Longrightarrow> takeWhile is_digit (s @ c # r) = s"
  by (simp add: digits_def takeWhile_append list_all_iff)

lemma dropWhile_digits: "digits n s \<Longrightarrow> \<not> is_digit c \<Longrightarrow> dropWhile is_digit (s @ c # r) = c # r"
  by (simp add: digits_def dropWhile_append list_all_iff)

lemma sign_of_digits:
  assumes "digits n s" "0 < n"
  shows "sign_of (dropWhile is_space (s @ r)) = (1, s @ r)"
proof -
  obtain c s' where s: "s = c # s'" using assms by (cases s) (auto simp: digits_def)
  have c: "is_digit c" using digitsD(2) [OF assms(1)] s by simp
  then have "c \<noteq> CHR ''-''" "c \<noteq> CHR ''+''" by auto
  then show ?thesis using s digit_not_space [OF c] by (simp add: sign_of_def)
qed

lemma atol_digits:
  assumes "digits n s" "0 < n" "\<not> is_digit c"
  shows "atol (s @ c # r) = int (digits_val 0 s)"
  using sign_of_digits [OF assms(1,2), of "c # r"] takeWhile_digits [OF assms(1,3), of r]
  by (simp add: atol_def)

lemma digits_val_pow: "digits_val a s = a * 10 ^ length s + digits_val 0 s"
proof (induction s arbitrary: a)
  case (Cons c s)
  show ?case using Cons.IH [of "10 * a + digit_val c"] Cons.IH [of "digit_val c"] by (simp add: algebra_simps)
qed simp

lemma digits_val_two: "digits_val 0 (s @ t) = digits_val 0 s * 10 ^ length t + digits_val 0 t"
  using digits_val_pow [of "digits_val 0 s" t] by (simp add: digits_val_append)

lemma digits_val_less: "digits n s \<Longrightarrow> digits_val 0 s < 10 ^ n"
proof (induction s arbitrary: n)
  case (Cons c s)
  then have "digits (length s) s" "is_digit c" by (auto simp: digits_def)
  then have "digits_val 0 s < 10 ^ length s" "digit_val c \<le> 9"
    using Cons.IH by (auto simp: digit_val_def is_digit_def)
  then have "digit_val c * 10 ^ length s + digits_val 0 s < 10 * 10 ^ length s"
    using mult_le_mono1 [of "digit_val c" 9 "10 ^ length s"] by linarith
  then show ?case using Cons.prems digits_val_pow [of "digit_val c" s] by (auto simp: digits_def)
qed (simp add: digits_def)

lemma atof_int:
  assumes "digits n s" "0 < n" "\<not> is_digit c" "c \<notin> set ''.eExX''"
  shows "atof (s @ c # r) = Inr (f64 (of_nat (digits_val 0 s)))"
proof -
  have "dropWhile (\<lambda>c. is_digit c \<or> c = CHR ''.'') (s @ c # r) = c # r"
    using assms by (simp add: dropWhile_append digits_def list_all_iff)
  moreover have "\<not> prefix ''0x'' (s @ c # r)" "\<not> prefix ''0X'' (s @ c # r)"
    using assms by (cases s; cases "tl s"; auto simp: digits_def)+
  moreover have "\<not> (case s @ c # r of c # _ \<Rightarrow> c \<in> set ''iInN'' | [] \<Rightarrow> False)"
    using assms(1,2) by (cases s) (auto simp: digits_def)
  ultimately show ?thesis
    using assms sign_of_digits [OF assms(1,2), of "c # r"] takeWhile_digits [OF assms(1,3), of r]
      dropWhile_digits [OF assms(1,3), of r]
    by (simp add: atof_def atof_unmodelled_def dot_digits_def)
qed

subsection \<open>Reading a sentence\<close>

record nmea_coord =
  nc_deg :: string
  nc_min :: string
  nc_frac :: string

definition coord_text :: "nmea_coord \<Rightarrow> string" where
  "coord_text c = nc_deg c @ nc_min c @ ''.'' @ nc_frac c"

definition coord_wf :: "nat \<Rightarrow> nmea_coord \<Rightarrow> bool" where
  "coord_wf n c \<longleftrightarrow> digits n (nc_deg c) \<and> digits 2 (nc_min c) \<and> digits 4 (nc_frac c) \<and>
     digits_val 0 (nc_deg c) \<le> 180 \<and> digits_val 0 (nc_min c @ nc_frac c) < 600000"

text \<open>The position the field stands for, in degrees.\<close>

definition coord_val :: "nmea_coord \<Rightarrow> rat" where
  "coord_val c = of_nat (digits_val 0 (nc_deg c)) + of_nat (digits_val 0 (nc_min c @ nc_frac c)) / 600000"

lemma strchr_next_field: "comma \<notin> set f \<Longrightarrow> nul \<notin> set f \<Longrightarrow> strchr_next comma (f @ comma # r) = Inr r"
  by (induction f) (auto simp: strchr_next_def)

lemma strncpy_take:
  assumes "nul \<notin> set (take n src)" "n \<le> length src" "off + n \<le> length b"
  shows "strncpy b off src n = Inr (take off b @ take n src @ drop (off + n) b)"
proof -
  have "c_str (take n src) = take n src" using assms(1) by (simp add: c_str_def takeWhile_no_end)
  then show ?thesis using assms by (auto simp: strncpy_def buf_write_def Let_def)
qed

lemma digits_no: "digits n s \<Longrightarrow> nul \<notin> set s" "digits n s \<Longrightarrow> comma \<notin> set s"
  using digitsD(2) is_digit_other(1,2) by blast+

lemma parse_coord_text:
  assumes "coord_wf n c" "n = 2 \<or> n = 3"
  shows "\<exists>x q. parse_coord n (coord_text c @ r) = Inr (x, q) \<and> \<bar>x - coord_val c\<bar> \<le> 3 / 100000 \<and> q = nc_frac c @ r"
proof -
  obtain dd mm ff where c: "nc_deg c = dd" "nc_min c = mm" "nc_frac c = ff" by blast
  have dd: "digits n dd" and mm: "digits 2 mm" and ff: "digits 4 ff"
    and dv: "digits_val 0 dd \<le> 180" and mv: "digits_val 0 (mm @ ff) < 600000"
    using assms(1) by (simp_all add: coord_wf_def c)
  have n: "0 < n" "n < 10" "length dd = n" "length mm = 2" "length ff = 4"
    using assms(2) dd mm ff digitsD(1) by auto
  have mf: "digits 6 (mm @ ff)" using mm ff by (simp add: digits_def)
  define b1 where "b1 = dd @ nul # replicate (9 - n) nul"
  have lb: "length b1 = 10" using n by (simp add: b1_def)
  have 1: "strncpy (replicate 10 nul) 0 (coord_text c @ r) n = Inr (dd @ replicate (10 - n) nul)"
    using n digits_no(1) [OF dd] by (subst strncpy_take) (simp_all add: coord_text_def c)
  have 2: "buf_write (dd @ replicate (10 - n) nul) n [nul] = Inr b1"
    using n by (cases "10 - n") (simp_all add: buf_write_def b1_def)
  have 3: "atol b1 = int (digits_val 0 dd)" using atol_digits [OF dd n(1)] by (simp add: b1_def)
  have 4: "strncpy b1 0 (mm @ ''.'' @ ff @ r) 2 = Inr (mm @ drop 2 b1)"
    using n lb digits_no(1) [OF mm] strncpy_take [of 2 "mm @ ''.'' @ ff @ r" 0 b1] by (simp add: numeral_2_eq_2)
  have 5: "strncpy (mm @ drop 2 b1) 2 (ff @ r) 4 = Inr (mm @ ff @ drop 6 b1)"
    using n lb digits_no(1) [OF ff] strncpy_take [of 4 "ff @ r" 2 "mm @ drop 2 b1"] by simp
  have 6: "buf_write (mm @ ff @ drop 6 b1) 6 [nul] = Inr (mm @ ff @ nul # drop 7 b1)"
    using n lb by (simp add: buf_write_def)
  have 7: "atol (mm @ ff @ nul # drop 7 b1) = int (digits_val 0 (mm @ ff))"
    using atol_digits [OF mf, of nul "drop 7 b1"] by simp
  let ?x = "coord_degrees (int (digits_val 0 dd) * 10000000) (50 * int (digits_val 0 (mm @ ff)) div 3)"
  have "50 * int (digits_val 0 (mm @ ff)) div 3 < 10000000" using mv by simp
  then have "parse_coord n (coord_text c @ r) = Inr (?x, ff @ r)"
    unfolding parse_coord_def 1 bindE_simps
    using 2 3 4 5 6 7 n dv by (simp add: advance_def coord_text_def c int32_def c_div_def Let_def pos_imp_zdiv_nonneg_iff)
  moreover have "\<bar>?x - coord_val c\<bar> \<le> 3 / 100000"
    using coord_degrees_error [of "int (digits_val 0 dd)" "int (digits_val 0 (mm @ ff))"] dv mv
    by (simp add: coord_val_def c)
  ultimately show ?thesis by (simp add: c)
qed

lemma coord_text_no: "coord_wf n c \<Longrightarrow> comma \<notin> set (nc_frac c) \<and> nul \<notin> set (nc_frac c)"
  using digits_no by (auto simp: coord_wf_def)

lemma coord_text_head: "coord_wf n c \<Longrightarrow> 0 < n \<Longrightarrow> \<exists>d t. coord_text c = d # t \<and> is_digit d"
  by (cases "nc_deg c") (auto simp: coord_wf_def coord_text_def digits_def)

text \<open>The sign of a hemisphere.\<close>

definition hemi :: "char \<Rightarrow> char \<Rightarrow> rat" where
  "hemi neg h = (if h = neg then - 1 else 1)"

lemma parse_position_text:
  assumes wf: "coord_wf n c" "n = 2 \<or> n = 3"
    and f: "comma \<notin> set f" "nul \<notin> set f" and h: "h \<in> {pos, neg}" "comma \<notin> {pos, neg}" "pos \<noteq> neg"
  shows "\<exists>x. parse_position n pos neg (f @ comma # coord_text c @ comma # h # r) = Inr (Some (x, h # r)) \<and>
    \<bar>x - hemi neg h * coord_val c\<bar> \<le> 3 / 100000"
proof -
  obtain d t where d: "coord_text c = d # t" "is_digit d" using coord_text_head [OF wf(1)] wf(2) by auto
  obtain x where x: "parse_coord n (coord_text c @ comma # h # r) = Inr (x, nc_frac c @ comma # h # r)"
    "\<bar>x - coord_val c\<bar> \<le> 3 / 100000"
    using parse_coord_text [OF wf, of "comma # h # r"] by auto
  have nx: "strchr_next comma (nc_frac c @ comma # h # r) = Inr (h # r)"
    using coord_text_no [OF wf(1)] by (simp add: strchr_next_field)
  have dc: "d \<noteq> comma" using d(2) by auto
  have "parse_position n pos neg (f @ comma # coord_text c @ comma # h # r) =
      Inr (Some (if h = neg then - x else x, h # r))"
    using strchr_next_field [OF f, of "coord_text c @ comma # h # r"] x(1) nx dc h d(1)
    by (auto simp: parse_position_def peek_def)
  moreover have "\<bar>(if h = neg then - x else x) - hemi neg h * coord_val c\<bar> \<le> 3 / 100000"
    using x(2) by (auto simp: hemi_def abs_minus_commute)
  ultimately show ?thesis by blast
qed

text \<open>Times and dates: two digits each.\<close>

definition time_wf :: "string \<Rightarrow> string \<Rightarrow> string \<Rightarrow> bool" where
  "time_wf hh mm ss \<longleftrightarrow> digits 2 hh \<and> digits 2 mm \<and> digits 2 ss"

lemma to_uint32_nat: "n < 2 ^ 32 \<Longrightarrow> to_uint32 (of_nat n) = Inr n"
  by (simp add: to_uint32_def trunc_def)

lemma six_digits:
  fixes h m s :: nat
  assumes "h < 100" "m < 100" "s < 100"
  shows "(10000 * h + 100 * m + s) div 10000 = h" "(10000 * h + 100 * m + s) mod 10000 div 100 = m"
    "(10000 * h + 100 * m + s) mod 100 = s"
proof -
  have q: "100 * m + s < 10000" using assms by linarith
  have e: "10000 * h + 100 * m + s = (100 * m + s) + h * 10000" by simp
  show "(10000 * h + 100 * m + s) div 10000 = h" unfolding e using q by (simp del: mult.commute)
  have "(10000 * h + 100 * m + s) mod 10000 = 100 * m + s" unfolding e using q by (simp del: mult.commute)
  then show "(10000 * h + 100 * m + s) mod 10000 div 100 = m" using assms by simp
  have "10000 * h + 100 * m + s = s + (100 * h + m) * 100" by simp
  then show "(10000 * h + 100 * m + s) mod 100 = s" using assms by (metis mod_less mod_mult_self1)
qed

lemma parse_six:
  assumes "time_wf hh mm ss"
  defines "v \<equiv> digits_val 0 (hh @ mm @ ss)"
  shows "v = 10000 * digits_val 0 hh + 100 * digits_val 0 mm + digits_val 0 ss" "v < 1000000"
    "v div 10000 = digits_val 0 hh" "v mod 10000 div 100 = digits_val 0 mm" "v mod 100 = digits_val 0 ss"
proof -
  have d: "digits_val 0 hh < 100" "digits_val 0 mm < 100" "digits_val 0 ss < 100"
    "length mm = 2" "length ss = 2"
    using assms(1) digits_val_less [of 2] digitsD(1) by (auto simp: time_wf_def)
  show v: "v = 10000 * digits_val 0 hh + 100 * digits_val 0 mm + digits_val 0 ss"
    unfolding v_def using d(4,5) by (simp add: digits_val_two)
  show "v < 1000000" "v div 10000 = digits_val 0 hh" "v mod 10000 div 100 = digits_val 0 mm" "v mod 100 = digits_val 0 ss"
    unfolding v using d(1-3) six_digits [OF d(1-3)] by simp_all
qed

lemma atof_frac:
  assumes "digits n s" "0 < n" "digits k f" "\<not> is_digit c" "c \<notin> set ''.eE''"
  shows "atof (s @ CHR ''.'' # f @ c # r) = Inr (f64 (of_nat (digits_val 0 s) + of_nat (digits_val 0 f) / 10 ^ k))"
proof -
  have "dropWhile (\<lambda>c. is_digit c \<or> c = CHR ''.'') (s @ CHR ''.'' # f @ c # r) = c # r"
    using assms by (simp add: dropWhile_append digits_def list_all_iff)
  moreover have "\<not> prefix ''0x'' (s @ CHR ''.'' # f @ c # r)" "\<not> prefix ''0X'' (s @ CHR ''.'' # f @ c # r)"
    using assms(1,2) by (cases s; cases "tl s"; auto simp: digits_def)+
  moreover have "\<not> (case s @ CHR ''.'' # f @ c # r of c # _ \<Rightarrow> c \<in> set ''iInN'' | [] \<Rightarrow> False)"
    using assms(1,2) by (cases s) (auto simp: digits_def)
  moreover have "dot_digits (CHR ''.'' # f @ c # r) = f"
    using takeWhile_digits [OF assms(3,4)] by (simp add: dot_digits_def)
  ultimately show ?thesis
    using assms sign_of_digits [OF assms(1,2), of "CHR ''.'' # f @ c # r"] digitsD(1) [OF assms(3)]
      takeWhile_digits [OF assms(1), of "CHR ''.''" "f @ c # r"] dropWhile_digits [OF assms(1), of "CHR ''.''" "f @ c # r"]
    by (simp add: atof_def atof_unmodelled_def)
qed

text \<open>
  The time may have a fraction of a second, of any number of digits. Its value is at most nine
  tenths: the receiver reports at most ten times a second. (A larger one may be rounded up to
  the next second, sixty included.)
\<close>

definition frac_wf :: "string \<Rightarrow> bool" where
  "frac_wf fr \<longleftrightarrow> digits (length fr) fr \<and> 10 * digits_val 0 fr \<le> 9 * 10 ^ length fr"

definition frac_text :: "string \<Rightarrow> string" where
  "frac_text fr = (if fr = [] then [] else CHR ''.'' # fr)"

lemma frac_text_no: "frac_wf fr \<Longrightarrow> \<not> is_digit c \<Longrightarrow> c \<noteq> CHR ''.'' \<Longrightarrow> c \<notin> set (frac_text fr)"
  using digitsD(2) by (auto simp: frac_wf_def frac_text_def)

lemma to_uint32_rounded:
  assumes "v < 1000000" "of_nat v \<le> x" "x \<le> of_nat v + 9 / 10"
  shows "to_uint32 (f32 (f64 x)) = Inr v"
proof -
  have v: "(of_nat v :: rat) \<le> 999999" using assms(1) of_nat_mono [of v 999999, where 'a = rat] by simp
  have "(0 :: rat) \<le> of_nat v" by simp
  then have "\<bar>x\<bar> \<le> 1000000" using assms(2,3) v by linarith
  then have y: "\<bar>f64 x - x\<bar> \<le> 1 / 1000000" by (rule fl_error_num) simp
  then have "\<bar>f64 x\<bar> \<le> 1000001" using \<open>\<bar>x\<bar> \<le> _\<close> by linarith
  then have z: "\<bar>f32 (f64 x) - f64 x\<bar> \<le> 6 / 100" by (rule fl_error_num) simp
  have ge: "of_nat v \<le> fl q u" if "of_nat v \<le> u" "u \<le> 1000001" "(1000001 :: rat) < 2 ^ q" for u q
  proof (cases "u = 0")
    case False
    then have "0 < u" using that(1) \<open>0 \<le> of_nat v\<close> by linarith
    then have "of_int (int v) \<le> fl q u" using that by (intro fl_ge_int) simp_all
    then show ?thesis by simp
  qed (use that in simp)
  have "of_nat v \<le> f64 x" using \<open>\<bar>x\<bar> \<le> _\<close> by (intro ge [OF assms(2)]) simp_all
  then have "of_nat v \<le> f32 (f64 x)" using \<open>\<bar>f64 x\<bar> \<le> _\<close> by (intro ge [of "f64 x"]) simp_all
  moreover have "f32 (f64 x) < of_nat v + 1" using y z assms(3) by linarith
  ultimately have "trunc (f32 (f64 x)) = int v" using \<open>0 \<le> of_nat v\<close> by (simp add: trunc_def floor_eq_iff)
  then show ?thesis using assms(1) by (simp add: to_uint32_def)
qed

lemma parse_time_text:
  assumes "time_wf hh mm ss" "frac_wf fr"
  shows "parse_time (((hh @ mm @ ss) @ frac_text fr) @ comma # r) =
    Inr (of_nat (digits_val 0 hh), of_nat (digits_val 0 mm), of_nat (digits_val 0 ss))"
proof -
  note v = parse_six [OF assms(1)]
  have d: "digits 6 (hh @ mm @ ss)" using assms(1) by (simp add: time_wf_def digits_def)
  have fr: "digits (length fr) fr" "10 * digits_val 0 fr \<le> 9 * 10 ^ length fr" using assms(2) by (simp_all add: frac_wf_def)
  let ?x = "of_nat (digits_val 0 (hh @ mm @ ss)) + of_nat (digits_val 0 fr) / 10 ^ length fr :: rat"
  have "atof (((hh @ mm @ ss) @ frac_text fr) @ comma # r) = Inr (f64 ?x)"
    using atof_int [OF d, of comma r] atof_frac [OF d _ fr(1), of comma r] by (simp add: frac_text_def)
  moreover have "(of_nat (10 * digits_val 0 fr) :: rat) \<le> of_nat (9 * 10 ^ length fr)"
    using fr(2) by (simp only: of_nat_le_iff)
  then have "to_uint32 (f32 (f64 ?x)) = Inr (digits_val 0 (hh @ mm @ ss))"
    by (intro to_uint32_rounded v(2)) (simp_all add: field_simps)
  ultimately show ?thesis using v(3-5) by (simp add: parse_time_def)
qed

text \<open>
  A sentence is accepted without a check when its fourth character from the end is not an
  asterisk, which is so for every sentence that ends as the standard has it, with two
  hexadecimal digits, a carriage return and a line feed.
\<close>

lemma c_str_sentence: "nul \<notin> set s \<Longrightarrow> c_str (s @ nul # pad) = s"
  by (simp add: c_str_def takeWhile_no)

lemma checksum_skipped:
  assumes "nul \<notin> set t" "h \<noteq> CHR ''*''" "h \<noteq> nul" "k \<noteq> nul"
  shows "checksum_ok fuel ((t @ [h, k, cr, lf]) @ nul # pad) = Inr True"
proof -
  have "strlen ((t @ [h, k, cr, lf]) @ nul # pad) = Inr (length t + 4)"
    using assms c_str_sentence [of "t @ [h, k, cr, lf]" pad] by (simp add: strlen_def)
  then show ?thesis using assms(2) by (simp add: checksum_ok_def nth_append)
qed

subsubsection \<open>GGA\<close>

record gga =
  g_hh :: string
  g_mm :: string
  g_ss :: string
  g_frac :: string
  g_lat :: nmea_coord
  g_ns :: char
  g_lon :: nmea_coord
  g_ew :: char
  g_quality :: string
  g_satellites :: string
  g_hdop :: string
  g_alt :: string
  g_altf :: string
  g_unit :: string
  g_tail :: string
  g_sum1 :: char
  g_sum2 :: char

definition plain_field :: "string \<Rightarrow> bool" where
  "plain_field s \<longleftrightarrow> comma \<notin> set s \<and> nul \<notin> set s"

definition gga_wf :: "gga \<Rightarrow> bool" where
  "gga_wf g \<longleftrightarrow> time_wf (g_hh g) (g_mm g) (g_ss g) \<and> frac_wf (g_frac g) \<and> coord_wf 2 (g_lat g) \<and> coord_wf 3 (g_lon g) \<and>
     g_ns g \<in> {CHR ''N'', CHR ''S''} \<and> g_ew g \<in> {CHR ''E'', CHR ''W''} \<and>
     list_all plain_field [g_quality g, g_satellites g, g_hdop g, g_unit g] \<and>
     digits (length (g_alt g)) (g_alt g) \<and> g_alt g \<noteq> [] \<and> digits (length (g_altf g)) (g_altf g) \<and>
     nul \<notin> set (g_tail g) \<and> g_sum1 g \<notin> {CHR ''*'', nul} \<and> g_sum2 g \<noteq> nul"

definition gga_time :: "gga \<Rightarrow> string" where
  "gga_time g = (g_hh g @ g_mm g @ g_ss g) @ frac_text (g_frac g)"

definition gga_end :: "gga \<Rightarrow> string" where
  "gga_end g = g_unit g @ comma # g_tail g @ [CHR ''*'', g_sum1 g, g_sum2 g, cr, lf]"

definition gga_text :: "gga \<Rightarrow> string" where
  "gga_text g = ''$GPGGA'' @ comma # gga_time g @ comma # coord_text (g_lat g) @ comma # g_ns g #
     comma # coord_text (g_lon g) @ comma # g_ew g # comma # g_quality g @ comma # g_satellites g @ comma # g_hdop g @
     comma # g_alt g @ CHR ''.'' # g_altf g @ comma # gga_end g"

text \<open>The same sentence from a receiver without a fix: position and altitude are empty fields.\<close>

definition gga_no_fix :: "gga \<Rightarrow> string" where
  "gga_no_fix g = ''$GPGGA'' @ comma # gga_time g @ [comma, comma, comma, comma, comma] @ g_quality g @
     comma # g_satellites g @ comma # g_hdop g @ comma # comma # gga_end g"

definition gga_alt :: "gga \<Rightarrow> rat" where
  "gga_alt g = of_nat (digits_val 0 (g_alt g)) + of_nat (digits_val 0 (g_altf g)) / 10 ^ length (g_altf g)"

lemma coord_text_nul: "coord_wf n c \<Longrightarrow> nul \<notin> set (coord_text c)"
  using digits_no(1) by (auto simp: coord_wf_def coord_text_def)

lemma gga_nul:
  assumes "gga_wf g" shows "nul \<notin> set (gga_text g)" "nul \<notin> set (gga_no_fix g)"
proof -
  have "nul \<notin> set (gga_time g)" "nul \<notin> set (coord_text (g_lat g))" "nul \<notin> set (coord_text (g_lon g))"
    "nul \<notin> set (g_alt g)" "nul \<notin> set (g_altf g)" "g_ns g \<noteq> nul" "g_ew g \<noteq> nul"
    using assms coord_text_nul digits_no(1) by (auto simp: gga_wf_def time_wf_def gga_time_def frac_text_no)
  moreover have "nul \<notin> set (gga_end g)" using assms by (auto simp: gga_end_def gga_wf_def plain_field_def)
  ultimately show "nul \<notin> set (gga_text g)" "nul \<notin> set (gga_no_fix g)"
    using assms by (simp_all add: gga_text_def gga_no_fix_def gga_wf_def plain_field_def)
qed

lemma gga_checked:
  assumes "gga_wf g" "s = t @ gga_end g" "nul \<notin> set s"
  shows "checksum_ok fuel (s @ nul # pad) = Inr True"
  using checksum_skipped [of "t @ g_unit g @ comma # g_tail g @ ''*''" "g_sum1 g" "g_sum2 g" fuel pad] assms
  by (simp add: gga_end_def gga_wf_def)

lemma strstr_prefix: "strstr (n @ r) n \<noteq> None"
  by (simp add: strstr_None_iff)

text \<open>
  Both forms are sentences that start with their name and end as every GGA sentence does; what is
  left is the reading of the fields.
\<close>

lemma gga_shape:
  "\<exists>t. gga_text g = ''$GPGGA'' @ t @ gga_end g" "\<exists>t. gga_no_fix g = ''$GPGGA'' @ t @ gga_end g"
  unfolding gga_text_def gga_no_fix_def by (simp_all add: append_eq_append_conv2 flip: append_assoc append_Cons)

lemma parse_gga_sentence:
  assumes "gga_wf g" "\<exists>t. s = ''$GPGGA'' @ t @ gga_end g" "nul \<notin> set s"
    and "parse_gga (s @ nul # pad) st = Inr r"
  shows "parse fuel (s @ nul # pad) st e tr = Inr (r, tr)"
proof -
  obtain t where t: "s = ''$GPGGA'' @ t @ gga_end g" using assms(2) by blast
  have "checksum_ok fuel (s @ nul # pad) = Inr True"
    using assms(1,3) t by (intro gga_checked [of g _ "''$GPGGA'' @ t"]) simp_all
  moreover have "strstr (c_str (s @ nul # pad)) ''$GPGGA'' \<noteq> None"
    unfolding c_str_sentence [OF assms(3)] unfolding t by (rule strstr_prefix)
  ultimately show ?thesis using assms(4) by (simp add: parse_def cmd_simps)
qed

lemma parse_gga_steps:
  assumes "strchr_next comma nmea = Inr p" "parse_time p = Inr (h, m, s)"
    and "parse_position 2 (CHR ''N'') (CHR ''S'') p = Inr (Some (la, p1))"
    and "parse_position 3 (CHR ''E'') (CHR ''W'') p1 = Inr (Some (lo, p2))"
    and "skip_fields 4 p2 = Inr p3" "peek p3 = Inr c" "(if c \<noteq> comma then atof p3 else Inr 0) = Inr v"
    and "skip_fields 2 p3 = Inr p4"
  shows "parse_gga nmea st = Inr (ESP_OK, st\<lparr>alt := f32 v, lat := la, lon := lo,
    gps_hour := h, gps_min := m, gps_sec := s\<rparr>)"
  using assms by (auto simp: parse_gga_def split: if_splits)

lemma gga_time_no: "gga_wf g \<Longrightarrow> comma \<notin> set (gga_time g) \<and> nul \<notin> set (gga_time g)"
  using digits_no by (auto simp: gga_wf_def time_wf_def gga_time_def frac_text_no)

lemma gga_read_time: "gga_wf g \<Longrightarrow> parse_time (gga_time g @ comma # r) =
    Inr (of_nat (digits_val 0 (g_hh g)), of_nat (digits_val 0 (g_mm g)), of_nat (digits_val 0 (g_ss g)))"
  using parse_time_text by (simp add: gga_time_def gga_wf_def)

lemma gga_read:
  assumes wf: "gga_wf g"
  shows "\<exists>la lo. parse fuel (gga_text g @ nul # pad) st e tr =
      Inr ((ESP_OK, st\<lparr>alt := f32 (f64 (gga_alt g)), lat := la, lon := lo,
             gps_hour := of_nat (digits_val 0 (g_hh g)), gps_min := of_nat (digits_val 0 (g_mm g)),
             gps_sec := of_nat (digits_val 0 (g_ss g))\<rparr>), tr) \<and>
    \<bar>la - hemi (CHR ''S'') (g_ns g) * coord_val (g_lat g)\<bar> \<le> 3 / 100000 \<and>
    \<bar>lo - hemi (CHR ''W'') (g_ew g) * coord_val (g_lon g)\<bar> \<le> 3 / 100000"
proof -
  let ?fin = "comma # gga_end g @ nul # pad"
  let ?alt = "g_alt g @ CHR ''.'' # g_altf g @ ?fin"
  let ?q = "comma # g_quality g @ comma # g_satellites g @ comma # g_hdop g @ comma # ?alt"
  let ?lon = "comma # coord_text (g_lon g) @ comma # g_ew g # ?q"
  let ?lat = "comma # coord_text (g_lat g) @ comma # g_ns g # ?lon"
  have buf: "gga_text g @ nul # pad = ''$GPGGA'' @ comma # gga_time g @ ?lat" by (simp add: gga_text_def)
  note tf = gga_time_no [OF wf]
  obtain la where la: "parse_position 2 (CHR ''N'') (CHR ''S'') (gga_time g @ ?lat) = Inr (Some (la, g_ns g # ?lon))"
    "\<bar>la - hemi (CHR ''S'') (g_ns g) * coord_val (g_lat g)\<bar> \<le> 3 / 100000"
    using parse_position_text [of 2 "g_lat g" "gga_time g" "g_ns g" "CHR ''N''" "CHR ''S''" ?lon] wf tf by (auto simp: gga_wf_def)
  obtain lo where lo: "parse_position 3 (CHR ''E'') (CHR ''W'') (g_ns g # ?lon) = Inr (Some (lo, g_ew g # ?q))"
    "\<bar>lo - hemi (CHR ''W'') (g_ew g) * coord_val (g_lon g)\<bar> \<le> 3 / 100000"
    using parse_position_text [of 3 "g_lon g" "[g_ns g]" "g_ew g" "CHR ''E''" "CHR ''W''" ?q] wf by (auto simp: gga_wf_def)
  have sk: "skip_fields 4 (g_ew g # ?q) = Inr ?alt"
    using wf by (auto simp: gga_wf_def plain_field_def eval_nat_numeral strchr_next_field
        strchr_next_field [of "[_]", simplified])
  have al: "digits (length (g_alt g)) (g_alt g)" "g_alt g \<noteq> []" "digits (length (g_altf g)) (g_altf g)"
    using wf by (simp_all add: gga_wf_def)
  obtain c l where c: "g_alt g = c # l" "is_digit c" using al(1,2) by (cases "g_alt g") (auto simp: digits_def)
  then have pk: "peek ?alt = Inr c" "c \<noteq> comma" by (auto simp: peek_def)
  have at: "(if c \<noteq> comma then atof ?alt else Inr 0) = Inr (f64 (gga_alt g))"
    using atof_frac [OF al(1) _ al(3), of comma] al(2) pk(2) by (simp add: gga_alt_def)
  have "comma \<notin> set (g_alt g @ CHR ''.'' # g_altf g)" "nul \<notin> set (g_alt g @ CHR ''.'' # g_altf g)"
    using al digits_no by auto
  then obtain p where sk2: "skip_fields 2 ?alt = Inr p"
    using strchr_next_field [of "g_alt g @ CHR ''.'' # g_altf g"] wf
    by (auto simp: eval_nat_numeral strchr_next_field gga_wf_def plain_field_def gga_end_def)
  have start: "strchr_next comma (gga_text g @ nul # pad) = Inr (gga_time g @ ?lat)"
    unfolding buf by (rule strchr_next_field) simp_all
  show ?thesis
    using parse_gga_sentence [OF wf gga_shape(1) gga_nul(1) [OF wf]
        parse_gga_steps [OF start gga_read_time [OF wf] la(1) lo(1) sk pk(1) at sk2]] la(2) lo(2)
    by blast
qed

lemma gga_read_no_fix:
  assumes wf: "gga_wf g"
  shows "parse fuel (gga_no_fix g @ nul # pad) st e tr =
      Inr ((ESP_OK, st\<lparr>alt := 0, lat := 0, lon := 0,
             gps_hour := of_nat (digits_val 0 (g_hh g)), gps_min := of_nat (digits_val 0 (g_mm g)),
             gps_sec := of_nat (digits_val 0 (g_ss g))\<rparr>), tr)"
proof -
  let ?alt = "comma # gga_end g @ nul # pad"
  let ?q = "comma # g_quality g @ comma # g_satellites g @ comma # g_hdop g @ comma # ?alt"
  let ?lon = "comma # comma # ?q"
  let ?lat = "comma # comma # ?lon"
  have buf: "gga_no_fix g @ nul # pad = ''$GPGGA'' @ comma # gga_time g @ ?lat" by (simp add: gga_no_fix_def)
  have start: "strchr_next comma (gga_no_fix g @ nul # pad) = Inr (gga_time g @ ?lat)"
    unfolding buf by (rule strchr_next_field) simp_all
  note no = strchr_next_field strchr_next_field [of "[]", simplified]
  have la: "parse_position 2 (CHR ''N'') (CHR ''S'') (gga_time g @ ?lat) = Inr (Some (0, ?lon))"
    using gga_time_no [OF wf] by (simp add: parse_position_def no peek_def)
  have lo: "parse_position 3 (CHR ''E'') (CHR ''W'') ?lon = Inr (Some (0, ?q))"
    by (simp add: parse_position_def no peek_def)
  have sk: "skip_fields 4 ?q = Inr ?alt" "skip_fields 2 ?alt = Inr (g_tail g @ [CHR ''*'', g_sum1 g, g_sum2 g, cr, lf] @ nul # pad)"
    using wf by (auto simp: gga_wf_def plain_field_def eval_nat_numeral no gga_end_def)
  have pk: "peek ?alt = Inr comma" by (simp add: peek_def)
  show ?thesis
    using parse_gga_sentence [OF wf gga_shape(2) gga_nul(2) [OF wf]
        parse_gga_steps [OF start gga_read_time [OF wf] la lo sk(1) pk _ sk(2), of 0]]
    by simp
qed

text \<open>
  C19: a GGA sentence is read as it is meant: the state takes the time exactly, the altitude
  rounded to a \<open>float\<close>, and the position, with the sign of its hemisphere, to within three
  hundred-thousandths of a degree (about three metres); the date is left alone, and nothing is
  read or written outside the buffers. The sentence of a receiver without a fix sets the time and
  replaces position and altitude by zeros.
\<close>

theorem parse_gga_position:
  assumes "gga_wf g"
  shows "\<exists>la lo. parse fuel (gga_text g @ nul # pad) st e tr =
      Inr ((ESP_OK, st\<lparr>alt := f32 (f64 (gga_alt g)), lat := la, lon := lo,
             gps_hour := of_nat (digits_val 0 (g_hh g)), gps_min := of_nat (digits_val 0 (g_mm g)),
             gps_sec := of_nat (digits_val 0 (g_ss g))\<rparr>), tr) \<and>
    \<bar>la - hemi (CHR ''S'') (g_ns g) * coord_val (g_lat g)\<bar> \<le> 3 / 100000 \<and>
    \<bar>lo - hemi (CHR ''W'') (g_ew g) * coord_val (g_lon g)\<bar> \<le> 3 / 100000 \<and>
    parse fuel (gga_no_fix g @ nul # pad) st e tr =
      Inr ((ESP_OK, st\<lparr>alt := 0, lat := 0, lon := 0,
             gps_hour := of_nat (digits_val 0 (g_hh g)), gps_min := of_nat (digits_val 0 (g_mm g)),
             gps_sec := of_nat (digits_val 0 (g_ss g))\<rparr>), tr)"
  using gga_read [OF assms, of fuel pad st e tr] gga_read_no_fix [OF assms, of fuel pad st e tr] by blast

definition gga_demo :: gga where
  "gga_demo = \<lparr>g_hh = ''12'', g_mm = ''35'', g_ss = ''19'', g_frac = ''000'',
     g_lat = \<lparr>nc_deg = ''48'', nc_min = ''07'', nc_frac = ''0380''\<rparr>, g_ns = CHR ''S'',
     g_lon = \<lparr>nc_deg = ''011'', nc_min = ''31'', nc_frac = ''0000''\<rparr>, g_ew = CHR ''E'',
     g_quality = ''1'', g_satellites = ''08'', g_hdop = ''0.9'', g_alt = ''545'', g_altf = ''4'',
     g_unit = ''M'', g_tail = ''46.9,M,,'', g_sum1 = CHR ''4'', g_sum2 = CHR ''7''\<rparr>"

lemma gga_demo_wf: "gga_wf gga_demo"
  by (simp add: gga_wf_def gga_demo_def time_wf_def frac_wf_def coord_wf_def digits_def is_digit_def digit_val_def plain_field_def)

theorem parse_gga_position_witness:
  "\<exists>st. parse 0 (gga_text gga_demo @ nul # []) esp_gps_init silent_env [] = Inr ((ESP_OK, st), []) \<and>
     gps_hour st = 12 \<and> gps_min st = 35 \<and> gps_sec st = 19 \<and> \<bar>lat st + (48 + 70380 / 600000)\<bar> \<le> 3 / 100000"
proof -
  have v: "digits_val 0 (g_hh gga_demo) = 12" "digits_val 0 (g_mm gga_demo) = 35" "digits_val 0 (g_ss gga_demo) = 19"
    "g_ns gga_demo = CHR ''S''" "digits_val 0 (nc_deg (g_lat gga_demo)) = 48"
    "digits_val 0 (nc_min (g_lat gga_demo) @ nc_frac (g_lat gga_demo)) = 70380"
    by (simp_all add: gga_demo_def digit_val_def)
  show ?thesis
    using parse_gga_position [OF gga_demo_wf, of 0 "[]" esp_gps_init silent_env "[]"]
    by (auto simp: v hemi_def coord_val_def algebra_simps)
qed

subsubsection \<open>RMC\<close>

record rmc =
  r_hh :: string
  r_mm :: string
  r_ss :: string
  r_frac :: string
  r_status :: char
  r_lat :: nmea_coord
  r_ns :: char
  r_lon :: nmea_coord
  r_ew :: char
  r_speed :: string
  r_angle :: string
  r_day :: string
  r_month :: string
  r_year :: string
  r_tail :: string
  r_sum1 :: char
  r_sum2 :: char

definition rmc_wf :: "rmc \<Rightarrow> bool" where
  "rmc_wf r \<longleftrightarrow> time_wf (r_hh r) (r_mm r) (r_ss r) \<and> frac_wf (r_frac r) \<and> time_wf (r_day r) (r_month r) (r_year r) \<and>
     r_status r \<in> {CHR ''A'', CHR ''V''} \<and> coord_wf 2 (r_lat r) \<and> coord_wf 3 (r_lon r) \<and>
     r_ns r \<in> {CHR ''N'', CHR ''S''} \<and> r_ew r \<in> {CHR ''E'', CHR ''W''} \<and>
     list_all plain_field [r_speed r, r_angle r] \<and> nul \<notin> set (r_tail r) \<and>
     CHR ''$'' \<notin> set (r_speed r @ r_angle r @ r_tail r @ [r_sum1 r, r_sum2 r]) \<and>
     r_sum1 r \<notin> {CHR ''*'', nul} \<and> r_sum2 r \<noteq> nul"

definition rmc_time :: "rmc \<Rightarrow> string" where
  "rmc_time r = (r_hh r @ r_mm r @ r_ss r) @ frac_text (r_frac r)"

text \<open>The fields behind the position, and the whole sentence, with a position and without.\<close>

definition rmc_end :: "rmc \<Rightarrow> string" where
  "rmc_end r = comma # r_speed r @ comma # r_angle r @ comma # (r_day r @ r_month r @ r_year r) @ comma # r_tail r @
     [CHR ''*'', r_sum1 r, r_sum2 r, cr, lf]"

definition rmc_rest :: "rmc \<Rightarrow> string" where
  "rmc_rest r = comma # rmc_time r @ comma # r_status r # comma # coord_text (r_lat r) @
     comma # r_ns r # comma # coord_text (r_lon r) @ comma # r_ew r # rmc_end r"

definition rmc_rest_no_fix :: "rmc \<Rightarrow> string" where
  "rmc_rest_no_fix r = comma # rmc_time r @ comma # r_status r # [comma, comma, comma, comma] @ rmc_end r"

definition rmc_text :: "rmc \<Rightarrow> string" where
  "rmc_text r = ''$GPRMC'' @ rmc_rest r"

definition rmc_no_fix :: "rmc \<Rightarrow> string" where
  "rmc_no_fix r = ''$GPRMC'' @ rmc_rest_no_fix r"

lemma digits_not: "digits n s \<Longrightarrow> \<not> is_digit c \<Longrightarrow> c \<notin> set s"
  using digitsD(2) by blast

lemma rmc_rest_no:
  assumes "rmc_wf r" "x \<in> {nul, CHR ''$''}"
  shows "x \<notin> set (rmc_rest r)" "x \<notin> set (rmc_rest_no_fix r)"
proof -
  have x: "\<not> is_digit x" "x \<noteq> CHR ''.''" using assms(2) by (auto simp: is_digit_def)
  have d: "x \<notin> set (rmc_time r)" "x \<notin> set (r_day r @ r_month r @ r_year r)"
    using assms(1) x digits_not by (auto simp: rmc_wf_def time_wf_def rmc_time_def frac_text_no)
  have k: "x \<notin> set (coord_text (r_lat r))" "x \<notin> set (coord_text (r_lon r))"
    using assms(1) x digits_not by (auto simp: rmc_wf_def coord_wf_def coord_text_def)
  have "x \<notin> set (rmc_end r)" using assms d(2) by (auto simp: rmc_end_def rmc_wf_def plain_field_def)
  then show "x \<notin> set (rmc_rest r)" "x \<notin> set (rmc_rest_no_fix r)"
    using assms d(1) k by (auto simp: rmc_rest_def rmc_rest_no_fix_def rmc_wf_def)
qed

text \<open>A sentence of that name goes to its branch of the parser.\<close>

lemma rmc_not_gga: "CHR ''$'' \<notin> set s \<Longrightarrow> strstr (''$GPRMC'' @ s) ''$GPGGA'' = None"
proof -
  assume s: "CHR ''$'' \<notin> set s"
  have "strstr t ''$GPGGA'' = None" if "CHR ''$'' \<notin> set t" for t
    using that by (simp add: strstr_None_iff) (meson list.set_intros(1) set_mono_sublist subsetD)
  from this [of "''GPRMC'' @ s"] s show ?thesis by simp
qed

lemma parse_rmc_steps:
  assumes "strchr_next comma nmea = Inr p" "parse_time p = Inr (h, m, s)" "strchr_next comma p = Inr p0"
    and "peek p0 = Inr c" "c \<in> {CHR ''A'', CHR ''V''}"
    and "parse_position 2 (CHR ''N'') (CHR ''S'') p0 = Inr (Some (la, p1))"
    and "parse_position 3 (CHR ''E'') (CHR ''W'') p1 = Inr (Some (lo, p2))"
    and "skip_fields 3 p2 = Inr p3" "parse_date p3 = Inr (d, mo, y)"
  shows "parse_rmc nmea st e tr = Inr ((ESP_OK, st\<lparr>gps_day := d, gps_month := mo, gps_year := y,
    gps_hour := h, gps_min := m, gps_sec := s\<rparr>),
    tr @ (if y < 80 then [Rtos (EventGroupSetBits LedGroup LED_EVENT_GPS_RTC_SET_BIT)] else []))"
  using assms by (auto simp: parse_rmc_def cmd_simps LED_SetEventBit_def)

lemma parse_date_text:
  assumes "time_wf dd mm yy"
  shows "parse_date ((dd @ mm @ yy) @ comma # r) =
    Inr (of_nat (digits_val 0 dd), of_nat (digits_val 0 mm), of_nat (digits_val 0 yy))"
proof -
  note v = parse_six [OF assms]
  have d: "digits 6 (dd @ mm @ yy)" using assms by (simp add: time_wf_def digits_def)
  then have "atof ((dd @ mm @ yy) @ comma # r) = Inr (f64 (of_nat (digits_val 0 (dd @ mm @ yy))))"
    by (rule atof_int) simp_all
  moreover have "f64 (of_nat (digits_val 0 (dd @ mm @ yy))) = of_nat (digits_val 0 (dd @ mm @ yy))"
    using v(2) by (intro fl_of_nat) simp_all
  moreover have "to_uint32 (of_nat (digits_val 0 (dd @ mm @ yy))) = Inr (digits_val 0 (dd @ mm @ yy))"
    using v(2) by (intro to_uint32_nat) simp
  moreover obtain c l where "(dd @ mm @ yy) @ comma # r = c # l" "c \<noteq> comma"
  proof -
    obtain c t where "dd @ mm @ yy = c # t" "is_digit c"
      using d by (cases "dd @ mm @ yy") (auto simp: digits_def)
    then show ?thesis using that [of c "t @ comma # r"] is_digit_other(1)
      by (metis append_Cons)
  qed
  ultimately show ?thesis using v(3-5) by (simp add: parse_date_def peek_def)
qed

lemma rmc_shape: "\<exists>t. rmc_rest r = t @ rmc_end r" "\<exists>t. rmc_rest_no_fix r = t @ rmc_end r"
  unfolding rmc_rest_def rmc_rest_no_fix_def by (simp_all add: append_eq_append_conv2 flip: append_assoc append_Cons)

lemma parse_rmc_sentence:
  assumes "rmc_wf r" "\<exists>t. s = t @ rmc_end r" "nul \<notin> set s" "CHR ''$'' \<notin> set s"
  shows "parse fuel ((''$GPRMC'' @ s) @ nul # pad) st e tr = parse_rmc ((''$GPRMC'' @ s) @ nul # pad) st e tr"
proof -
  obtain t where t: "s = t @ rmc_end r" using assms(2) by blast
  let ?t = "''$GPRMC'' @ t @ comma # r_speed r @ comma # r_angle r @ comma # (r_day r @ r_month r @ r_year r) @
    comma # r_tail r @ ''*''"
  have no: "nul \<notin> set (''$GPRMC'' @ s)" using assms(3) by simp
  have "''$GPRMC'' @ s = ?t @ [r_sum1 r, r_sum2 r, cr, lf]" by (simp add: t rmc_end_def)
  then have "checksum_ok fuel ((''$GPRMC'' @ s) @ nul # pad) = Inr True"
    using no assms(1) checksum_skipped [of ?t "r_sum1 r" "r_sum2 r" fuel pad] by (simp add: rmc_wf_def)
  moreover have "strstr (c_str ((''$GPRMC'' @ s) @ nul # pad)) ''$GPGGA'' = None"
    "strstr (c_str ((''$GPRMC'' @ s) @ nul # pad)) ''$GPRMC'' \<noteq> None"
    unfolding c_str_sentence [OF no] using rmc_not_gga [OF assms(4)] strstr_prefix by blast+
  ultimately show ?thesis by (simp only: parse_def cmd_simps) simp
qed

text \<open>What both sentences do: only the date and the time are used.\<close>

definition rmc_result :: "rmc \<Rightarrow> esp_gps \<Rightarrow> call list \<Rightarrow> (esp_err \<times> esp_gps) \<times> call list" where
  "rmc_result r st tr =
     ((ESP_OK, st\<lparr>gps_day := of_nat (digits_val 0 (r_day r)), gps_month := of_nat (digits_val 0 (r_month r)),
            gps_year := of_nat (digits_val 0 (r_year r)), gps_hour := of_nat (digits_val 0 (r_hh r)),
            gps_min := of_nat (digits_val 0 (r_mm r)), gps_sec := of_nat (digits_val 0 (r_ss r))\<rparr>),
      tr @ (if digits_val 0 (r_year r) < 80 then [Rtos (EventGroupSetBits LedGroup LED_EVENT_GPS_RTC_SET_BIT)] else []))"

lemma rmc_read_fields:
  assumes wf: "rmc_wf r" and start: "strchr_next comma nmea = Inr (rmc_time r @ comma # r_status r # f1)"
    and la: "parse_position 2 (CHR ''N'') (CHR ''S'') (r_status r # f1) = Inr (Some (la, f2))"
    and lo: "parse_position 3 (CHR ''E'') (CHR ''W'') f2 = Inr (Some (lo, p))"
    and p: "strchr_next comma p = Inr (tl (rmc_end r) @ nul # pad)"
  shows "parse_rmc nmea st e tr = Inr (rmc_result r st tr)"
proof -
  let ?date = "r_day r @ r_month r @ r_year r"
  have T: "time_wf (r_hh r) (r_mm r) (r_ss r)" "time_wf (r_day r) (r_month r) (r_year r)" "frac_wf (r_frac r)"
    using wf by (simp_all add: rmc_wf_def)
  have tf: "comma \<notin> set (rmc_time r)" "nul \<notin> set (rmc_time r)"
    using T digits_no by (auto simp: time_wf_def rmc_time_def frac_text_no)
  have time: "parse_time (rmc_time r @ comma # q) =
      Inr (of_nat (digits_val 0 (r_hh r)), of_nat (digits_val 0 (r_mm r)), of_nat (digits_val 0 (r_ss r)))" for q
    using parse_time_text [OF T(1,3)] by (simp add: rmc_time_def)
  have sk: "skip_fields 3 p = Inr (?date @ comma # r_tail r @ [CHR ''*'', r_sum1 r, r_sum2 r, cr, lf] @ nul # pad)"
    using wf p by (simp add: rmc_wf_def plain_field_def eval_nat_numeral strchr_next_field rmc_end_def)
  have st: "peek (r_status r # f1) = Inr (r_status r)" "r_status r \<in> {CHR ''A'', CHR ''V''}"
    using wf by (simp_all add: peek_def rmc_wf_def)
  have year: "(of_nat (digits_val 0 (r_year r)) :: u8) < 80 \<longleftrightarrow> digits_val 0 (r_year r) < 80"
    using digits_val_less [of 2 "r_year r"] T(2) by (simp add: time_wf_def word_less_nat_alt unat_of_nat)
  show ?thesis
    using parse_rmc_steps [OF start time strchr_next_field [OF tf] st la lo sk, of _ _ _ st e tr]
      parse_date_text [OF T(2)] by (simp add: rmc_result_def year)
qed

lemma rmc_read:
  assumes wf: "rmc_wf r"
  shows "parse fuel (rmc_text r @ nul # pad) st e tr = Inr (rmc_result r st tr)"
proof -
  let ?q = "rmc_end r @ nul # pad"
  let ?lon = "comma # coord_text (r_lon r) @ comma # r_ew r # ?q"
  let ?lat = "comma # coord_text (r_lat r) @ comma # r_ns r # ?lon"
  obtain la where la: "parse_position 2 (CHR ''N'') (CHR ''S'') (r_status r # ?lat) = Inr (Some (la, r_ns r # ?lon))"
    using parse_position_text [of 2 "r_lat r" "[r_status r]" "r_ns r" "CHR ''N''" "CHR ''S''" ?lon] wf by (auto simp: rmc_wf_def)
  obtain lo where lo: "parse_position 3 (CHR ''E'') (CHR ''W'') (r_ns r # ?lon) = Inr (Some (lo, r_ew r # ?q))"
    using parse_position_text [of 3 "r_lon r" "[r_ns r]" "r_ew r" "CHR ''E''" "CHR ''W''" ?q] wf by (auto simp: rmc_wf_def)
  have p: "strchr_next comma (r_ew r # ?q) = Inr (tl (rmc_end r) @ nul # pad)"
    using wf strchr_next_field [of "[r_ew r]"] by (auto simp: rmc_wf_def rmc_end_def)
  have buf: "rmc_text r @ nul # pad = ''$GPRMC'' @ comma # rmc_time r @ comma # r_status r # ?lat"
    by (simp add: rmc_text_def rmc_rest_def)
  have start: "strchr_next comma (rmc_text r @ nul # pad) = Inr (rmc_time r @ comma # r_status r # ?lat)"
    unfolding buf by (rule strchr_next_field) simp_all
  show ?thesis
    using rmc_read_fields [OF wf start la lo p] rmc_rest_no [OF wf]
      parse_rmc_sentence [OF wf rmc_shape(1), of fuel pad st e tr] by (simp add: rmc_text_def)
qed

lemma rmc_read_no_fix:
  assumes wf: "rmc_wf r"
  shows "parse fuel (rmc_no_fix r @ nul # pad) st e tr = Inr (rmc_result r st tr)"
proof -
  let ?q = "rmc_end r @ nul # pad"
  let ?lon = "comma # comma # ?q"
  let ?lat = "comma # comma # ?lon"
  note no = strchr_next_field [of "[]", simplified]
  obtain q where q: "?q = comma # q" by (simp add: rmc_end_def)
  have c: "strchr_next comma (r_status r # comma # t) = Inr t" for t
    using wf strchr_next_field [of "[r_status r]"] by (auto simp: rmc_wf_def)
  have la: "parse_position 2 (CHR ''N'') (CHR ''S'') (r_status r # ?lat) = Inr (Some (0, ?lon))"
    by (simp add: parse_position_def c no peek_def)
  have lo: "parse_position 3 (CHR ''E'') (CHR ''W'') ?lon = Inr (Some (0, ?q))"
    by (simp add: parse_position_def no peek_def q)
  have p: "strchr_next comma ?q = Inr (tl (rmc_end r) @ nul # pad)" by (simp add: rmc_end_def no)
  have buf: "rmc_no_fix r @ nul # pad = ''$GPRMC'' @ comma # rmc_time r @ comma # r_status r # ?lat"
    by (simp add: rmc_no_fix_def rmc_rest_no_fix_def)
  have start: "strchr_next comma (rmc_no_fix r @ nul # pad) = Inr (rmc_time r @ comma # r_status r # ?lat)"
    unfolding buf by (rule strchr_next_field) simp_all
  show ?thesis
    using rmc_read_fields [OF wf start la lo p] rmc_rest_no [OF wf]
      parse_rmc_sentence [OF wf rmc_shape(2), of fuel pad st e tr] by (simp add: rmc_no_fix_def)
qed

text \<open>
  C20: an RMC sentence sets the date and the time exactly and leaves the position alone, with a
  fix and without one; the clock LED is told that the time is known exactly when the two-digit
  year is below 80.
\<close>

theorem parse_rmc_date:
  assumes "rmc_wf r" "s \<in> {rmc_text r, rmc_no_fix r}"
  shows "parse fuel (s @ nul # pad) st e tr =
    Inr ((ESP_OK, st\<lparr>gps_day := of_nat (digits_val 0 (r_day r)), gps_month := of_nat (digits_val 0 (r_month r)),
            gps_year := of_nat (digits_val 0 (r_year r)), gps_hour := of_nat (digits_val 0 (r_hh r)),
            gps_min := of_nat (digits_val 0 (r_mm r)), gps_sec := of_nat (digits_val 0 (r_ss r))\<rparr>),
         tr @ (if digits_val 0 (r_year r) < 80
               then [Rtos (EventGroupSetBits LedGroup LED_EVENT_GPS_RTC_SET_BIT)] else []))"
  using assms rmc_read [OF assms(1), of fuel pad st e tr] rmc_read_no_fix [OF assms(1), of fuel pad st e tr]
  by (auto simp: rmc_result_def)

theorem parse_rmc_date_witness:
  "\<exists>r st. parse 0 (rmc_text r @ nul # []) esp_gps_init silent_env [] =
     Inr ((ESP_OK, st), [Rtos (EventGroupSetBits LedGroup LED_EVENT_GPS_RTC_SET_BIT)]) \<and>
     gps_day st = 23 \<and> gps_month st = 3 \<and> gps_year st = 19"
proof -
  define r where "r = \<lparr>r_hh = ''12'', r_mm = ''35'', r_ss = ''19'', r_frac = ''200'', r_status = CHR ''A'',
     r_lat = \<lparr>nc_deg = ''48'', nc_min = ''07'', nc_frac = ''0380''\<rparr>, r_ns = CHR ''N'',
     r_lon = \<lparr>nc_deg = ''011'', nc_min = ''31'', nc_frac = ''0000''\<rparr>, r_ew = CHR ''E'',
     r_speed = ''022.4'', r_angle = ''084.4'', r_day = ''23'', r_month = ''03'', r_year = ''19'',
     r_tail = ''003.1,W'', r_sum1 = CHR ''6'', r_sum2 = CHR ''A''\<rparr>"
  have "rmc_wf r"
    by (simp add: rmc_wf_def r_def time_wf_def frac_wf_def coord_wf_def digits_def is_digit_def digit_val_def plain_field_def)
  moreover have "digits_val 0 (r_day r) = 23" "digits_val 0 (r_month r) = 3" "digits_val 0 (r_year r) = 19"
    by (simp_all add: r_def digit_val_def)
  ultimately show ?thesis
    using parse_rmc_date [of r "rmc_text r" 0 "[]" esp_gps_init silent_env "[]"] by fastforce
qed

subsection \<open>The check\<close>

definition nmea_xor :: "u16 \<Rightarrow> string \<Rightarrow> u16" where
  "nmea_xor a s = foldl (\<lambda>a c. a XOR of_char c) a s"

lemma nmea_xor_simps [simp]: "nmea_xor a [] = a" "nmea_xor a (c # s) = nmea_xor (a XOR of_char c) s"
  by (simp_all add: nmea_xor_def)

lemma nmea_xor_start: "nmea_xor (a XOR b) s = a XOR nmea_xor b s"
  by (induction s arbitrary: b) (simp_all add: xor.assoc)

lemma xor_eq_self: "a XOR d = d \<Longrightarrow> a = (0 :: u16)"
  by (auto simp: bit_eq_iff bit_simps)

lemma of_char_u16_0: "(of_char c :: u16) = 0 \<Longrightarrow> c = nul"
proof -
  assume "(of_char c :: u16) = 0"
  then have "unat (of_nat (of_char c :: nat) :: u16) = 0" by (simp only: of_nat_of_char unat_0)
  moreover have "(of_char c :: nat) < 256" by simp
  ultimately have "(of_char c :: nat) = of_char nul" by (simp add: unat_of_nat)
  then show ?thesis by (simp only: of_char_eq_iff)
qed

text \<open>The loop ends when its bound fits the counter, and folds the bytes it is meant to.\<close>

lemma checksum_loop_ends:
  assumes "bound \<le> 255" "bound \<le> length nmea" "unat i \<le> bound" "bound - unat i < fuel"
  shows "checksum_loop fuel i bound nmea acc = Inr (nmea_xor acc (drop (unat i) (take bound nmea)))"
  using assms
proof (induction fuel arbitrary: i acc)
  case (Suc fuel)
  show ?case
  proof (cases "unat i < bound")
    case True
    then have "unat (i + 1) = unat i + 1" using Suc.prems(1) by (simp add: unat_word_ariths)
    moreover have "drop (unat i) (take bound nmea) = nmea ! unat i # drop (unat i + 1) (take bound nmea)"
      using True Suc.prems(2) by (simp add: nth_drop_hd)
    ultimately show ?thesis using True Suc by simp
  qed (use Suc.prems in simp)
qed simp

lemma checksum_loop_hangs:
  assumes "256 \<le> bound"
  shows "checksum_loop fuel i bound nmea acc = Inl NoFuel"
proof (induction fuel arbitrary: i acc)
  case (Suc fuel)
  then show ?case using assms unat_u8_less [of i] by simp
qed simp

text \<open>
  C39: what the check of a sentence checks. A sentence that ends in carriage return and line feed
  is accepted whatever its two hexadecimal digits are, so the checksum of the receiver's
  sentences is never looked at. For one that ends in a line feed alone the digits are compared with
  the exclusive or of the characters from the third one on; the standard starts at the second,
  so that a sentence with its standard checksum is refused.
\<close>

theorem checksum_check_misses:
  assumes "nul \<notin> set (c # body)" "length body \<le> 253" "256 \<le> fuel"
    and "h \<notin> {CHR ''*'', nul}" "k \<noteq> nul"
  defines "d \<equiv> ucast (parseHex h) * 16 + ucast (parseHex k)"
  shows "checksum_ok fuel ((CHR ''$'' # c # body @ [CHR ''*'', h, k, cr, lf]) @ nul # pad) = Inr True \<and>
    checksum_ok fuel ((CHR ''$'' # c # body @ [CHR ''*'', h, k, lf]) @ nul # pad) = Inr (nmea_xor 0 body = d) \<and>
    (nmea_xor 0 (c # body) = d \<longrightarrow>
      checksum_ok fuel ((CHR ''$'' # c # body @ [CHR ''*'', h, k, lf]) @ nul # pad) = Inr False)"
proof (intro conjI impI)
  show "checksum_ok fuel ((CHR ''$'' # c # body @ [CHR ''*'', h, k, cr, lf]) @ nul # pad) = Inr True"
    using checksum_skipped [of "CHR ''$'' # c # body @ ''*''" h k fuel pad] assms(1,4,5) by simp
  let ?s = "CHR ''$'' # c # body @ [CHR ''*'', h, k, lf]"
  have len: "strlen (?s @ nul # pad) = Inr (length body + 6)"
    using assms(1,4,5) c_str_sentence [of ?s pad] by (auto simp: strlen_def)
  have at: "(?s @ nul # pad) ! (length body + 2) = CHR ''*''" "(?s @ nul # pad) ! (length body + 3) = h"
    "(?s @ nul # pad) ! (length body + 4) = k"
    by (simp_all add: nth_append numeral_3_eq_3 numeral_eq_Suc)
  have xor: "checksum_loop fuel 2 (length body + 2) (?s @ nul # pad) d = Inr (nmea_xor d body)"
    using checksum_loop_ends [of "length body + 2" "?s @ nul # pad" 2 fuel d] assms(2,3) by simp
  have eq: "nmea_xor d body = 0 \<longleftrightarrow> nmea_xor 0 body = d"
    using nmea_xor_start [of d 0 body] by (auto simp: xor_self_eq) (metis xor.assoc xor.right_neutral xor_self_eq xor.commute)
  show ok: "checksum_ok fuel (?s @ nul # pad) = Inr (nmea_xor 0 body = d)"
    unfolding checksum_ok_def len bindE_simps using at xor eq
    by (simp add: d_def [symmetric] numeral_eq_Suc)
  show "checksum_ok fuel (?s @ nul # pad) = Inr False" if "nmea_xor 0 (c # body) = d"
  proof -
    have "of_char c XOR nmea_xor 0 body = d"
      using that nmea_xor_start [of "of_char c" 0 body] by simp
    moreover have "(of_char c :: u16) \<noteq> 0" using assms(1) of_char_u16_0 by auto
    ultimately have "nmea_xor 0 body \<noteq> d" using xor_eq_self by metis
    then show ?thesis using ok by simp
  qed
qed

theorem checksum_check_misses_witness:
  "checksum_ok 256 ((''$GPGLL'' @ [CHR ''*'', CHR ''0'', CHR ''0'', cr, lf]) @ nul # []) = Inr True"
  using checksum_check_misses [of "CHR ''G''" "''PGLL''" 256 "CHR ''0''" "CHR ''0''" "[]"] by simp

text \<open>
  C40: a sentence of 260 characters or more with an asterisk in the fourth place from the end
  stops the task for good: the 8-bit counter of the checking loop never reaches its bound.
\<close>

theorem parse_long_sentence_hangs:
  assumes "nul \<notin> set s" "260 \<le> length s" "s ! (length s - 4) = CHR ''*''"
  shows "parse fuel (s @ nul # pad) st e tr = Inl NoFuel"
proof -
  have "strlen (s @ nul # pad) = Inr (length s)" using assms(1) c_str_sentence by (simp add: strlen_def)
  then have "checksum_ok fuel (s @ nul # pad) = Inl NoFuel"
    using assms(2,3) by (simp add: checksum_ok_def nth_append checksum_loop_hangs)
  then show ?thesis by (simp add: parse_def cmd_simps)
qed

theorem parse_long_sentence_hangs_witness:
  "parse 1000000 ((replicate 256 (CHR ''A'') @ ''*00'' @ [lf]) @ nul # []) esp_gps_init silent_env [] = Inl NoFuel"
proof (rule parse_long_sentence_hangs)
  have "length (replicate 256 (CHR ''A'')) = 256" by (rule length_replicate)
  then show "(replicate 256 (CHR ''A'') @ ''*00'' @ [lf]) ! (length (replicate 256 (CHR ''A'') @ ''*00'' @ [lf]) - 4) = CHR ''*''"
    by (simp only: length_append nth_append) simp
qed simp_all

end
