(* ===== verification/HttpServer.thy ===== *)
theory HttpServer
  imports WifiManager
begin

text \<open>
  The web server of the configuration page, \<open>main/http_server_if.c\<close>: one request per connection,
  dispatched on its first line, and the look-up of the Internet provider.

  The server never uses the length of a received buffer; it runs the string functions over it.
  The answer to \<open>NetconnRecv\<close> is therefore the C string at the buffer's data pointer. The files
  of the page are linked into the firmware and are a parameter.
\<close>

subsection \<open>Constants\<close>

definition HTTP_SERVER_START_BIT_0 :: u32 where "HTTP_SERVER_START_BIT_0 = 1"

record assets =
  index_html :: string
  jquery_gz :: string
  code_js :: string
  style_css :: string

definition nl :: string where "nl = [lf]"

definition http_html_hdr :: string where
  "http_html_hdr = ''HTTP/1.1 200 OK'' @ nl @ ''Content-type: text/html'' @ nl @ nl"
definition http_css_hdr :: string where
  "http_css_hdr = ''HTTP/1.1 200 OK'' @ nl @ ''Content-type: text/css'' @ nl @
     ''Cache-Control: public, max-age=31536000'' @ nl @ nl"
definition http_js_hdr :: string where
  "http_js_hdr = ''HTTP/1.1 200 OK'' @ nl @ ''Content-type: text/javascript'' @ nl @ nl"
definition http_jquery_gz_hdr :: string where
  "http_jquery_gz_hdr = ''HTTP/1.1 200 OK'' @ nl @ ''Content-type: text/javascript'' @ nl @ ''Accept-Ranges: bytes'' @ nl @
     ''Content-Length: 29995'' @ nl @ ''Content-Encoding: gzip'' @ nl @ nl"
definition http_400_hdr :: string where
  "http_400_hdr = ''HTTP/1.1 400 Bad Request'' @ nl @ ''Content-Length: 0'' @ nl @ nl"
definition http_404_hdr :: string where
  "http_404_hdr = ''HTTP/1.1 404 Not Found'' @ nl @ ''Content-Length: 0'' @ nl @ nl"
definition http_503_hdr :: string where
  "http_503_hdr = ''HTTP/1.1 503 Service Unavailable'' @ nl @ ''Content-Length: 0'' @ nl @ nl"
definition http_ok_json_no_cache_hdr :: string where
  "http_ok_json_no_cache_hdr = ''HTTP/1.1 200 OK'' @ nl @ ''Content-type: application/json'' @ nl @
     ''Cache-Control: no-store, no-cache, must-revalidate, max-age=0'' @ nl @ ''Pragma: no-cache'' @ nl @ nl"

definition nwrite :: "string \<Rightarrow> unit cmd" where
  "nwrite s = doC (Net (NetconnWrite s))"

subsection \<open>Requests\<close>

definition http_server_set_event_start :: "unit cmd" where
  "http_server_set_event_start = doC (Rtos (EventGroupSetBits HttpGroup HTTP_SERVER_START_BIT_0))"

text \<open>The value of a header: the returned pointer and the length that is counted from it.\<close>

definition http_server_get_header :: "string \<Rightarrow> string \<Rightarrow> string option" where
  "http_server_get_header request header_name =
     (case strstr request header_name of
        None \<Rightarrow> None
      | Some p \<Rightarrow> Some (takeWhile (\<lambda>c. c \<noteq> nul \<and> c \<noteq> lf \<and> c \<noteq> cr) (drop (length header_name) p)))"

definition serve_document :: "string option \<Rightarrow> unit cmd" where
  "serve_document buff =
     (case buff of None \<Rightarrow> failC NullDeref | Some b \<Rightarrow> bindC (liftE (strlen b)) (\<lambda>n. nwrite (take n b)))"

definition get_ap_json :: "wifi_state \<Rightarrow> wifi_state cmd" where
  "get_ap_json st =
     bindC (wifi_manager_lock_json_buffer (Some 10) st) (\<lambda>ok.
     thenC (if ok
            then seqC [nwrite http_ok_json_no_cache_hdr, serve_document (wifi_manager_get_ap_list_json st),
                       wifi_manager_unlock_json_buffer]
            else nwrite http_503_hdr)
     (thenC wifi_manager_scan_async (ret st)))"

definition get_status_json :: "wifi_state \<Rightarrow> wifi_state cmd" where
  "get_status_json st =
     bindC (wifi_manager_lock_json_buffer (Some 10) st) (\<lambda>ok.
     thenC (if ok
            then if wifi_manager_get_ip_info_json st \<noteq> None
                 then seqC [nwrite http_ok_json_no_cache_hdr, serve_document (wifi_manager_get_ip_info_json st),
                            wifi_manager_unlock_json_buffer]
                 else nwrite http_503_hdr
            else nwrite http_503_hdr)
     (ret st))"

definition get_register_json :: "wifi_state \<Rightarrow> wifi_state cmd" where
  "get_register_json st =
     bindC (wifi_manager_lock_json_buffer (Some 10) st) (\<lambda>ok.
     bindC (if ok
            then bindC (wifi_manager_fetch_reg_config st) (\<lambda>(_, st).
                 bindC (wifi_manager_generate_reg_info_json st) (\<lambda>st.
                 thenC (if wifi_manager_get_reg_info_json st \<noteq> None
                        then seqC [nwrite http_ok_json_no_cache_hdr, serve_document (wifi_manager_get_reg_info_json st),
                                   wifi_manager_unlock_json_buffer]
                        else nwrite http_503_hdr)
                   (ret st)))
            else ret st) (\<lambda>st.
     thenC wifi_manager_unlock_json_buffer (ret st)))"

definition delete_connect_json :: "wifi_state \<Rightarrow> wifi_state cmd" where
  "delete_connect_json st =
     thenC (seqC [wifi_manager_disconnect_async, nwrite http_ok_json_no_cache_hdr]) (ret st)"

definition post_connect_json :: "string \<Rightarrow> wifi_state \<Rightarrow> wifi_state cmd" where
  "post_connect_json save_ptr st =
     (case (http_server_get_header save_ptr ''x-custom-ssid: '', http_server_get_header save_ptr ''x-custom-pwd: '') of
        (Some name, Some password) \<Rightarrow>
          if length name \<le> MAX_SSID_SIZE \<and> length password \<le> MAX_PASSWORD_SIZE
          then (case wifi_manager_get_wifi_sta_config st of
                  None \<Rightarrow> failC NullDeref
                | Some _ \<Rightarrow>
                    bindC (liftE (buf_write (sta_ssid zero_sta) 0 name)) (\<lambda>s.
                    bindC (liftE (buf_write (sta_password zero_sta) 0 password)) (\<lambda>p.
                    bindC (wifi_manager_connect_async (st\<lparr>config_sta := Some \<lparr>sta_ssid = s, sta_password = p\<rparr>\<rparr>)) (\<lambda>st.
                    thenC (nwrite http_ok_json_no_cache_hdr) (ret st)))))
          else thenC (nwrite http_400_hdr) (ret st)
      | _ \<Rightarrow> thenC (nwrite http_400_hdr) (ret st))"

text \<open>
  The handler of the client's events asks whether a response is chunked before it logs its data, and
  does nothing else; the client calls it while it performs a request.
\<close>

fun http_server_event_handler :: "http_client_event \<Rightarrow> esp_err cmd" where
  "http_server_event_handler HTTP_EVENT_ERROR = ret ESP_OK"
| "http_server_event_handler HTTP_EVENT_ON_CONNECTED = ret ESP_OK"
| "http_server_event_handler HTTP_EVENT_HEADER_SENT = ret ESP_OK"
| "http_server_event_handler (HTTP_EVENT_ON_HEADER header_key header_value) = ret ESP_OK"
| "http_server_event_handler (HTTP_EVENT_ON_DATA data) =
     bindC (askI (Web HttpIsChunkedResponse)) (\<lambda>_. ret ESP_OK)"
| "http_server_event_handler HTTP_EVENT_ON_FINISH = ret ESP_OK"
| "http_server_event_handler HTTP_EVENT_DISCONNECTED = ret ESP_OK"

definition http_server_post_registration :: "wifi_state \<Rightarrow> unit cmd" where
  "http_server_post_registration st =
     thenC (doC (Web (HttpInit ''http://air.eng.utah.edu/dbapi/api/registerSensor'')))
     (case wifi_manager_get_reg_info_json st of
        None \<Rightarrow> ret ()
      | Some buff \<Rightarrow>
          bindC (liftE (strlen buff)) (\<lambda>n.
          seqC [doC (Web HttpSetMethodPost), doC (Web (HttpSetHeader ''Content-Type'' ''application/json'')),
                doC (Web (HttpSetPostField (take n buff))), doC (Web HttpPerform), doC (Web HttpCleanup)]))"

text \<open>
  The registration is copied to fixed fields. A name or an address that is too long is answered
  with an error, and then copied all the same.
\<close>

definition header_len :: "string option \<Rightarrow> nat" where
  "header_len v = (case v of None \<Rightarrow> 0 | Some s \<Rightarrow> length s)"

definition post_register_json :: "string \<Rightarrow> wifi_state \<Rightarrow> wifi_state cmd" where
  "post_register_json save_ptr st =
     (let name = http_server_get_header save_ptr ''X-Custom-name: '';
          email = http_server_get_header save_ptr ''X-Custom-email: '';
          hidden = http_server_get_header save_ptr ''X-Custom-hidden: ''
      in thenC (whenC (header_len name > JSON_REG_NAME_SIZE \<or> header_len email > JSON_REG_EMAIL_SIZE)
                  (nwrite http_400_hdr))
         (case (name, email, hidden) of
            (Some name, Some email, Some hidden) \<Rightarrow>
              bindC (liftE (memset (reg_name (reg_info st)) nul JSON_REG_NAME_SIZE)) (\<lambda>n.
              bindC (liftE (memset (reg_email (reg_info st)) nul JSON_REG_EMAIL_SIZE)) (\<lambda>m.
              bindC (liftE (buf_write n 0 name)) (\<lambda>n.
              bindC (liftE (buf_write m 0 email)) (\<lambda>m.
              let st = st\<lparr>reg_info := (reg_info st)\<lparr>reg_name := n, reg_email := m,
                              reg_hidden := (hidden \<noteq> [] \<and> hd hidden = CHR ''t'')\<rparr>\<rparr> in
              bindC (wifi_manager_save_reg_config st) (\<lambda>_.
              thenC (nwrite http_ok_json_no_cache_hdr)
              (bindC wifi_manager_connected_to_access_point (\<lambda>c.
               thenC (whenC c (http_server_post_registration st)) (ret st))))))))
          | _ \<Rightarrow> thenC (nwrite http_400_hdr) (ret st)))"

definition serve_request :: "assets \<Rightarrow> string \<Rightarrow> string \<Rightarrow> wifi_state \<Rightarrow> wifi_state cmd" where
  "serve_request as line save_ptr st =
     (let has = (\<lambda>r. strstr line r \<noteq> None); page = (\<lambda>hdr body. thenC (seqC [nwrite hdr, nwrite body]) (ret st)) in
      if has ''GET / '' then page http_html_hdr (index_html as)
      else if has ''GET /jquery.js '' then page http_jquery_gz_hdr (jquery_gz as)
      else if has ''GET /code.js '' then page http_js_hdr (code_js as)
      else if has ''GET /ap.json '' then get_ap_json st
      else if has ''GET /style.css '' then page http_css_hdr (style_css as)
      else if has ''GET /status.json '' then get_status_json st
      else if has ''GET /register.json '' then get_register_json st
      else if has ''DELETE /connect.json '' then delete_connect_json st
      else if has ''POST /connect.json '' then post_connect_json save_ptr st
      else if has ''POST /register.json '' then post_register_json save_ptr st
      else thenC (nwrite http_400_hdr) (ret st))"

definition http_server_netconn_serve :: "assets \<Rightarrow> wifi_state \<Rightarrow> wifi_state cmd" where
  "http_server_netconn_serve as st =
     bindC (askIS (Net NetconnRecv)) (\<lambda>(err, buf).
     bindC (if err = 0
            then (case strtok lf buf of
                    Some (line, save_ptr) \<Rightarrow> serve_request as line save_ptr st
                  | None \<Rightarrow> thenC (nwrite http_404_hdr) (ret st))
            else ret st) (\<lambda>st.
     thenC (doC (Net NetbufDelete)) (ret st)))"

text \<open>The accept loop, which ends when accepting fails.\<close>

fun http_server_loop :: "nat \<Rightarrow> assets \<Rightarrow> wifi_state \<Rightarrow> wifi_state cmd" where
  "http_server_loop 0 as st = failC NoFuel"
| "http_server_loop (Suc fuel) as st =
     bindC (askI (Net NetconnAccept)) (\<lambda>err.
     bindC (if err = 0
            then bindC (http_server_netconn_serve as st) (\<lambda>st. thenC (doC (Net NetconnDelete)) (ret st))
            else ret st) (\<lambda>st.
     thenC (doC (Rtos (TaskDelay 100)))
       (if err = 0 then http_server_loop fuel as st else ret st)))"

definition http_server :: "nat \<Rightarrow> assets \<Rightarrow> wifi_state \<Rightarrow> wifi_state cmd" where
  "http_server fuel as st =
     thenC (doC (Rtos (EventGroupCreate HttpGroup)))
     (bindC (askB (Rtos (EventGroupWaitBits HttpGroup HTTP_SERVER_START_BIT_0 False True None))) (\<lambda>_.
      thenC (seqC [doC (Net NetconnNew), doC (Net (NetconnBind 80)), doC (Net NetconnListen)])
      (bindC (http_server_loop fuel as st) (\<lambda>st.
       thenC (seqC [doC (Net NetconnClose), doC (Net NetconnDelete)]) (ret st)))))"

subsection \<open>The Internet provider\<close>

definition ISP_REQUEST :: string where
  "ISP_REQUEST = ''GET htt-://ip-api.com/json HTTP/1.0'' @ crlf @ ''Host: ip-api.com'' @ crlf @
     ''User-Agent: esp-idf/1.0 esp32'' @ crlf @ crlf"

text \<open>
  The inner loop over a received block: the buffer, the number of bytes in it, whether an opening
  brace is still awaited, and whether the buffer is full.
\<close>

fun isp_copy :: "nat \<Rightarrow> string \<Rightarrow> string \<Rightarrow> nat \<Rightarrow> bool \<Rightarrow> (string \<times> nat \<times> bool \<times> bool) result" where
  "isp_copy len [] json_buf ii waiting = Inr (json_buf, ii, waiting, False)"
| "isp_copy len (c # cs) json_buf ii waiting =
     (let waiting = waiting \<and> c \<noteq> CHR ''{'' in
      bindE (if waiting then Inr (json_buf, ii)
             else bindE (buf_write json_buf ii [c]) (\<lambda>b. Inr (b, ii + 1))) (\<lambda>(json_buf, ii).
      if len \<le> ii
      then (if ii = 0 then Inl OutOfBounds
            else bindE (buf_write json_buf (ii - 1) [nul]) (\<lambda>b. Inr (b, ii, waiting, True)))
      else isp_copy len cs json_buf ii waiting))"

fun isp_loop :: "nat \<Rightarrow> nat \<Rightarrow> int \<Rightarrow> int \<Rightarrow> string \<Rightarrow> nat \<Rightarrow> bool \<Rightarrow> (string \<times> nat \<times> bool) cmd" where
  "isp_loop 0 len s tot json_buf ii waiting = failC NoFuel"
| "isp_loop (Suc fuel) len s tot json_buf ii waiting =
     bindC (askIS (Net (SockRead s 63))) (\<lambda>(r, bs).
     let tot = tot + r; recv_buf = block 64 (take 63 bs) in
     if tot < 100
     then (if r > 0 then isp_loop fuel len s tot json_buf ii waiting else ret (json_buf, ii, False))
     else if r > 64 then failC OutOfBounds
     else bindC (liftE (isp_copy len (take (nat r) recv_buf) json_buf ii waiting)) (\<lambda>(json_buf, ii, waiting, full).
          if full then ret (json_buf, ii, True)
          else if r > 0 then isp_loop fuel len s tot json_buf ii waiting
          else ret (json_buf, ii, False)))"

definition http_get_isp_info :: "nat \<Rightarrow> string \<Rightarrow> nat \<Rightarrow> (esp_err \<times> string) cmd" where
  "http_get_isp_info fuel json_buf len =
     bindC (askIB (Net (GetAddrInfo ''ip-api.com'' ''80''))) (\<lambda>(err, res).
     if err \<noteq> 0 \<or> res = 0 then ret (err, json_buf) else
     bindC (askI (Net Socket)) (\<lambda>s.
     if s < 0 then thenC (doC (Net FreeAddrInfo)) (ret (err, json_buf)) else
     bindC (askI (Net (Connect s))) (\<lambda>r.
     if r \<noteq> 0 then thenC (seqC [doC (Net (SockClose s)), doC (Net FreeAddrInfo)]) (ret (err, json_buf)) else
     thenC (doC (Net FreeAddrInfo))
     (bindC (askI (Net (SockWrite s ISP_REQUEST))) (\<lambda>r.
      if r < 0 then thenC (doC (Net (SockClose s))) (ret (err, json_buf)) else
      bindC (askI (Net (SetRcvTimeout s 5))) (\<lambda>r.
      if r < 0 then thenC (doC (Net (SockClose s))) (ret (err, json_buf)) else
      bindC (isp_loop fuel len s 0 json_buf 0 True) (\<lambda>(json_buf, ii, full).
      if full then thenC (doC (Net (SockClose s))) (ret (- 1, json_buf)) else
      bindC (liftE (buf_write json_buf ii [nul])) (\<lambda>json_buf.
      thenC (doC (Net (SockClose s)))
      (bindC (askB (Sys Time)) (\<lambda>now.
       bindC (liftE (strlen json_buf)) (\<lambda>n.
       if ii = 0 then failC OutOfBounds else
       bindC (liftE (snprintf json_buf (ii - 1) (len - n)
                ('','' @ [dquote] @ ''utc'' @ [dquote] @ '':'' @ [dquote] @ fmt_u (unat now) @ [dquote] @ ''}''))) (\<lambda>json_buf.
       ret (ESP_OK, json_buf)))))))))))))"

subsection \<open>What the handlers call\<close>

lemmas
  get_ap_json_code = get_ap_json_def [unfolded wifi_getters] and
  get_status_json_code = get_status_json_def [unfolded wifi_getters] and
  get_register_json_code = get_register_json_def [unfolded wifi_getters] and
  post_connect_json_code = post_connect_json_def [unfolded wifi_getters] and
  http_server_post_registration_code = http_server_post_registration_def [unfolded wifi_getters]


lemma quiet_net [simp]: "quiet (Net n)" "quiet (Web w)"
  by (simp_all add: quiet_def)

lemma quiet_nwrite [emits_intros]: "emits quiet (nwrite s)"
  unfolding nwrite_def by (intro emits_intros) simp

lemma quiet_serve_document [emits_intros]: "emits quiet (serve_document b)"
  unfolding serve_document_def by (intro emits_intros)

lemma quiet_async [emits_intros]:
  "emits quiet wifi_manager_scan_async" "emits quiet wifi_manager_disconnect_async"
  unfolding wifi_manager_scan_async_def wifi_manager_disconnect_async_def by (intro emits_intros)+

lemma quiet_fetch_reg_field [emits_intros]: "emits quiet (fetch_reg_field key buff dest)"
  unfolding fetch_reg_field_def by (intro emits_intros)

lemma quiet_fetch_reg [emits_intros]: "emits quiet (wifi_manager_fetch_reg_config st)"
  unfolding wifi_manager_fetch_reg_config_def
  by (intro emits_intros quiet_simps) (auto intro!: emits_intros)

lemma emits_client_event [emits_intros]:
  "Q (Web HttpIsChunkedResponse) \<Longrightarrow> emits Q (http_server_event_handler ev)"
  by (cases ev) (auto intro!: emits_intros)

lemma quiet_generate_reg [emits_intros]: "emits quiet (wifi_manager_generate_reg_info_json st)"
  unfolding wifi_manager_generate_reg_info_json_def by (intro emits_intros quiet_simps)

lemma quiet_save_reg [emits_intros]: "emits quiet (wifi_manager_save_reg_config st)"
  unfolding wifi_manager_save_reg_config_def by (intro emits_intros quiet_simps) (auto intro!: emits_intros)

lemma quiet_post_registration [emits_intros]: "emits quiet (http_server_post_registration st)"
  unfolding http_server_post_registration_code by (intro emits_intros) (auto intro!: emits_intros)

lemma quiet_post_register: "emits quiet (post_register_json s st)"
  unfolding post_register_json_def Let_def by (intro emits_intros)

lemma neutral_quiet: "emits quiet m \<Longrightarrow> jm.neutral m"
  by (rule jm_quiet)

lemma seqC_two: "seqC [a, b, c] = bindC (thenC a b) (\<lambda>_. thenC c (ret ()))"
  by (rule ext)+ (simp add: cmd_simps bindE_assoc case_prod_beta')

lemma neutral_get_ap: "jm.neutral (get_ap_json st)"
proof -
  have "get_ap_json st = bindC (bindC (wifi_manager_lock_json_buffer (Some 10) st) (\<lambda>ok.
     if ok then bindC (thenC (nwrite http_ok_json_no_cache_hdr) (serve_document (accessp_json st)))
                  (\<lambda>_. thenC wifi_manager_unlock_json_buffer (ret ()))
     else nwrite http_503_hdr)) (\<lambda>_. thenC wifi_manager_scan_async (ret st))"
    unfolding get_ap_json_code bindC_bindC seqC_two thenC_def [of "if _ then _ else _"] ..
  then show ?thesis
    by (simp only:) (intro jm.neutral_bind jm.neutral_section jm_lock jm_unlock jm_quiet emits_intros)
qed

lemma neutral_get_status:
  assumes "ip_info_json st \<noteq> None"
  shows "jm.neutral (get_status_json st)"
proof -
  have "get_status_json st = bindC (bindC (wifi_manager_lock_json_buffer (Some 10) st) (\<lambda>ok.
     if ok then bindC (thenC (nwrite http_ok_json_no_cache_hdr) (serve_document (ip_info_json st)))
                  (\<lambda>_. thenC wifi_manager_unlock_json_buffer (ret ()))
     else nwrite http_503_hdr)) (\<lambda>_. ret st)"
    unfolding get_status_json_code bindC_bindC seqC_two thenC_def [of "if _ then _ else _"] if_P [OF assms] ..
  then show ?thesis
    by (simp only:) (intro jm.neutral_bind jm.neutral_section jm_lock jm_unlock jm_quiet emits_intros)
qed

lemma neutral_post_connect: "jm.neutral (post_connect_json s st)"
  unfolding post_connect_json_code
  by (intro jm_intros; rule jm_quiet; auto intro!: emits_intros)

lemma generate_reg_not_null: "yields (\<lambda>st. reg_info_json st \<noteq> None) (wifi_manager_generate_reg_info_json st)"
  unfolding wifi_manager_generate_reg_info_json_def
  by (auto simp: yields_def gives_def cmd_simps bindE_eq_Inr split: if_splits)

lemma jm_shifts_quiet: "emits quiet m \<Longrightarrow> jm.shifts (\<lambda>_. 0) m"
  by (rule jm.shifts_emits) (rule jm_quiet)

lemma jm_shifts_unlock: "jm.shifts (\<lambda>_. - 1) wifi_manager_unlock_json_buffer"
  using jm.shifts_moves [OF jm_unlock] by simp

lemma jm_shifts_lock: "jm.shifts (\<lambda>ok. if ok then 1 else 0) (wifi_manager_lock_json_buffer t st)"
  using jm.shifts_moves [OF jm_lock] by simp

lemma jm_shifts_neutral: "jm.neutral m \<Longrightarrow> jm.shifts (\<lambda>_. 0) m"
  using jm.shifts_moves [of 0 "\<lambda>_. 0" m] by (simp add: jm.neutral_def)

lemma jm_shifts_then: "jm.shifts (\<lambda>_. k) m \<Longrightarrow> jm.shifts (\<lambda>_. l - k) n \<Longrightarrow> jm.shifts (\<lambda>_. l) (thenC m n)"
  unfolding thenC_def by (rule jm.shifts_bind)

text \<open>The registration document is released once more than it is locked.\<close>

lemma shifts_get_register: "jm.shifts (\<lambda>_. - 1) (get_register_json st)"
proof -
  let ?doc = "\<lambda>st. thenC (seqC [nwrite http_ok_json_no_cache_hdr, serve_document (reg_info_json st),
     wifi_manager_unlock_json_buffer]) (ret st)"
  have doc: "jm.shifts (\<lambda>_. - 1) (?doc st)" for st
  proof -
    have "jm.shifts (\<lambda>_. - 1) (seqC [nwrite http_ok_json_no_cache_hdr, serve_document (reg_info_json st),
        wifi_manager_unlock_json_buffer])"
      unfolding seqC_two
      by (rule jm.shifts_bind [OF jm_shifts_quiet])
         (intro emits_intros, rule jm_shifts_then [OF jm_shifts_unlock], simp add: jm_shifts_quiet emits_atoms)
    then show ?thesis by (rule jm_shifts_then) (simp add: jm_shifts_quiet emits_atoms)
  qed
  have *: "bindC (wifi_manager_generate_reg_info_json st) (\<lambda>st.
       thenC (if reg_info_json st \<noteq> None
              then seqC [nwrite http_ok_json_no_cache_hdr, serve_document (reg_info_json st), wifi_manager_unlock_json_buffer]
              else nwrite http_503_hdr) (ret st)) = bindC (wifi_manager_generate_reg_info_json st) ?doc" for st
    by (rule bindC_cong_yields [OF generate_reg_not_null]) simp
  have body: "jm.shifts (\<lambda>_. - 1) (bindC (wifi_manager_fetch_reg_config st) (\<lambda>(_, st). bindC (wifi_manager_generate_reg_info_json st) ?doc))"
  proof (rule jm.shifts_bind [OF jm_shifts_quiet])
    fix x :: "bool \<times> wifi_state"
    have "jm.shifts (\<lambda>_. - 1) (bindC (wifi_manager_generate_reg_info_json (snd x)) ?doc)"
      by (rule jm.shifts_bind [OF jm_shifts_quiet]) (simp_all only: diff_zero doc quiet_generate_reg)
    then show "jm.shifts (\<lambda>_. - 1 - 0) (case x of (_, st) \<Rightarrow> bindC (wifi_manager_generate_reg_info_json st) ?doc)"
      by (simp add: case_prod_beta)
  qed (rule quiet_fetch_reg)
  have fin: "jm.shifts (\<lambda>_. - 1) (thenC wifi_manager_unlock_json_buffer (ret st))" for st :: wifi_state
    by (rule jm_shifts_then [OF jm_shifts_unlock]) (simp add: jm_shifts_quiet emits_atoms)
  show ?thesis
    unfolding get_register_json_code *
  proof (rule jm.shifts_bind [OF jm_shifts_lock])
    fix ok
    show "jm.shifts (\<lambda>y. - 1 - (if ok then 1 else 0)) (bindC (if ok
        then bindC (wifi_manager_fetch_reg_config st) (\<lambda>(_, st). bindC (wifi_manager_generate_reg_info_json st) ?doc)
        else ret st) (\<lambda>st. thenC wifi_manager_unlock_json_buffer (ret st)))"
      using body fin by (intro jm.shifts_bind [where k = "\<lambda>_. if ok then - 1 else 0"])
        (auto simp: jm_shifts_quiet emits_atoms simp del: seqC.simps)
  qed
qed

text \<open>The request that leaves the mutex unbalanced.\<close>

definition is_get_register :: "string \<Rightarrow> bool" where
  "is_get_register line \<longleftrightarrow> list_all (\<lambda>r. strstr line r = None)
     [''GET / '', ''GET /jquery.js '', ''GET /code.js '', ''GET /ap.json '', ''GET /style.css '', ''GET /status.json ''] \<and>
     strstr line ''GET /register.json '' \<noteq> None"

lemma serve_register: "is_get_register line \<Longrightarrow> serve_request as line s st = get_register_json st"
  by (simp add: is_get_register_def serve_request_def Let_def)

lemma serve_other:
  assumes "\<not> is_get_register line" "ip_info_json st \<noteq> None"
  shows "jm.neutral (serve_request as line s st)"
proof -
  have page: "jm.neutral (thenC (seqC [nwrite a, nwrite b]) (ret st))" for a b
    by (rule jm_quiet) (intro emits_intros; auto intro!: emits_intros)
  have other: "jm.neutral (delete_connect_json st)" "jm.neutral (thenC (nwrite http_400_hdr) (ret st))"
    unfolding delete_connect_json_def by (rule jm_quiet, intro emits_intros; auto intro!: emits_intros)+
  show ?thesis
    using assms(1) unfolding serve_request_def Let_def is_get_register_def
    using page other neutral_get_ap neutral_get_status [OF assms(2)] neutral_post_connect jm_quiet(2) [OF quiet_post_register]
    by auto
qed

text \<open>The next request that is received is one for the registration.\<close>

definition register_request :: "env \<Rightarrow> call list \<Rightarrow> bool" where
  "register_request e tr \<longleftrightarrow> ans_int e tr (Net NetconnRecv) = 0 \<and>
     (case strtok lf (ans_bytes e tr (Net NetconnRecv)) of Some (line, _) \<Rightarrow> is_get_register line | None \<Rightarrow> False)"

lemma serve_balance:
  assumes "http_server_netconn_serve as st e tr = Inr (st', tr')" "ip_info_json st \<noteq> None"
  shows "\<exists>cs. tr' = tr @ cs \<and> balance json_delta e tr cs = (if register_request e tr then - 1 else 0) \<and>
     (\<not> register_request e tr \<longrightarrow> disciplined json_delta e tr 0 cs)"
proof -
  let ?recv = "Net NetconnRecv"
  define err buf where "err = ans_int e tr ?recv" and "buf = ans_bytes e tr ?recv"
  let ?m = "if err = 0
            then (case strtok lf buf of
                    Some (line, save_ptr) \<Rightarrow> serve_request as line save_ptr st
                  | None \<Rightarrow> thenC (nwrite http_404_hdr) (ret st))
            else ret st"
  let ?k = "\<lambda>st. thenC (doC (Net NetbufDelete)) (ret st)"
  have run: "bindC ?m ?k e (tr @ [?recv]) = Inr (st', tr')"
    using assms(1) unfolding http_server_netconn_serve_def err_def buf_def
    by (simp add: bindC_run [of "askIS _"] cmd_run split: if_splits)
  define reg where "reg \<longleftrightarrow> register_request e tr"
  have reg: "reg \<longleftrightarrow> err = 0 \<and> (case strtok lf buf of Some (line, _) \<Rightarrow> is_get_register line | None \<Rightarrow> False)"
    by (simp add: reg_def register_request_def err_def buf_def)
  have fin: "jm.neutral (?k st)" for st :: wifi_state by (rule jm_quiet) (intro emits_intros; simp)
  have rest: "jm.shifts (\<lambda>_. if reg then - 1 else 0) (bindC ?m ?k) \<and> (\<not> reg \<longrightarrow> jm.neutral (bindC ?m ?k))"
  proof (cases reg)
    case True
    then obtain line s where "err = 0" "strtok lf buf = Some (line, s)" "is_get_register line"
      by (auto simp: reg split: option.splits)
    then have m: "?m = get_register_json st" by (simp add: serve_register)
    have "jm.shifts (\<lambda>_. - 1) (bindC ?m ?k)"
      unfolding m by (rule jm.shifts_bind [OF shifts_get_register])
        (simp add: jm_shifts_quiet [OF emits_then] emits_atoms)
    then show ?thesis using True by simp
  next
    case False
    have "jm.neutral ?m"
      using False serve_other [OF _ assms(2)] neutral_quiet [OF emits_then [OF quiet_nwrite emits_atoms(1)]]
      by (auto simp: reg split: option.splits intro!: jm.neutral_ret)
    then have n: "jm.neutral (bindC ?m ?k)" using fin by (rule jm.neutral_bind)
    show ?thesis using False n jm_shifts_neutral [OF n] by (simp only: if_False simp_thms)
  qed
  obtain cs where cs: "tr' = (tr @ [?recv]) @ cs" "balance json_delta e (tr @ [?recv]) cs = (if reg then - 1 else 0)"
    using rest run by (auto elim: jm.shiftsE)
  have d: "disciplined json_delta e (tr @ [?recv]) 0 cs" if "\<not> reg"
    using rest run that cs(1) unfolding jm.neutral_def by (auto elim: jm.movesE)
  have "tr' = tr @ ?recv # cs \<and> balance json_delta e tr (?recv # cs) = (if reg then - 1 else 0) \<and>
      (\<not> reg \<longrightarrow> disciplined json_delta e tr 0 (?recv # cs))"
    using cs d by (simp add: json_delta_def)
  then show ?thesis unfolding reg_def by blast
qed

text \<open>
  C16: serving a request takes the JSON mutex only while it is not held, gives it back only while
  it is held and leaves it free, for every request and every behaviour of the platform, except
  for a request for the registration: that one gives the mutex back once more than it takes it,
  whether or not it was granted.
\<close>

theorem http_serve_mutex:
  assumes "http_server_netconn_serve as st e tr = Inr (st', tr')" "ip_info_json st \<noteq> None"
  shows "\<exists>cs. tr' = tr @ cs \<and> balance json_delta e tr cs = (if register_request e tr then - 1 else 0) \<and>
     (\<not> register_request e tr \<longrightarrow> disciplined json_delta e tr 0 cs)"
  using assms by (rule serve_balance)

definition http_demo_env :: "string \<Rightarrow> env" where
  "http_demo_env req = silent_env\<lparr>ans_bytes := (\<lambda>_ c. if c = Net NetconnRecv then req else []),
     ans_int := (\<lambda>_ c. case c of Rtos (MutexTake _ _) \<Rightarrow> 1 | _ \<Rightarrow> 0)\<rparr>"

definition demo_assets :: assets where
  "demo_assets = \<lparr>index_html = ''<html>'', jquery_gz = [], code_js = [], style_css = []\<rparr>"

theorem http_serve_mutex_witness:
  "\<exists>st' cs. http_server_netconn_serve demo_assets ip_demo (http_demo_env (''DELETE /connect.json HTTP/1.1'' @ [lf])) [] = Inr (st', cs) \<and>
     balance json_delta (http_demo_env (''DELETE /connect.json HTTP/1.1'' @ [lf])) [] cs = 0"
proof -
  let ?req = "''DELETE /connect.json HTTP/1.1'' @ [lf]"
  let ?e = "http_demo_env ?req"
  have tok: "strtok lf ?req = Some (''DELETE /connect.json HTTP/1.1'', [])" by (simp add: strtok_def)
  have "\<exists>st' cs. http_server_netconn_serve demo_assets ip_demo ?e [] = Inr (st', cs)"
    by (simp add: http_server_netconn_serve_def http_demo_env_def cmd_simps tok [simplified] serve_request_def prefix_def
        delete_connect_json_def wifi_manager_disconnect_async_def nwrite_def)
  then obtain st' cs where run: "http_server_netconn_serve demo_assets ip_demo ?e [] = Inr (st', cs)" by blast
  have "ip_info_json ip_demo \<noteq> None" by (simp add: ip_demo_def)
  from http_serve_mutex [OF run this] run show ?thesis
    by (auto simp: register_request_def http_demo_env_def tok [simplified] is_get_register_def)
qed

subsection \<open>Connecting to a network\<close>

definition padded :: "nat \<Rightarrow> string \<Rightarrow> string" where
  "padded n s = s @ replicate (n - length s) nul"

lemma buf_write_padded: "length s \<le> n \<Longrightarrow> buf_write (replicate n nul) 0 s = Inr (padded n s)"
  by (auto simp: buf_write_def padded_def)

lemma post_connect_run:
  assumes "config_sta st \<noteq> None" "ip_info_json st = Some b" "4 \<le> length b"
  shows "let ssid = http_server_get_header rest ''x-custom-ssid: ''; pwd = http_server_get_header rest ''x-custom-pwd: '';
             ok = (ssid \<noteq> None \<and> pwd \<noteq> None \<and> length (the ssid) \<le> 32 \<and> length (the pwd) \<le> 64);
             take = Rtos (MutexTake ''json'' None)
         in \<exists>st' cs. post_connect_json rest st e tr = Inr (st', tr @ cs) \<and>
              (if ok
               then config_sta st' = Some \<lparr>sta_ssid = padded 32 (the ssid), sta_password = padded 64 (the pwd)\<rparr> \<and>
                    cs = (if json_mutex st then take # (if ans_int e tr take = 1 then [Rtos (MutexGive ''json'')] else []) else []) @
                      [Rtos (EventGroupSetBits WifiGroup WIFI_MANAGER_REQUEST_STA_CONNECT_BIT),
                       Net (NetconnWrite http_ok_json_no_cache_hdr)]
               else st' = st \<and> cs = [Net (NetconnWrite http_400_hdr)])"
proof -
  obtain c where c: "config_sta st = Some c" using assms(1) by auto
  obtain b' where b': "strcpy b (''{}'' @ [lf]) = Inr b'" using assms(3) by (auto simp: strcpy_fits)
  show ?thesis
    using assms(2) c b' buf_write_padded [of _ 32] buf_write_padded [of _ 64]
    by (cases "http_server_get_header rest ''x-custom-ssid: ''"; cases "http_server_get_header rest ''x-custom-pwd: ''")
       (auto simp: post_connect_json_code Let_def cmd_simps nwrite_def MAX_SSID_SIZE_def MAX_PASSWORD_SIZE_def zero_sta_def
          wifi_manager_connect_async_def wifi_manager_lock_json_buffer_def wifi_manager_clear_ip_info_json_def
          wifi_manager_unlock_json_buffer_def)
qed

text \<open>
  C25: a request to connect is served exactly when both headers are there and fit their fields:
  then the configuration holds the two values, filled up with NULs, the status document is
  cleared if the mutex is granted, a connection is requested and the answer is 200; otherwise the
  answer is 400, and no state and no request bit changes. No byte is written outside a field.
\<close>

theorem post_connect_stores:
  assumes "config_sta st \<noteq> None" "ip_info_json st = Some b" "4 \<le> length b"
  shows "let ssid = http_server_get_header rest ''x-custom-ssid: ''; pwd = http_server_get_header rest ''x-custom-pwd: '';
             ok = (ssid \<noteq> None \<and> pwd \<noteq> None \<and> length (the ssid) \<le> 32 \<and> length (the pwd) \<le> 64);
             take = Rtos (MutexTake ''json'' None)
         in \<exists>st' cs. post_connect_json rest st e tr = Inr (st', tr @ cs) \<and>
              (if ok
               then config_sta st' = Some \<lparr>sta_ssid = padded 32 (the ssid), sta_password = padded 64 (the pwd)\<rparr> \<and>
                    cs = (if json_mutex st then take # (if ans_int e tr take = 1 then [Rtos (MutexGive ''json'')] else []) else []) @
                      [Rtos (EventGroupSetBits WifiGroup WIFI_MANAGER_REQUEST_STA_CONNECT_BIT),
                       Net (NetconnWrite http_ok_json_no_cache_hdr)]
               else st' = st \<and> cs = [Net (NetconnWrite http_400_hdr)])"
  using assms by (rule post_connect_run)

theorem post_connect_stores_witness:
  "\<exists>st' cs. post_connect_json (''x-custom-ssid: home'' @ [cr, lf] @ ''x-custom-pwd: secret'' @ [cr, lf]) ip_demo silent_env [] =
      Inr (st', cs) \<and> config_sta st' = Some \<lparr>sta_ssid = padded 32 ''home'', sta_password = padded 64 ''secret''\<rparr>"
proof -
  let ?r = "''x-custom-ssid: home'' @ [cr, lf] @ ''x-custom-pwd: secret'' @ [cr, lf]"
  have h: "http_server_get_header ?r ''x-custom-ssid: '' = Some ''home''"
    "http_server_get_header ?r ''x-custom-pwd: '' = Some ''secret''"
    by (simp_all add: http_server_get_header_def)
  have "config_sta ip_demo \<noteq> None" "ip_info_json ip_demo = Some (replicate 150 nul)"
    by (simp_all add: ip_demo_def wifi_demo_def)
  from post_connect_stores [OF this, of ?r silent_env "[]"] show ?thesis
    unfolding h Let_def by auto
qed

subsection \<open>Registering\<close>

lemma save_reg_returns: "\<exists>r cs. wifi_manager_save_reg_config st e tr = Inr (r, tr @ cs)"
  by (simp add: wifi_manager_save_reg_config_def cmd_simps)

lemma post_registration_returns:
  assumes "reg_info_json st = Some b" "nul \<in> set b"
  shows "\<exists>cs. http_server_post_registration st e tr = Inr ((), tr @ cs)"
  using assms by (simp add: http_server_post_registration_code cmd_simps strlen_def)

text \<open>
  C26: a registration with a name, an address and a visibility, of which the name has at most 64
  bytes and the address at most 254, is stored in its fields, filled up with NULs, saved, and
  answered with 200. When the name or the address is longer, it is copied past the end of its field.
  The check of the lengths does not prevent that, it only writes an error: a registration that lacks
  one of the three is answered with 400 and changes nothing, and is answered twice when a name or
  address it has is too long.
\<close>

theorem post_register_overruns:
  fixes rest
  defines "name \<equiv> http_server_get_header rest ''X-Custom-name: ''" and "email \<equiv> http_server_get_header rest ''X-Custom-email: ''"
    and "hidden \<equiv> http_server_get_header rest ''X-Custom-hidden: ''"
    and "bad \<equiv> Net (NetconnWrite http_400_hdr)" and "good \<equiv> Net (NetconnWrite http_ok_json_no_cache_hdr)"
  assumes st: "wifi_ok st" "reg_info_json st = Some b" "nul \<in> set b"
  shows "case (name, email, hidden) of
      (Some n, Some m, Some h) \<Rightarrow>
        if length n \<le> 64 \<and> length m \<le> 254
        then (let st' = st\<lparr>reg_info := (reg_info st)\<lparr>reg_name := padded 64 n, reg_email := padded 254 m,
                     reg_hidden := (h \<noteq> [] \<and> hd h = CHR ''t'')\<rparr>\<rparr> in
              \<exists>r saving ds. wifi_manager_save_reg_config st' e tr = Inr (r, tr @ saving) \<and>
                post_register_json rest st e tr = Inr (st', tr @ saving @ good # ds))
        else post_register_json rest st e tr = Inl OutOfBounds
    | _ \<Rightarrow> post_register_json rest st e tr =
        Inr (st, tr @ (if header_len name \<le> 64 \<and> header_len email \<le> 254 then [bad] else [bad, bad]))"
proof -
  have len: "length (reg_name (reg_info st)) = 64" "length (reg_email (reg_info st)) = 254"
    using st(1) by (simp_all add: wifi_ok_def)
  have ms: "memset (reg_name (reg_info st)) nul 64 = Inr (replicate 64 nul)"
    "memset (reg_email (reg_info st)) nul 254 = Inr (replicate 254 nul)"
    unfolding memset_def using len buf_write_all [of "replicate 64 nul"] buf_write_all [of "replicate 254 nul"]
    by (metis length_replicate)+
  have over: "buf_write (replicate n nul) 0 s = Inl OutOfBounds" if "n < length s" for n s
    using that by (intro buf_write_over) auto
  note sizes = JSON_REG_NAME_SIZE_def JSON_REG_EMAIL_SIZE_def
  consider n m h where "name = Some n" "email = Some m" "hidden = Some h" | "name = None \<or> email = None \<or> hidden = None"
    by (metis option.exhaust)
  then show ?thesis
  proof cases
    case (1 n m h)
    note headers = 1 [unfolded name_def email_def hidden_def]
    show ?thesis
    proof (cases "length n \<le> 64 \<and> length m \<le> 254")
      case True
      define st1 where "st1 = st\<lparr>reg_info := (reg_info st)\<lparr>reg_name := padded 64 n, reg_email := padded 254 m,
                       reg_hidden := (h \<noteq> [] \<and> hd h = CHR ''t'')\<rparr>\<rparr>"
      have b1: "reg_info_json st1 = Some b" using st(2) by (simp add: st1_def)
      obtain r cs where sv: "wifi_manager_save_reg_config st1 e tr = Inr (r, tr @ cs)" using save_reg_returns by blast
      obtain ps where ps: "http_server_post_registration st1 e (tr @ cs @ [Net (NetconnWrite http_ok_json_no_cache_hdr),
          Rtos (EventGroupGetBits WifiGroup)]) = Inr ((), (tr @ cs @ [Net (NetconnWrite http_ok_json_no_cache_hdr),
          Rtos (EventGroupGetBits WifiGroup)]) @ ps)"
        using post_registration_returns [OF b1 st(3)] by blast
      have "\<exists>ds. post_register_json rest st e tr = Inr (st1, tr @ cs @ Net (NetconnWrite http_ok_json_no_cache_hdr) # ds)"
        using True headers ms buf_write_padded [of n 64] buf_write_padded [of m 254] sv ps
        by (auto simp: post_register_json_def Let_def cmd_simps header_len_def sizes st1_def [symmetric] nwrite_def
            wifi_manager_connected_to_access_point_def)
      then show ?thesis using 1 True sv by (simp add: Let_def st1_def [symmetric] good_def)
    next
      case False
      then have "post_register_json rest st e tr = Inl OutOfBounds"
        using headers ms over [of 64 n] over [of 254 m] buf_write_padded [of n 64]
        by (cases "64 < length n") (auto simp: post_register_json_def Let_def cmd_simps header_len_def sizes nwrite_def)
      then show ?thesis using 1 False by auto
    qed
  next
    case 2
    then have "post_register_json rest st e tr =
        Inr (st, tr @ (if header_len name \<le> 64 \<and> header_len email \<le> 254 then [bad] else [bad, bad]))"
      unfolding name_def email_def hidden_def
      by (auto simp: post_register_json_def Let_def cmd_simps sizes nwrite_def bad_def not_le split: option.split)
    then show ?thesis using 2 by (auto split: option.split)
  qed
qed

definition long_name_request :: string where
  "long_name_request = ''X-Custom-name: '' @ replicate 65 (CHR ''a'') @ nl @ ''X-Custom-email: a@b'' @ nl @ ''X-Custom-hidden: true'' @ nl"

theorem post_register_overruns_witness:
  "post_register_json long_name_request (wifi_demo\<lparr>reg_info_json := Some (replicate 369 nul)\<rparr>) silent_env [] = Inl OutOfBounds"
proof -
  have h: "http_server_get_header long_name_request ''X-Custom-name: '' = Some (replicate 65 (CHR ''a''))"
    "http_server_get_header long_name_request ''X-Custom-email: '' = Some ''a@b''"
    "http_server_get_header long_name_request ''X-Custom-hidden: '' = Some ''true''"
    by code_simp+
  have "wifi_ok (wifi_demo\<lparr>reg_info_json := Some (replicate 369 nul)\<rparr>)"
    using wifi_demo_ok by (simp add: wifi_ok_def wifi_sizes)
  from post_register_overruns [OF this, of "replicate 369 nul" long_name_request silent_env "[]"] show ?thesis by (simp add: h)
qed

subsection \<open>The Internet provider\<close>

text \<open>
  Without an opening brace in the answer, for example when the server closes the connection at
  once, the time stamp is written in front of the buffer.
\<close>

lemma isp_info_no_json_overruns:
  assumes "ans_int e tr (Net (GetAddrInfo ''ip-api.com'' ''80'')) = 0"
    and "ans_bits e tr (Net (GetAddrInfo ''ip-api.com'' ''80'')) \<noteq> 0"
    and "\<And>tr. ans_int e tr (Net Socket) = s" "0 \<le> s" "\<And>tr. ans_int e tr (Net (Connect s)) = 0"
    and "\<And>tr t. ans_int e tr (Net (SockWrite s t)) \<ge> 0" "\<And>tr. ans_int e tr (Net (SetRcvTimeout s 5)) = 0"
    and "\<And>tr. ans_int e tr (Net (SockRead s 63)) = 0" "json_buf \<noteq> []" "0 < fuel"
  shows "http_get_isp_info fuel json_buf len e tr = Inl OutOfBounds"
proof -
  obtain fuel' where "fuel = Suc fuel'" using assms(10) by (cases fuel) auto
  then show ?thesis
    using assms(1-9) by (cases json_buf) (auto simp: http_get_isp_info_def cmd_simps buf_write_def strlen_def not_less)
qed

text \<open>A failure behind the name look-up is reported as success.\<close>

lemma isp_info_failure_is_success:
  assumes "ans_int e tr (Net (GetAddrInfo ''ip-api.com'' ''80'')) = 0"
    and "ans_bits e tr (Net (GetAddrInfo ''ip-api.com'' ''80'')) \<noteq> 0" "\<And>tr. ans_int e tr (Net Socket) < 0"
  shows "\<exists>cs. http_get_isp_info fuel json_buf len e tr = Inr ((ESP_OK, json_buf), tr @ cs)"
  using assms by (simp add: http_get_isp_info_def cmd_simps)

end
