(* ===== verification/Ota.thy ===== *)
theory Ota
  imports Trace
begin

text \<open>
  Firmware updates, \<open>main/ota_if.c\<close>: a task that waits for its trigger, downloads the named
  image into the spare partition and boots from it. The HTTP client, the flash partitions and
  the boot selection are the platform's. Pointers the platform returns are integers, 0 the null
  pointer.
\<close>

subsection \<open>The code\<close>

definition BUFFSIZE :: nat where "BUFFSIZE = 1024"
definition OTA_FILE_BN_LEN :: nat where "OTA_FILE_BN_LEN = 64"
definition OTA_TRIGGER_OTA_BIT :: u32 where "OTA_TRIGGER_OTA_BIT = 1"
definition OTA_URL :: string where "OTA_URL = ''http://air.eng.utah.edu:80/files/updates/''"

text \<open>The two static buffers of the module.\<close>

record ota_state =
  ota_file_basename :: string
  ota_write_data :: string

definition ota_state_init :: ota_state where
  "ota_state_init = \<lparr>ota_file_basename = replicate OTA_FILE_BN_LEN nul, ota_write_data = replicate (BUFFSIZE + 1) nul\<rparr>"

definition http_cleanup :: "unit cmd" where
  "http_cleanup = thenC (doC (Web HttpClose)) (doC (Web HttpCleanup))"

definition ota_trigger :: "unit cmd" where
  "ota_trigger = doC (Rtos (EventGroupSetBits OtaGroup OTA_TRIGGER_OTA_BIT))"

definition ota_set_filename :: "string \<Rightarrow> ota_state \<Rightarrow> ota_state cmd" where
  "ota_set_filename fn st =
     bindC (liftE (strcpy (ota_file_basename st) fn)) (\<lambda>b. ret (st\<lparr>ota_file_basename := b\<rparr>))"

text \<open>
  The loop over the received blocks: whether all data was received (otherwise the client is
  already cleaned up), and the buffer. It runs as long as the server delivers.
\<close>

fun ota_read_loop :: "nat \<Rightarrow> string \<Rightarrow> (bool \<times> string) cmd" where
  "ota_read_loop 0 buf = failC NoFuel"
| "ota_read_loop (Suc fuel) buf =
     bindC (askIS (Web (HttpRead BUFFSIZE))) (\<lambda>(data_read, bs).
     bindC (liftE (buf_write buf 0 (take BUFFSIZE bs))) (\<lambda>buf.
     if data_read < 0 then thenC http_cleanup (ret (False, buf))
     else if data_read > 0
     then if length buf < nat data_read then failC OutOfBounds
          else bindC (askI (Web (OtaWrite (take (nat data_read) buf)))) (\<lambda>err.
               if err \<noteq> ESP_OK then thenC http_cleanup (ret (False, buf))
               else ota_read_loop fuel buf)
     else ret (True, buf)))"

text \<open>
  What follows the download: closing the image, which verifies it, the comparison with the
  running firmware, and the selection of the new one. \<open>esp_restart\<close> is the last thing that
  happens; the value the function would return after it is the source's.
\<close>

definition ota_finish :: "esp_err cmd" where
  "ota_finish =
     bindC (askI (Web OtaEnd)) (\<lambda>r.
     if r \<noteq> ESP_OK then thenC http_cleanup (ret ESP_FAIL) else
     bindC (askI (Web OtaGetRunning)) (\<lambda>_.
     bindC (askI (Web OtaCheckIdentity)) (\<lambda>same.
     if same \<noteq> 0 then ret ESP_FAIL else
     bindC (askI (Web OtaSetBoot)) (\<lambda>err.
     if err \<noteq> ESP_OK then thenC http_cleanup (ret ESP_FAIL) else
     thenC (doC (Sys Restart)) (ret ESP_OK)))))"

text \<open>
  The log lines read the partitions through their pointers, the update partition's before the
  assertion that it is not null.
\<close>

definition ota_commence :: "nat \<Rightarrow> ota_state \<Rightarrow> (esp_err \<times> ota_state) cmd" where
  "ota_commence fuel st =
     bindC (liftE (strlen (ota_file_basename st))) (\<lambda>n.
     if n = 0 then ret (ESP_FAIL, st) else
     bindC (askI (Web OtaGetBoot)) (\<lambda>configured.
     bindC (askI (Web OtaGetRunning)) (\<lambda>running.
     if configured \<noteq> running \<and> configured = 0 \<or> running = 0 then failC NullDeref else
     bindC (liftE (sprintf (replicate (64 + OTA_FILE_BN_LEN) nul) 0 (OTA_URL @ c_str (ota_file_basename st)))) (\<lambda>fn_path.
     bindC (askI (Web (HttpInit (c_str fn_path)))) (\<lambda>client.
     if client = 0 then ret (ESP_FAIL, st) else
     bindC (askI (Web HttpOpen)) (\<lambda>err.
     if err \<noteq> ESP_OK then thenC (doC (Web HttpCleanup)) (ret (ESP_FAIL, st)) else
     thenC (doC (Web HttpFetchHeaders))
     (bindC (askI (Web OtaGetNextUpdate)) (\<lambda>update_partition.
      if update_partition = 0 then failC NullDeref else
      bindC (askI (Web OtaBegin)) (\<lambda>err.
      if err \<noteq> ESP_OK then thenC http_cleanup (ret (ESP_FAIL, st)) else
      bindC (ota_read_loop fuel (ota_write_data st)) (\<lambda>(received, buf).
      let st = st\<lparr>ota_write_data := buf\<rparr> in
      if \<not> received then ret (ESP_FAIL, st) else
      bindC ota_finish (\<lambda>r. ret (r, st))))))))))))"

text \<open>The task: its start, and one turn of its loop; other tasks may set the file name between turns.\<close>

definition ota_task_start :: "ota_state \<Rightarrow> ota_state cmd" where
  "ota_task_start st =
     thenC (doC (Rtos (EventGroupCreate OtaGroup)))
     (bindC (liftE (memset (ota_file_basename st) nul OTA_FILE_BN_LEN)) (\<lambda>b.
      thenC (doC (Rtos (EventGroupClearBits OtaGroup OTA_TRIGGER_OTA_BIT)))
        (ret (st\<lparr>ota_file_basename := b\<rparr>))))"

definition ota_task_turn :: "nat \<Rightarrow> ota_state \<Rightarrow> ota_state cmd" where
  "ota_task_turn fuel st =
     bindC (askB (Rtos (EventGroupWaitBits OtaGroup OTA_TRIGGER_OTA_BIT True True None))) (\<lambda>_.
     bindC (ota_commence fuel st) (\<lambda>(_, st). ret st))"

subsection \<open>What is downloaded and written\<close>

fun ota_written :: "call list \<Rightarrow> string" where
  "ota_written [] = []"
| "ota_written (c # cs) = (case c of Web (OtaWrite s) \<Rightarrow> s | _ \<Rightarrow> []) @ ota_written cs"

fun ota_received :: "env \<Rightarrow> call list \<Rightarrow> call list \<Rightarrow> string" where
  "ota_received e tr [] = []"
| "ota_received e tr (c # cs) =
     (case c of Web (HttpRead n) \<Rightarrow> take (nat (ans_int e tr c)) (ans_bytes e tr c) | _ \<Rightarrow> []) @
     ota_received e (tr @ [c]) cs"

text \<open>Every write to the partition succeeded.\<close>

fun ota_accepted :: "env \<Rightarrow> call list \<Rightarrow> call list \<Rightarrow> bool" where
  "ota_accepted e tr [] \<longleftrightarrow> True"
| "ota_accepted e tr (c # cs) \<longleftrightarrow>
     (case c of Web (OtaWrite s) \<Rightarrow> ans_int e tr c = ESP_OK | _ \<Rightarrow> True) \<and> ota_accepted e (tr @ [c]) cs"

fun transfer_call :: "call \<Rightarrow> bool" where
  "transfer_call (Web (HttpRead _)) \<longleftrightarrow> True"
| "transfer_call (Web (OtaWrite _)) \<longleftrightarrow> True"
| "transfer_call _ \<longleftrightarrow> False"

definition n_http_reads :: "call list \<Rightarrow> nat" where
  "n_http_reads cs = length (filter (\<lambda>c. c = Web (HttpRead BUFFSIZE)) cs)"

lemma n_http_reads_simps [simp]:
  "n_http_reads [] = 0"
  "n_http_reads (c # cs) = (if c = Web (HttpRead BUFFSIZE) then Suc (n_http_reads cs) else n_http_reads cs)"
  "n_http_reads (cs @ ds) = n_http_reads cs + n_http_reads ds"
  by (simp_all add: n_http_reads_def)

text \<open>
  What the HTTP client documents of a read: it returns the number of bytes it delivered, at most
  what was asked for, or a negative number; and the response ends, here after at most \<open>N\<close> reads.
\<close>

definition http_response :: "nat \<Rightarrow> env \<Rightarrow> bool" where
  "http_response N e \<longleftrightarrow> (\<forall>tr. ans_int e tr (Web (HttpRead BUFFSIZE)) \<le> int BUFFSIZE \<and>
     length (ans_bytes e tr (Web (HttpRead BUFFSIZE))) = nat (ans_int e tr (Web (HttpRead BUFFSIZE))) \<and>
     (N \<le> n_http_reads tr \<longrightarrow> ans_int e tr (Web (HttpRead BUFFSIZE)) \<le> 0))"

text \<open>The calls of a finished download: everything received was written, and accepted.\<close>

definition downloaded :: "env \<Rightarrow> call list \<Rightarrow> call list \<Rightarrow> bool" where
  "downloaded e tr cs \<longleftrightarrow> (\<exists>ds. cs = ds @ [Web (HttpRead BUFFSIZE)] \<and> list_all transfer_call ds \<and>
     ans_int e (tr @ ds) (Web (HttpRead BUFFSIZE)) = 0 \<and>
     ota_written ds = ota_received e tr ds \<and> ota_accepted e tr ds)"

text \<open>
  The calls of a download that was broken off: the last of them is a read or a write that failed,
  and up to the last write everything received had been written and accepted.
\<close>

definition broken_off :: "env \<Rightarrow> call list \<Rightarrow> call list \<Rightarrow> bool" where
  "broken_off e tr cs \<longleftrightarrow> (\<exists>ds c. list_all transfer_call ds \<and> ota_written ds = ota_received e tr ds \<and> ota_accepted e tr ds \<and>
     (cs = ds @ [Web (HttpRead BUFFSIZE)] \<and> ans_int e (tr @ ds) (Web (HttpRead BUFFSIZE)) < 0 \<or>
      cs = ds @ [Web (HttpRead BUFFSIZE), c] \<and> c = Web (OtaWrite (ota_received e (tr @ ds) [Web (HttpRead BUFFSIZE)])) \<and>
      ans_int e (tr @ ds @ [Web (HttpRead BUFFSIZE)]) c \<noteq> ESP_OK))"

lemma downloaded_step:
  assumes "downloaded e (tr @ [Web (HttpRead BUFFSIZE), Web (OtaWrite bs)]) cs"
    and "bs = take (nat (ans_int e tr (Web (HttpRead BUFFSIZE)))) (ans_bytes e tr (Web (HttpRead BUFFSIZE)))"
    and "ans_int e (tr @ [Web (HttpRead BUFFSIZE)]) (Web (OtaWrite bs)) = 0"
  shows "downloaded e tr (Web (HttpRead BUFFSIZE) # Web (OtaWrite bs) # cs)"
proof -
  obtain ds where ds: "cs = ds @ [Web (HttpRead BUFFSIZE)]" "list_all transfer_call ds"
    "ans_int e (tr @ [Web (HttpRead BUFFSIZE), Web (OtaWrite bs)] @ ds) (Web (HttpRead BUFFSIZE)) = 0"
    "ota_written ds = ota_received e (tr @ [Web (HttpRead BUFFSIZE), Web (OtaWrite bs)]) ds"
    "ota_accepted e (tr @ [Web (HttpRead BUFFSIZE), Web (OtaWrite bs)]) ds"
    using assms(1) unfolding downloaded_def by auto
  show ?thesis
    unfolding downloaded_def
    using ds assms(2,3)
    by (intro exI [of _ "Web (HttpRead BUFFSIZE) # Web (OtaWrite bs) # ds"]) simp
qed

lemma broken_off_step:
  assumes "broken_off e (tr @ [Web (HttpRead BUFFSIZE), Web (OtaWrite bs)]) cs"
    and "bs = take (nat (ans_int e tr (Web (HttpRead BUFFSIZE)))) (ans_bytes e tr (Web (HttpRead BUFFSIZE)))"
    and "ans_int e (tr @ [Web (HttpRead BUFFSIZE)]) (Web (OtaWrite bs)) = 0"
  shows "broken_off e tr (Web (HttpRead BUFFSIZE) # Web (OtaWrite bs) # cs)"
proof -
  obtain ds c where ds: "list_all transfer_call ds"
    "ota_written ds = ota_received e (tr @ [Web (HttpRead BUFFSIZE), Web (OtaWrite bs)]) ds"
    "ota_accepted e (tr @ [Web (HttpRead BUFFSIZE), Web (OtaWrite bs)]) ds"
    "cs = ds @ [Web (HttpRead BUFFSIZE)] \<and>
       ans_int e ((tr @ [Web (HttpRead BUFFSIZE), Web (OtaWrite bs)]) @ ds) (Web (HttpRead BUFFSIZE)) < 0 \<or>
     cs = ds @ [Web (HttpRead BUFFSIZE), c] \<and>
       c = Web (OtaWrite (ota_received e ((tr @ [Web (HttpRead BUFFSIZE), Web (OtaWrite bs)]) @ ds) [Web (HttpRead BUFFSIZE)])) \<and>
       ans_int e ((tr @ [Web (HttpRead BUFFSIZE), Web (OtaWrite bs)]) @ ds @ [Web (HttpRead BUFFSIZE)]) c \<noteq> ESP_OK"
    using assms(1) unfolding broken_off_def by blast
  show ?thesis
    unfolding broken_off_def
    using ds assms(2,3)
    by (intro exI [of _ "Web (HttpRead BUFFSIZE) # Web (OtaWrite bs) # ds"] exI [of _ c]) auto
qed

lemma http_cleanup_run: "http_cleanup e tr = Inr ((), tr @ [Web HttpClose, Web HttpCleanup])"
  by (simp add: http_cleanup_def cmd_simps)

lemma http_readD:
  assumes "http_response N e"
  shows "ans_int e tr (Web (HttpRead BUFFSIZE)) \<le> int BUFFSIZE"
    and "length (ans_bytes e tr (Web (HttpRead BUFFSIZE))) = nat (ans_int e tr (Web (HttpRead BUFFSIZE)))"
    and "N \<le> n_http_reads tr \<Longrightarrow> ans_int e tr (Web (HttpRead BUFFSIZE)) \<le> 0"
  using assms by (simp_all add: http_response_def)

text \<open>An update in which nothing goes wrong.\<close>

definition ota_cooperates :: "env \<Rightarrow> bool" where
  "ota_cooperates e \<longleftrightarrow> (\<forall>tr s. 0 \<le> ans_int e tr (Web (HttpRead BUFFSIZE)) \<and> ans_int e tr (Web (OtaWrite s)) = ESP_OK \<and>
     ans_int e tr (Web (HttpInit s)) \<noteq> 0 \<and> ans_int e tr (Web HttpOpen) = ESP_OK \<and> ans_int e tr (Web OtaBegin) = ESP_OK \<and>
     ans_int e tr (Web OtaEnd) = ESP_OK \<and> ans_int e tr (Web OtaCheckIdentity) = 0 \<and> ans_int e tr (Web OtaSetBoot) = ESP_OK)"

text \<open>One round of the loop.\<close>

lemma ota_read_step:
  fixes e tr
  defines "c \<equiv> Web (HttpRead BUFFSIZE)"
  defines "k \<equiv> ans_int e tr c" and "bs \<equiv> ans_bytes e tr c"
  assumes resp: "http_response N e" and buf: "length buf = BUFFSIZE + 1"
  shows "\<exists>b. length b = BUFFSIZE + 1 \<and> ota_read_loop (Suc fuel) buf e tr =
    (if k < 0 then Inr ((False, b), tr @ [c, Web HttpClose, Web HttpCleanup])
     else if k = 0 then Inr ((True, b), tr @ [c])
     else if ans_int e (tr @ [c]) (Web (OtaWrite bs)) \<noteq> 0
     then Inr ((False, b), tr @ [c, Web (OtaWrite bs), Web HttpClose, Web HttpCleanup])
     else ota_read_loop fuel b e (tr @ [c, Web (OtaWrite bs)]))"
proof -
  define b where "b = bs @ drop (length bs) buf"
  note rd = http_readD [OF resp, of tr, folded c_def, folded k_def bs_def]
  have w: "buf_write buf 0 (take BUFFSIZE bs) = Inr b" and b: "length b = BUFFSIZE + 1"
    and taken: "take (nat k) b = bs" "nat k \<le> BUFFSIZE"
    using rd(1,2) buf by (simp_all add: buf_simps b_def)
  have k: "k = ans_int e tr (Web (HttpRead BUFFSIZE))" "bs = ans_bytes e tr (Web (HttpRead BUFFSIZE))"
    by (simp_all add: k_def bs_def c_def)
  show ?thesis
    using w b taken by (intro exI [of _ b]) (simp add: cmd_simps k [symmetric] c_def http_cleanup_run)
qed

text \<open>The loop ends, and when it reports success everything received has been written.\<close>

lemma ota_read_loop_returns:
  assumes resp: "http_response N e"
  shows "length buf = BUFFSIZE + 1 \<Longrightarrow> 0 < fuel \<Longrightarrow> N < fuel + n_http_reads tr \<Longrightarrow>
    \<exists>ok buf' cs. ota_read_loop fuel buf e tr = Inr ((ok, buf'), tr @ cs) \<and>
      (if ok then downloaded e tr cs
       else \<exists>ds. cs = ds @ [Web HttpClose, Web HttpCleanup] \<and> broken_off e tr ds) \<and> (ota_cooperates e \<longrightarrow> ok)"
proof (induction fuel arbitrary: buf tr)
  case (Suc fuel)
  let ?c = "Web (HttpRead BUFFSIZE)" and ?k = "ans_int e tr (Web (HttpRead BUFFSIZE))"
  define bs where "bs = ans_bytes e tr ?c"
  let ?d = "\<lambda>cs. ?c # Web (OtaWrite bs) # cs"
  obtain b where b: "length b = BUFFSIZE + 1" and run: "ota_read_loop (Suc fuel) buf e tr =
    (if ?k < 0 then Inr ((False, b), tr @ [?c, Web HttpClose, Web HttpCleanup])
     else if ?k = 0 then Inr ((True, b), tr @ [?c])
     else if ans_int e (tr @ [?c]) (Web (OtaWrite bs)) \<noteq> 0 then Inr ((False, b), tr @ ?d [Web HttpClose, Web HttpCleanup])
     else ota_read_loop fuel b e (tr @ ?d []))"
    using ota_read_step [OF resp Suc.prems(1), of fuel tr] unfolding bs_def by blast
  have received: "ota_received e tr [?c] = bs" if "0 < ?k"
    using http_readD(2) [OF resp, of tr] that by (simp add: bs_def)
  consider "?k < 0" | "?k = 0" | "0 < ?k" "ans_int e (tr @ [?c]) (Web (OtaWrite bs)) \<noteq> 0"
    | "0 < ?k" "ans_int e (tr @ [?c]) (Web (OtaWrite bs)) = 0" by linarith
  then show ?case
  proof cases
    case 1
    then have "\<not> ota_cooperates e" unfolding ota_cooperates_def by (metis not_le)
    moreover have "broken_off e tr [?c]" unfolding broken_off_def using 1 by (intro exI [of _ "[]"]) simp
    ultimately show ?thesis using 1 run by auto
  next
    case 2
    then have "downloaded e tr [?c]" by (simp add: downloaded_def)
    with 2 run show ?thesis by auto
  next
    case 3
    then have "\<not> ota_cooperates e" by (auto simp: ota_cooperates_def)
    moreover have "broken_off e tr (?d [])"
      unfolding broken_off_def using 3 received by (intro exI [of _ "[]"] exI [of _ "Web (OtaWrite bs)"]) simp
    ultimately show ?thesis using 3 run by auto
  next
    case 4
    have "n_http_reads tr < N" using http_readD(3) [OF resp, of tr] 4(1) by (meson not_le)
    then obtain ok buf' cs where IH: "ota_read_loop fuel b e (tr @ ?d []) = Inr ((ok, buf'), (tr @ ?d []) @ cs)"
      "if ok then downloaded e (tr @ ?d []) cs else \<exists>ds. cs = ds @ [Web HttpClose, Web HttpCleanup] \<and> broken_off e (tr @ ?d []) ds"
      "ota_cooperates e \<longrightarrow> ok"
      using Suc.IH [OF b, of "tr @ ?d []"] Suc.prems(3) by auto
    have "if ok then downloaded e tr (?d cs)
        else \<exists>ds. ?d cs = ds @ [Web HttpClose, Web HttpCleanup] \<and> broken_off e tr ds"
    proof (cases ok)
      case True
      then have "downloaded e (tr @ ?d []) cs" using IH(2) by simp
      then have "downloaded e tr (?d cs)" by (rule downloaded_step) (use received 4 in simp_all)
      then show ?thesis using True by simp
    next
      case False
      then obtain ds where ds: "cs = ds @ [Web HttpClose, Web HttpCleanup]" "broken_off e (tr @ ?d []) ds" using IH(2) by auto
      have "broken_off e tr (?d ds)" by (rule broken_off_step [OF ds(2)]) (use received 4 in simp_all)
      then have "?d cs = ?d ds @ [Web HttpClose, Web HttpCleanup] \<and> broken_off e tr (?d ds)" using ds(1) by simp
      then show ?thesis using False by (simp only: if_False) blast
    qed
    with 4 run IH(1,3) show ?thesis by (intro exI [of _ ok] exI [of _ buf'] exI [of _ "?d cs"]) simp
  qed
qed simp

subsection \<open>The client\<close>

text \<open>The HTTP client is acquired by its initialisation, when that succeeds, and given back by its clean-up.\<close>

fun http_client_call :: "call \<Rightarrow> bool" where
  "http_client_call (Web (HttpInit _)) \<longleftrightarrow> True"
| "http_client_call (Web HttpCleanup) \<longleftrightarrow> True"
| "http_client_call _ \<longleftrightarrow> False"

definition client_delta :: "env \<Rightarrow> call list \<Rightarrow> call \<Rightarrow> int" where
  "client_delta e tr c =
     (case c of Web (HttpInit u) \<Rightarrow> (if ans_int e tr c \<noteq> 0 then 1 else 0) | Web HttpCleanup \<Rightarrow> - 1 | _ \<Rightarrow> 0)"

interpretation hc: resource client_delta http_client_call
proof
  fix c e tr
  assume "\<not> http_client_call c"
  then show "client_delta e tr c = 0"
    by (cases c rule: http_client_call.cases) (simp_all add: client_delta_def)
qed

lemma transfer_neutral:
  assumes "list_all transfer_call ds"
  shows "balance client_delta e tr ds = 0"
proof (rule hc.irrelevant_calls)
  have "\<not> http_client_call c" if "transfer_call c" for c
    using that by (cases c rule: transfer_call.cases) simp_all
  then show "list_all (\<lambda>c. \<not> http_client_call c) ds" using assms by (simp add: list_all_iff)
qed

lemma transfer_not:
  assumes "list_all transfer_call ds"
  shows "Sys Restart \<notin> set ds" "Web OtaSetBoot \<notin> set ds"
  using assms by (auto simp: list_all_iff)

subsection \<open>Installation\<close>

definition ota_prologue :: "string \<Rightarrow> call list" where
  "ota_prologue name = [Web OtaGetBoot, Web OtaGetRunning, Web (HttpInit (OTA_URL @ name)), Web HttpOpen,
     Web HttpFetchHeaders, Web OtaGetNextUpdate, Web OtaBegin]"

definition ota_partitions :: "env \<Rightarrow> bool" where
  "ota_partitions e \<longleftrightarrow> (\<forall>tr. ans_int e tr (Web OtaGetBoot) \<noteq> 0 \<and> ans_int e tr (Web OtaGetRunning) \<noteq> 0 \<and>
     ans_int e tr (Web OtaGetNextUpdate) \<noteq> 0)"

text \<open>
  The calls of an update that selects its image: all that was received is written, and verified, and
  the image is not the running one.
\<close>

definition image_selected :: "env \<Rightarrow> call list \<Rightarrow> string \<Rightarrow> call list \<Rightarrow> call list \<Rightarrow> bool" where
  "image_selected e tr name cs post \<longleftrightarrow> (\<exists>ds. let tr1 = tr @ ota_prologue name; tr2 = tr1 @ ds in
     cs = ota_prologue name @ ds @ [Web OtaEnd, Web OtaGetRunning, Web OtaCheckIdentity, Web OtaSetBoot] @ post \<and>
     downloaded e tr1 ds \<and> ans_int e tr2 (Web OtaEnd) = ESP_OK \<and>
     ans_int e (tr2 @ [Web OtaEnd, Web OtaGetRunning]) (Web OtaCheckIdentity) = 0)"

definition selection_answer :: "env \<Rightarrow> call list \<Rightarrow> call list \<Rightarrow> call list \<Rightarrow> int" where
  "selection_answer e tr cs post = ans_int e (tr @ take (length cs - length post - 1) cs) (Web OtaSetBoot)"

text \<open>
  How an update can end, with its result and all its calls: without a client, without a connection,
  without a partition to write, broken off, with an image that fails its verification or is the
  running one, with a selection that fails, and installed.
\<close>

definition client_opened :: "env \<Rightarrow> call list \<Rightarrow> string \<Rightarrow> bool" where
  "client_opened e tr name \<longleftrightarrow>
     ans_int e (tr @ take 2 (ota_prologue name)) (Web (HttpInit (OTA_URL @ name))) \<noteq> 0 \<and>
     ans_int e (tr @ take 3 (ota_prologue name)) (Web HttpOpen) = ESP_OK"

definition update_begun :: "env \<Rightarrow> call list \<Rightarrow> string \<Rightarrow> bool" where
  "update_begun e tr name \<longleftrightarrow>
     client_opened e tr name \<and> ans_int e (tr @ take 6 (ota_prologue name)) (Web OtaBegin) = ESP_OK"

inductive ota_outcome :: "env \<Rightarrow> call list \<Rightarrow> string \<Rightarrow> esp_err \<Rightarrow> call list \<Rightarrow> bool" for e tr name where
  no_client: "ans_int e (tr @ take 2 (ota_prologue name)) (Web (HttpInit (OTA_URL @ name))) = 0 \<Longrightarrow>
    ota_outcome e tr name ESP_FAIL (take 3 (ota_prologue name))"
| not_opened: "ans_int e (tr @ take 2 (ota_prologue name)) (Web (HttpInit (OTA_URL @ name))) \<noteq> 0 \<Longrightarrow>
    ans_int e (tr @ take 3 (ota_prologue name)) (Web HttpOpen) \<noteq> ESP_OK \<Longrightarrow>
    ota_outcome e tr name ESP_FAIL (take 4 (ota_prologue name) @ [Web HttpCleanup])"
| not_begun: "client_opened e tr name \<Longrightarrow> \<not> update_begun e tr name \<Longrightarrow>
    ota_outcome e tr name ESP_FAIL (ota_prologue name @ [Web HttpClose, Web HttpCleanup])"
| broken: "update_begun e tr name \<Longrightarrow> broken_off e (tr @ ota_prologue name) ds \<Longrightarrow>
    ota_outcome e tr name ESP_FAIL (ota_prologue name @ ds @ [Web HttpClose, Web HttpCleanup])"
| rejected: "update_begun e tr name \<Longrightarrow> downloaded e (tr @ ota_prologue name) ds \<Longrightarrow>
    ans_int e (tr @ ota_prologue name @ ds) (Web OtaEnd) \<noteq> ESP_OK \<Longrightarrow>
    ota_outcome e tr name ESP_FAIL (ota_prologue name @ ds @ [Web OtaEnd, Web HttpClose, Web HttpCleanup])"
| running: "update_begun e tr name \<Longrightarrow> downloaded e (tr @ ota_prologue name) ds \<Longrightarrow>
    ans_int e (tr @ ota_prologue name @ ds) (Web OtaEnd) = ESP_OK \<Longrightarrow>
    ans_int e (tr @ ota_prologue name @ ds @ [Web OtaEnd, Web OtaGetRunning]) (Web OtaCheckIdentity) \<noteq> 0 \<Longrightarrow>
    ota_outcome e tr name ESP_FAIL (ota_prologue name @ ds @ [Web OtaEnd, Web OtaGetRunning, Web OtaCheckIdentity])"
| not_selected: "update_begun e tr name \<Longrightarrow> image_selected e tr name cs [Web HttpClose, Web HttpCleanup] \<Longrightarrow>
    selection_answer e tr cs [Web HttpClose, Web HttpCleanup] \<noteq> ESP_OK \<Longrightarrow> ota_outcome e tr name ESP_FAIL cs"
| installed: "update_begun e tr name \<Longrightarrow> image_selected e tr name cs [Sys Restart] \<Longrightarrow>
    selection_answer e tr cs [Sys Restart] = ESP_OK \<Longrightarrow> ota_outcome e tr name ESP_OK cs"

lemma ota_finish_run:
  "ota_finish e tr =
     (if ans_int e tr (Web OtaEnd) \<noteq> 0 then Inr (ESP_FAIL, tr @ [Web OtaEnd, Web HttpClose, Web HttpCleanup])
      else if ans_int e (tr @ [Web OtaEnd, Web OtaGetRunning]) (Web OtaCheckIdentity) \<noteq> 0
      then Inr (ESP_FAIL, tr @ [Web OtaEnd, Web OtaGetRunning, Web OtaCheckIdentity])
      else if ans_int e (tr @ [Web OtaEnd, Web OtaGetRunning, Web OtaCheckIdentity]) (Web OtaSetBoot) \<noteq> 0
      then Inr (ESP_FAIL, tr @ [Web OtaEnd, Web OtaGetRunning, Web OtaCheckIdentity, Web OtaSetBoot, Web HttpClose, Web HttpCleanup])
      else Inr (ESP_OK, tr @ [Web OtaEnd, Web OtaGetRunning, Web OtaCheckIdentity, Web OtaSetBoot, Sys Restart]))"
  by (simp add: ota_finish_def cmd_simps http_cleanup_run)

lemma downloaded_transfer: "downloaded e tr ds \<Longrightarrow> list_all transfer_call ds"
  by (auto simp: downloaded_def)

lemma broken_off_transfer: "broken_off e tr ds \<Longrightarrow> list_all transfer_call ds"
  by (auto simp: broken_off_def)

lemma ota_finish_outcome:
  assumes begun: "update_begun e tr name" and down: "downloaded e (tr @ ota_prologue name) ds"
  shows "\<exists>r fs. ota_finish e (tr @ ota_prologue name @ ds) = Inr (r, tr @ ota_prologue name @ ds @ fs) \<and>
    ota_outcome e tr name r (ota_prologue name @ ds @ fs) \<and> (ota_cooperates e \<longrightarrow> r = ESP_OK)"
proof -
  let ?tr = "tr @ ota_prologue name @ ds" and ?select = "[Web OtaEnd, Web OtaGetRunning, Web OtaCheckIdentity, Web OtaSetBoot]"
  have selected: "image_selected e tr name (ota_prologue name @ ds @ ?select @ post) post"
    and answer: "selection_answer e tr (ota_prologue name @ ds @ ?select @ post) post =
      ans_int e (?tr @ [Web OtaEnd, Web OtaGetRunning, Web OtaCheckIdentity]) (Web OtaSetBoot)"
    if "ans_int e ?tr (Web OtaEnd) = 0" "ans_int e (?tr @ [Web OtaEnd, Web OtaGetRunning]) (Web OtaCheckIdentity) = 0" for post
    using that down by (auto simp: image_selected_def Let_def selection_answer_def)
  show ?thesis
    using ota_outcome.rejected [OF begun down] ota_outcome.running [OF begun down] ota_outcome.not_selected [OF begun selected]
      ota_outcome.installed [OF begun selected] answer
    by (auto simp: ota_finish_run ota_cooperates_def)
qed

text \<open>What is asked for, when the image is selected, when the device restarts, and what becomes of the client.\<close>

lemma prologue_balance:
  assumes "ans_int e (tr @ take 2 (ota_prologue name)) (Web (HttpInit (OTA_URL @ name))) \<noteq> 0"
  shows "balance client_delta e tr (ota_prologue name @ cs) = 1 + balance client_delta e (tr @ ota_prologue name) cs"
  using assms by (simp add: balance_append ota_prologue_def) (simp add: client_delta_def)

lemma update_begun_client:
  "update_begun e tr name \<Longrightarrow> ans_int e (tr @ take 2 (ota_prologue name)) (Web (HttpInit (OTA_URL @ name))) \<noteq> 0"
  "client_opened e tr name \<Longrightarrow> ans_int e (tr @ take 2 (ota_prologue name)) (Web (HttpInit (OTA_URL @ name))) \<noteq> 0"
  by (simp_all add: update_begun_def client_opened_def)

lemma client_delta_simps:
  "client_delta e tr (Web HttpClose) = 0" "client_delta e tr (Web HttpCleanup) = - 1" "client_delta e tr (Web OtaEnd) = 0"
  "client_delta e tr (Web OtaGetRunning) = 0" "client_delta e tr (Web OtaCheckIdentity) = 0"
  "client_delta e tr (Web OtaSetBoot) = 0" "client_delta e tr (Sys Restart) = 0"
  by (simp_all add: client_delta_def)

lemma outcome_balance:
  "ota_outcome e tr name r cs \<Longrightarrow>
   balance client_delta e tr cs = (if r = ESP_OK \<or> last cs = Web OtaCheckIdentity then 1 else 0)"
proof (induction rule: ota_outcome.induct)
  case no_client
  then show ?case by (simp add: ota_prologue_def client_delta_def)
next
  case not_opened
  then show ?case by (simp add: ota_prologue_def client_delta_def)
next
  case not_begun
  then show ?case using prologue_balance [OF update_begun_client(2)] by (simp add: client_delta_simps)
next
  case (broken ds)
  then show ?case
    using prologue_balance [OF update_begun_client(1)] transfer_neutral [OF broken_off_transfer [OF broken(2)]]
    by (simp add: balance_append client_delta_simps)
next
  case (rejected ds)
  then show ?case
    using prologue_balance [OF update_begun_client(1)] transfer_neutral [OF downloaded_transfer [OF rejected(2)]]
    by (simp add: balance_append client_delta_simps)
next
  case (running ds)
  then show ?case
    using prologue_balance [OF update_begun_client(1)] transfer_neutral [OF downloaded_transfer [OF running(2)]]
    by (simp add: balance_append client_delta_simps)
next
  case (not_selected cs)
  then obtain ds where cs: "cs = ota_prologue name @ ds @ [Web OtaEnd, Web OtaGetRunning, Web OtaCheckIdentity, Web OtaSetBoot,
      Web HttpClose, Web HttpCleanup]" "downloaded e (tr @ ota_prologue name) ds"
    by (auto simp: image_selected_def Let_def)
  then show ?case
    using prologue_balance [OF update_begun_client(1) [OF not_selected(1)]] transfer_neutral [OF downloaded_transfer [OF cs(2)]]
    by (simp add: balance_append client_delta_simps)
next
  case (installed cs)
  then obtain ds where cs: "cs = ota_prologue name @ ds @ [Web OtaEnd, Web OtaGetRunning, Web OtaCheckIdentity, Web OtaSetBoot,
      Sys Restart]" "downloaded e (tr @ ota_prologue name) ds"
    by (auto simp: image_selected_def Let_def)
  then show ?case
    using prologue_balance [OF update_begun_client(1) [OF installed(1)]] transfer_neutral [OF downloaded_transfer [OF cs(2)]]
    by (simp add: balance_append client_delta_simps)
qed

lemma outcome_calls:
  assumes "ota_outcome e tr name r cs"
  shows "{u. Web (HttpInit u) \<in> set cs} = {OTA_URL @ name}" "r = ESP_OK \<longleftrightarrow> Sys Restart \<in> set cs"
    "r = ESP_OK \<longleftrightarrow> image_selected e tr name cs [Sys Restart] \<and> selection_answer e tr cs [Sys Restart] = ESP_OK"
    "Web OtaSetBoot \<in> set cs \<Longrightarrow> \<exists>post. image_selected e tr name cs post"
proof -
  have not: "Web (HttpInit u) \<notin> set ds \<and> Sys Restart \<notin> set ds \<and> Web OtaSetBoot \<notin> set ds" if "list_all transfer_call ds" for ds u
    using that by (auto simp: list_all_iff)
  note transfer = not [OF downloaded_transfer] not [OF broken_off_transfer]
  have restart: "Sys Restart \<in> set cs" if "image_selected e tr name cs [Sys Restart]" for cs
    using that by (auto simp: image_selected_def Let_def)
  show "{u. Web (HttpInit u) \<in> set cs} = {OTA_URL @ name}" "r = ESP_OK \<longleftrightarrow> Sys Restart \<in> set cs"
    using assms by (cases; use transfer in \<open>auto simp: ota_prologue_def image_selected_def Let_def\<close>)+
  show "Web OtaSetBoot \<in> set cs \<Longrightarrow> \<exists>post. image_selected e tr name cs post"
    using assms by (cases; use transfer in \<open>auto simp: ota_prologue_def\<close>)
  then show "r = ESP_OK \<longleftrightarrow> image_selected e tr name cs [Sys Restart] \<and> selection_answer e tr cs [Sys Restart] = ESP_OK"
    using assms restart \<open>r = ESP_OK \<longleftrightarrow> Sys Restart \<in> set cs\<close> by (auto elim: ota_outcome.cases)
qed

lemma url_path:
  assumes "nul \<notin> set name" "length name < OTA_FILE_BN_LEN"
  shows "\<exists>path. sprintf (replicate (64 + OTA_FILE_BN_LEN) nul) 0 (OTA_URL @ name) = Inr path \<and> c_str path = OTA_URL @ name"
proof -
  let ?b = "replicate (64 + OTA_FILE_BN_LEN) nul"
  have h: "holds (64 + OTA_FILE_BN_LEN) [] ?b" by (simp add: holds_def)
  have fits: "length ([] :: string) + length (OTA_URL @ name) < 64 + OTA_FILE_BN_LEN" "nul \<notin> set (OTA_URL @ name)"
    using assms by (simp_all add: OTA_URL_def)
  show ?thesis
    using sprintf_append [OF h, of "OTA_URL @ name"] fits(1) holds_c_str [OF app_to_holds [OF h fits(2,1)]] by simp
qed

lemma ota_commence_run:
  fixes name :: string and e tr
  defines "pro \<equiv> ota_prologue name"
  assumes name: "holds OTA_FILE_BN_LEN name (ota_file_basename st)" "name \<noteq> []" and parts: "ota_partitions e"
  shows "ota_commence fuel st e tr =
    (if ans_int e (tr @ take 2 pro) (Web (HttpInit (OTA_URL @ name))) = 0 then Inr ((ESP_FAIL, st), tr @ take 3 pro)
     else if ans_int e (tr @ take 3 pro) (Web HttpOpen) \<noteq> 0 then Inr ((ESP_FAIL, st), tr @ take 4 pro @ [Web HttpCleanup])
     else if ans_int e (tr @ take 6 pro) (Web OtaBegin) \<noteq> 0
     then Inr ((ESP_FAIL, st), tr @ pro @ [Web HttpClose, Web HttpCleanup])
     else bindE (ota_read_loop fuel (ota_write_data st) e (tr @ pro)) (\<lambda>((received, buf), tr1).
       if received then bindE (ota_finish e tr1) (\<lambda>(r, tr2). Inr ((r, st\<lparr>ota_write_data := buf\<rparr>), tr2))
       else Inr ((ESP_FAIL, st\<lparr>ota_write_data := buf\<rparr>), tr1)))"
proof -
  obtain path where path: "sprintf (replicate (64 + OTA_FILE_BN_LEN) nul) 0 (OTA_URL @ name) = Inr path" "c_str path = OTA_URL @ name"
    using url_path [of name] name(1) holds_len [OF name(1)] by (auto simp: holds_def)
  show ?thesis
    using holds_strlen [OF name(1)] holds_c_str [OF name(1)] name(2) parts path
    by (simp add: ota_commence_def cmd_simps http_cleanup_run ota_partitions_def pro_def ota_prologue_def case_prod_beta')
       (auto simp: fun_eq_iff cmd_simps intro!: bindE_cong)
qed

lemma ota_commence_outcome:
  assumes "holds OTA_FILE_BN_LEN name (ota_file_basename st)" "name \<noteq> []"
    and buf: "length (ota_write_data st) = BUFFSIZE + 1"
    and parts: "ota_partitions e" and resp: "http_response N e" and fuel: "N < fuel"
  shows "\<exists>r st' cs. ota_commence fuel st e tr = Inr ((r, st'), tr @ cs) \<and>
    ota_file_basename st' = ota_file_basename st \<and> ota_outcome e tr name r cs \<and> (ota_cooperates e \<longrightarrow> r = ESP_OK)"
proof -
  let ?pro = "ota_prologue name"
  note run = ota_commence_run [OF assms(1,2) parts, of fuel tr]
  have client: "update_begun e tr name" if "ota_cooperates e"
    using that by (simp add: ota_cooperates_def update_begun_def client_opened_def)
  consider "ans_int e (tr @ take 2 ?pro) (Web (HttpInit (OTA_URL @ name))) = 0"
    | "ans_int e (tr @ take 2 ?pro) (Web (HttpInit (OTA_URL @ name))) \<noteq> 0" "ans_int e (tr @ take 3 ?pro) (Web HttpOpen) \<noteq> 0"
    | "client_opened e tr name" "\<not> update_begun e tr name" | "update_begun e tr name"
    by (auto simp: update_begun_def client_opened_def)
  then show ?thesis
  proof cases
    case 1
    with run client ota_outcome.no_client [OF 1] show ?thesis by (auto simp: update_begun_def client_opened_def)
  next
    case 2
    with run client ota_outcome.not_opened [OF 2(1)] show ?thesis by (auto simp: update_begun_def client_opened_def)
  next
    case 3
    with run client ota_outcome.not_begun [OF 3] show ?thesis by (auto simp: update_begun_def client_opened_def)
  next
    case 4
    obtain ok buf' ds where loop: "ota_read_loop fuel (ota_write_data st) e (tr @ ?pro) = Inr ((ok, buf'), (tr @ ?pro) @ ds)"
      "if ok then downloaded e (tr @ ?pro) ds else \<exists>bs. ds = bs @ [Web HttpClose, Web HttpCleanup] \<and> broken_off e (tr @ ?pro) bs"
      "ota_cooperates e \<longrightarrow> ok"
      using ota_read_loop_returns [OF resp buf, of fuel "tr @ ?pro"] fuel by auto
    have run: "ota_commence fuel st e tr = (if ok then bindE (ota_finish e (tr @ ?pro @ ds)) (\<lambda>(r, tr2). Inr ((r, st\<lparr>ota_write_data := buf'\<rparr>), tr2))
       else Inr ((ESP_FAIL, st\<lparr>ota_write_data := buf'\<rparr>), tr @ ?pro @ ds))"
      using run 4 loop(1) by (simp add: update_begun_def client_opened_def)
    show ?thesis
    proof (cases ok)
      case True
      then have down: "downloaded e (tr @ ?pro) ds" using loop(2) by simp
      obtain r fs where "ota_finish e (tr @ ?pro @ ds) = Inr (r, tr @ ?pro @ ds @ fs)"
        "ota_outcome e tr name r (?pro @ ds @ fs)" "ota_cooperates e \<longrightarrow> r = ESP_OK"
        using ota_finish_outcome [OF 4 down] by blast
      with True run show ?thesis by auto
    next
      case False
      with run loop(2,3) ota_outcome.broken [OF 4] show ?thesis by auto
    qed
  qed
qed

text \<open>
  C7: an update of a device that has a name for the image returns as soon as the server has
  delivered the whole response, in at most one read more than it has blocks, and its result and
  calls are those of exactly one of the eight ways it can end. It succeeds exactly when every byte
  received, in order and without a gap, was written to the update partition and accepted, the
  server had nothing more to send, the image was verified and differs from the running one, and the
  boot partition was set and that was accepted; it then restarts the device, and never otherwise.
  It succeeds when nothing goes wrong, and never sets the boot partition of an image that is not
  complete. The HTTP client is given back on every path but two: when the device is restarted, and
  when the image is the running one, where it is leaked.
\<close>

theorem ota_installs_whole_image:
  assumes "holds OTA_FILE_BN_LEN name (ota_file_basename st)" "name \<noteq> []"
    and buf: "length (ota_write_data st) = BUFFSIZE + 1"
    and parts: "ota_partitions e" and resp: "http_response N e" and fuel: "N < fuel"
  shows "\<exists>r st' cs. ota_commence fuel st e tr = Inr ((r, st'), tr @ cs) \<and>
    ota_file_basename st' = ota_file_basename st \<and> ota_outcome e tr name r cs \<and> (ota_cooperates e \<longrightarrow> r = ESP_OK) \<and>
    (r = ESP_OK \<longleftrightarrow> image_selected e tr name cs [Sys Restart] \<and> selection_answer e tr cs [Sys Restart] = ESP_OK) \<and>
    (r = ESP_OK \<longleftrightarrow> Sys Restart \<in> set cs) \<and>
    (Web OtaSetBoot \<in> set cs \<longrightarrow> (\<exists>post. image_selected e tr name cs post)) \<and>
    balance client_delta e tr cs = (if r = ESP_OK \<or> last cs = Web OtaCheckIdentity then 1 else 0)"
proof -
  obtain r st' cs where run: "ota_commence fuel st e tr = Inr ((r, st'), tr @ cs)" "ota_file_basename st' = ota_file_basename st"
    and out: "ota_outcome e tr name r cs" and ok: "ota_cooperates e \<longrightarrow> r = ESP_OK"
    using ota_commence_outcome [OF assms] by blast
  show ?thesis
    using run out ok outcome_calls(2-4) [OF out] outcome_balance [OF out]
    by (intro exI [of _ r] exI [of _ st'] exI [of _ cs]) simp
qed

definition update_env :: "string list \<Rightarrow> env" where
  "update_env blocks = silent_env\<lparr>
     ans_int := (\<lambda>tr c. case c of
        Web (HttpRead n) \<Rightarrow> (if n_http_reads tr < length blocks then int (length (blocks ! n_http_reads tr)) else 0)
      | Web (HttpInit u) \<Rightarrow> 1 | Web OtaGetBoot \<Rightarrow> 1 | Web OtaGetRunning \<Rightarrow> 1 | Web OtaGetNextUpdate \<Rightarrow> 2 | _ \<Rightarrow> 0),
     ans_bytes := (\<lambda>tr c. case c of
        Web (HttpRead n) \<Rightarrow> (if n_http_reads tr < length blocks then blocks ! n_http_reads tr else []) | _ \<Rightarrow> [])\<rparr>"

lemma update_env_ok:
  assumes "list_all (\<lambda>b. length b \<le> BUFFSIZE) blocks"
  shows "http_response (length blocks) (update_env blocks)" "ota_partitions (update_env blocks)"
    "ota_cooperates (update_env blocks)"
  using assms by (auto simp: http_response_def update_env_def ota_partitions_def ota_cooperates_def list_all_length)

definition update_state :: ota_state where
  "update_state = ota_state_init\<lparr>ota_file_basename := ''air.bin'' @ replicate 57 nul\<rparr>"

theorem ota_installs_whole_image_witness:
  "\<exists>st' cs. ota_commence 3 update_state (update_env [''AB'', ''C'']) [] = Inr ((ESP_OK, st'), [] @ cs) \<and>
     image_selected (update_env [''AB'', ''C'']) [] ''air.bin'' cs [Sys Restart]"
proof -
  have st: "holds OTA_FILE_BN_LEN ''air.bin'' (ota_file_basename update_state)"
    "length (ota_write_data update_state) = BUFFSIZE + 1"
    by (simp_all add: update_state_def ota_state_init_def holds_def OTA_FILE_BN_LEN_def)
  have "list_all (\<lambda>b. length b \<le> BUFFSIZE) [''AB'', ''C'']" by (simp add: BUFFSIZE_def)
  note ok = update_env_ok [OF this]
  show ?thesis
    using ota_installs_whole_image [OF st(1) _ st(2) ok(2,1), of 3 "[]"] ok(3) by auto
qed

text \<open>The name of the file is copied without a bound.\<close>

lemma ota_set_filename_overruns:
  "length (ota_file_basename st) = OTA_FILE_BN_LEN \<Longrightarrow> OTA_FILE_BN_LEN \<le> length fn \<Longrightarrow>
   ota_set_filename fn st e tr = Inl OutOfBounds"
  by (simp add: ota_set_filename_def cmd_simps strcpy_fits)

lemma ota_set_filename_run:
  assumes "length (ota_file_basename st) = OTA_FILE_BN_LEN" "nul \<notin> set fn" "length fn < OTA_FILE_BN_LEN"
  shows "\<exists>b. ota_set_filename fn st e tr = Inr (st\<lparr>ota_file_basename := b\<rparr>, tr) \<and> holds OTA_FILE_BN_LEN fn b"
  using assms by (auto simp: ota_set_filename_def cmd_simps strcpy_fits holds_def)

end
