(* ===== verification/Mqtt.thy ===== *)
theory Mqtt
  imports HttpServer Ota
begin

text \<open>
  The MQTT client, \<open>main/mqtt_if.c\<close>: connecting whenever there is Internet access, the events of
  the client library, the commands that arrive as messages, and publishing.

  The build configuration (\<open>CONFIG_...\<close>), the size of the library's buffer and the embedded
  certificate are parameters. \<open>DEVICE_MAC\<close> is passed as the C string it holds.
\<close>

subsection \<open>The code\<close>

record mqtt_build =
  CONFIG_MQTT_HOST :: string
  CONFIG_MQTT_USERNAME :: string
  CONFIG_MQTT_PASSWORD :: string
  CONFIG_MQTT_ROOT_TOPIC :: string
  CONFIG_MQTT_DATA_PUB_TOPIC :: string
  CONFIG_MQTT_SUB_ALL_TOPIC :: string
  MQTT_SSL_DEFAULT_PORT :: nat
  MQTT_BUFFER_SIZE_BYTE :: nat
  ca_pem :: string

definition MQTT_DATA_PUB_TOPIC :: "mqtt_build \<Rightarrow> string" where
  "MQTT_DATA_PUB_TOPIC cfg = CONFIG_MQTT_ROOT_TOPIC cfg @ ''/'' @ CONFIG_MQTT_DATA_PUB_TOPIC cfg"

definition MQTT_SUB_ALL_TOPIC :: "mqtt_build \<Rightarrow> string" where
  "MQTT_SUB_ALL_TOPIC cfg = CONFIG_MQTT_ROOT_TOPIC cfg @ ''/'' @ CONFIG_MQTT_SUB_ALL_TOPIC cfg"

definition MQTT_ACK_TOPIC_TMPLT :: "mqtt_build \<Rightarrow> string \<Rightarrow> string" where
  "MQTT_ACK_TOPIC_TMPLT cfg mac = CONFIG_MQTT_ROOT_TOPIC cfg @ ''/ack/'' @ mac"

text \<open>The events of the library (\<open>esp_mqtt_event_id_t\<close>), a message with its topic and its data.\<close>

datatype mqtt_event =
    MQTT_EVENT_CONNECTED
  | MQTT_EVENT_DISCONNECTED
  | MQTT_EVENT_SUBSCRIBED
  | MQTT_EVENT_UNSUBSCRIBED
  | MQTT_EVENT_PUBLISHED
  | MQTT_EVENT_DATA string string
  | MQTT_EVENT_ERROR
  | MQTT_EVENT_OTHER

text \<open>The static variables.\<close>

record mqtt_state =
  client_connected :: bool
  mqtt_client :: int
  task_mqtt :: int

definition mqtt_state_init :: mqtt_state where
  "mqtt_state_init = \<lparr>client_connected = False, mqtt_client = 0, task_mqtt = 0\<rparr>"

definition getMQTT_Config :: "mqtt_build \<Rightarrow> string list \<times> nat" where
  "getMQTT_Config cfg =
     ([CONFIG_MQTT_HOST cfg, CONFIG_MQTT_USERNAME cfg, CONFIG_MQTT_PASSWORD cfg, ca_pem cfg], MQTT_SSL_DEFAULT_PORT cfg)"

definition MQTT_Publish_General :: "string \<Rightarrow> string \<Rightarrow> nat \<Rightarrow> mqtt_state \<Rightarrow> int cmd" where
  "MQTT_Publish_General topic msg qos st =
     (if client_connected st then askI (Web (MqttPublish topic msg qos)) else ret ESP_FAIL)"

definition MQTT_Publish_Data :: "mqtt_build \<Rightarrow> string \<Rightarrow> mqtt_state \<Rightarrow> int cmd" where
  "MQTT_Publish_Data cfg msg st = MQTT_Publish_General (MQTT_DATA_PUB_TOPIC cfg) msg 2 st"

text \<open>The acknowledgement topic, printed into a local buffer of 64 bytes.\<close>

definition ack_topic :: "mqtt_build \<Rightarrow> string \<Rightarrow> string result" where
  "ack_topic cfg mac =
     bindE (sprintf (replicate 64 nul) 0 (MQTT_ACK_TOPIC_TMPLT cfg mac)) (\<lambda>b. Inr (c_str b))"

text \<open>
  A new connection: the subscriptions, and the provider's data published on the acknowledgement
  topic whatever became of the look-up.
\<close>

definition mqtt_on_connected :: "mqtt_build \<Rightarrow> string \<Rightarrow> nat \<Rightarrow> mqtt_state \<Rightarrow> mqtt_state cmd" where
  "mqtt_on_connected cfg mac fuel st =
     (let st = st\<lparr>client_connected := True\<rparr> in
      thenC (doC (Web (MqttSubscribe (MQTT_SUB_ALL_TOPIC cfg) 2)))
      (bindC (liftE (sprintf (replicate 64 nul) 0 (CONFIG_MQTT_ROOT_TOPIC cfg @ ''/'' @ mac))) (\<lambda>tmp.
       thenC (doC (Web (MqttSubscribe (c_str tmp) 2)))
       (bindC (liftE (ack_topic cfg mac)) (\<lambda>tpc.
        bindC (malloc 512) (\<lambda>(p, json_buf).
        if p = 0 then failC NullDeref else
        bindC (liftE (buf_write json_buf 0 [nul])) (\<lambda>json_buf.
        bindC (http_get_isp_info fuel json_buf 512) (\<lambda>(err, json_buf).
        bindC (liftE (strlen json_buf)) (\<lambda>_.
        bindC (MQTT_Publish_General tpc (c_str json_buf) 2 st) (\<lambda>_.
        thenC (doC (Sys (Free p))) (ret st)))))))))))"

text \<open>
  A message: topic and data are copied to local buffers, the data is split at blanks, and the
  first word is the command.
\<close>

definition mqtt_on_data :: "mqtt_build \<Rightarrow> string \<Rightarrow> string \<Rightarrow> string \<Rightarrow> mqtt_state \<Rightarrow> ota_state \<Rightarrow> ota_state cmd" where
  "mqtt_on_data cfg mac topic data st ota =
     bindC (liftE (strncpy (replicate 64 nul) 0 topic (length topic))) (\<lambda>tpc.
     bindC (liftE (strncpy (replicate (MQTT_BUFFER_SIZE_BYTE cfg) nul) 0 data (length data))) (\<lambda>pld.
     bindC (liftE (strlen pld)) (\<lambda>_.
     case strtok (CHR '' '') (c_str pld) of
       None \<Rightarrow> ret ota
     | Some (tok, save) \<Rightarrow>
         if tok = ''ota''
         then (case strtok (CHR '' '') save of
                 None \<Rightarrow> ret ota
               | Some (tok, _) \<Rightarrow>
                   if strstr tok ''.bin'' \<noteq> None
                   then bindC (liftE (ack_topic cfg mac)) (\<lambda>tmp.
                        bindC (MQTT_Publish_General tmp ''ota'' 2 st) (\<lambda>_.
                        bindC (ota_set_filename tok ota) (\<lambda>ota.
                        thenC ota_trigger (ret ota))))
                   else ret ota)
         else if tok = ''ping''
         then bindC (liftE (ack_topic cfg mac)) (\<lambda>tmp.
              bindC (MQTT_Publish_General tmp ''pong'' 2 st) (\<lambda>_. ret ota))
         else ret ota)))"

definition mqtt_event_handler ::
  "mqtt_build \<Rightarrow> string \<Rightarrow> nat \<Rightarrow> mqtt_event \<Rightarrow> mqtt_state \<Rightarrow> ota_state \<Rightarrow> (esp_err \<times> mqtt_state \<times> ota_state) cmd" where
  "mqtt_event_handler cfg mac fuel event st ota =
     (case event of
        MQTT_EVENT_CONNECTED \<Rightarrow> bindC (mqtt_on_connected cfg mac fuel st) (\<lambda>st. ret (ESP_OK, st, ota))
      | MQTT_EVENT_DISCONNECTED \<Rightarrow>
          thenC (doC (Web MqttDestroy))
          (thenC wifi_manager_check_connection_async (ret (ESP_OK, st\<lparr>client_connected := False\<rparr>, ota)))
      | MQTT_EVENT_DATA topic data \<Rightarrow> bindC (mqtt_on_data cfg mac topic data st ota) (\<lambda>ota. ret (ESP_OK, st, ota))
      | MQTT_EVENT_ERROR \<Rightarrow> thenC wifi_manager_check_connection_async (ret (ESP_OK, st, ota))
      | _ \<Rightarrow> ret (ESP_OK, st, ota))"

text \<open>
  Connecting. The library runs its own task from \<open>esp_mqtt_client_start\<close> on, so its events may be
  handled before the last assignment, which is therefore a step of its own.
\<close>

definition mqtt_connect_start :: "mqtt_build \<Rightarrow> mqtt_state \<Rightarrow> mqtt_state cmd" where
  "mqtt_connect_start cfg st =
     (let (texts, port) = getMQTT_Config cfg in
      bindC (askI (Web (MqttInit texts port))) (\<lambda>c.
      thenC (doC (Web MqttStart)) (ret (st\<lparr>mqtt_client := c\<rparr>))))"

definition mqtt_connect_reset :: "mqtt_state \<Rightarrow> mqtt_state" where
  "mqtt_connect_reset st = st\<lparr>client_connected := False\<rparr>"

definition MQTT_Connect :: "mqtt_build \<Rightarrow> mqtt_state \<Rightarrow> mqtt_state cmd" where
  "MQTT_Connect cfg st = bindC (mqtt_connect_start cfg st) (\<lambda>st. ret (mqtt_connect_reset st))"

text \<open>The task: its start, and one turn of its loop.\<close>

definition mqtt_task_start :: "mqtt_build \<Rightarrow> mqtt_state \<Rightarrow> mqtt_state cmd" where
  "mqtt_task_start cfg st = bindC wifi_manager_wait_internet_access (\<lambda>_. MQTT_Connect cfg st)"

definition mqtt_task_turn :: "mqtt_build \<Rightarrow> mqtt_state \<Rightarrow> mqtt_state cmd" where
  "mqtt_task_turn cfg st =
     bindC wifi_manager_wait_disconnect (\<lambda>_.
     bindC wifi_manager_wait_internet_access (\<lambda>_. MQTT_Connect cfg st))"

text \<open>The handle is passed by value, so the new task's is not stored.\<close>

definition MQTT_Initialize :: "mqtt_state \<Rightarrow> unit cmd" where
  "MQTT_Initialize st =
     thenC (whenC (task_mqtt st \<noteq> 0) (doC (Rtos TaskDelete))) (doC (Rtos (TaskCreate ''task_mqtt'')))"

subsection \<open>Commands\<close>

text \<open>What a message means: its words, and the command they make.\<close>

fun words :: "string \<Rightarrow> string \<Rightarrow> string list" where
  "words w [] = (if w = [] then [] else [w])"
| "words w (c # cs) =
     (if c = CHR '' '' then (if w = [] then words [] cs else w # words [] cs) else words (w @ [c]) cs)"

datatype mqtt_command = Update string | Ping | Ignore

definition mqtt_command_of :: "string \<Rightarrow> mqtt_command" where
  "mqtt_command_of msg =
     (case words [] msg of
        [] \<Rightarrow> Ignore
      | c # args \<Rightarrow>
          if c = ''ota'' then (case args of f # _ \<Rightarrow> if sublist ''.bin'' f then Update f else Ignore | [] \<Rightarrow> Ignore)
          else if c = ''ping'' then Ping else Ignore)"

lemma words_word:
  "w \<noteq> [] \<Longrightarrow> words w s = (w @ takeWhile (\<lambda>c. c \<noteq> CHR '' '') s) # words [] (tl (dropWhile (\<lambda>c. c \<noteq> CHR '' '') s))"
proof (induction s arbitrary: w)
  case (Cons c s)
  show ?case
  proof (cases "c = CHR '' ''")
    case False
    then show ?thesis using Cons.IH [of "w @ [c]"] by simp
  qed (use Cons.prems in simp)
qed simp

lemma words_blanks: "words [] s = words [] (dropWhile (\<lambda>c. c = CHR '' '') s)"
  by (induction s) auto

text \<open>The tokenizer of the C library finds the words one by one.\<close>

lemma strtok_words:
  "words [] s = (case strtok (CHR '' '') s of None \<Rightarrow> [] | Some (t, r) \<Rightarrow> t # words [] r)"
proof (cases "dropWhile (\<lambda>c. c = CHR '' '') s")
  case Nil
  have "words [] s = words [] []" by (metis Nil words_blanks)
  moreover have "strtok (CHR '' '') s = None" unfolding strtok_def Nil by simp
  ultimately show ?thesis by simp
next
  case (Cons c cs)
  then have "c \<noteq> CHR '' ''" by (simp add: dropWhile_eq_Cons_conv)
  then show ?thesis
    using Cons words_blanks [of s] words_word [of "[c]" cs] by (simp add: strtok_def)
qed

lemma strtok_clean: "strtok d s = Some (t, r) \<Longrightarrow> nul \<notin> set s \<Longrightarrow> nul \<notin> set t"
proof -
  assume tok: "strtok d s = Some (t, r)" and "nul \<notin> set s"
  then obtain c cs where cs: "dropWhile (\<lambda>c. c = d) s = c # cs"
    by (auto simp: strtok_def split: list.splits)
  then have "set (c # cs) \<subseteq> set s" by (metis set_dropWhileD subsetI)
  then show "nul \<notin> set t" using tok cs \<open>nul \<notin> set s\<close> by (auto simp: strtok_def dest!: set_takeWhileD)
qed

lemma mqtt_command_strtok:
  "mqtt_command_of msg = (case strtok (CHR '' '') msg of None \<Rightarrow> Ignore
     | Some (c, r) \<Rightarrow> if c = ''ota'' then (case strtok (CHR '' '') r of None \<Rightarrow> Ignore
           | Some (f, _) \<Rightarrow> if strstr f ''.bin'' \<noteq> None then Update f else Ignore)
         else if c = ''ping'' then Ping else Ignore)"
proof (cases "strtok (CHR '' '') msg")
  case None
  then show ?thesis using strtok_words [of msg] by (simp add: mqtt_command_of_def)
next
  case (Some a)
  obtain c r where a: "a = (c, r)" by (cases a)
  have bin: "(\<exists>y. strstr f ''.bin'' = Some y) \<longleftrightarrow> sublist ''.bin'' f" for f
    using strstr_None_iff [of f "''.bin''"] by (cases "strstr f ''.bin''") auto
  have "words [] msg = c # words [] r" using strtok_words [of msg] Some a by simp
  then show ?thesis
    using strtok_words [of r] Some a
    by (auto simp: mqtt_command_of_def bin split: option.splits)
qed

text \<open>Short texts fit the local buffers.\<close>

lemma strncpy_all:
  assumes "length s \<le> n"
  shows "strncpy (replicate n nul) 0 s (length s) = Inr (c_str s @ replicate (n - length (c_str s)) nul)"
proof -
  have "length (c_str s) \<le> length s" by (simp add: c_str_def length_takeWhile_le)
  with assms show ?thesis by (auto simp: strncpy_def Let_def buf_write_def replicate_add [symmetric])
qed

lemma strncpy_over: "n < length s \<Longrightarrow> strncpy (replicate n nul) 0 s (length s) = Inl OutOfBounds"
proof -
  assume n: "n < length s"
  have "length (c_str s) \<le> length s" by (simp add: c_str_def length_takeWhile_le)
  with n show ?thesis by (auto simp: strncpy_def Let_def buf_write_def)
qed

lemma c_str_padded: "nul \<notin> set s \<Longrightarrow> c_str (s @ replicate n nul) = s"
  by (cases n) (simp_all add: c_str_def takeWhile_no takeWhile_no_end)

lemma c_str_id: "nul \<notin> set s \<Longrightarrow> c_str s = s"
  using c_str_padded [of s 0] by simp

lemma ack_topic_fits:
  assumes "nul \<notin> set (CONFIG_MQTT_ROOT_TOPIC cfg)" "nul \<notin> set mac" "length (CONFIG_MQTT_ROOT_TOPIC cfg) + length mac + 5 < 64"
  shows "ack_topic cfg mac = Inr (MQTT_ACK_TOPIC_TMPLT cfg mac)"
proof -
  let ?t = "MQTT_ACK_TOPIC_TMPLT cfg mac"
  have h: "holds 64 [] (replicate 64 nul)" by (simp add: holds_def)
  have t: "nul \<notin> set ?t" "length ([] :: string) + length ?t < 64" using assms by (simp_all add: MQTT_ACK_TOPIC_TMPLT_def)
  show ?thesis
    using sprintf_append [OF h, of ?t] t(2) holds_c_str [OF app_to_holds [OF h t]] by (simp add: ack_topic_def)
qed

lemma mqtt_message_run:
  assumes root: "nul \<notin> set (CONFIG_MQTT_ROOT_TOPIC cfg)" "nul \<notin> set mac"
      "length (CONFIG_MQTT_ROOT_TOPIC cfg) + length mac + 5 < 64"
    and data: "nul \<notin> set data" "length data < MQTT_BUFFER_SIZE_BYTE cfg"
    and ota: "length (ota_file_basename ota) = OTA_FILE_BN_LEN"
  shows "mqtt_event_handler cfg mac fuel (MQTT_EVENT_DATA topic data) st ota e tr =
    (let reply = \<lambda>m. if client_connected st then [Web (MqttPublish (MQTT_ACK_TOPIC_TMPLT cfg mac) m 2)] else [] in
     if 64 < length topic then Inl OutOfBounds else
     case mqtt_command_of data of
       Ignore \<Rightarrow> Inr ((ESP_OK, st, ota), tr)
     | Ping \<Rightarrow> Inr ((ESP_OK, st, ota), tr @ reply ''pong'')
     | Update f \<Rightarrow>
         if length f < OTA_FILE_BN_LEN
         then Inr ((ESP_OK, st, ota\<lparr>ota_file_basename := f @ nul # drop (Suc (length f)) (ota_file_basename ota)\<rparr>),
                   tr @ reply ''ota'' @ [Rtos (EventGroupSetBits OtaGroup OTA_TRIGGER_OTA_BIT)])
         else Inl OutOfBounds)"
proof (cases "64 < length topic")
  case True
  then show ?thesis by (simp add: mqtt_event_handler_def mqtt_on_data_def cmd_simps strncpy_over)
next
  case False
  then have tpc: "strncpy (replicate 64 nul) 0 topic (length topic) = Inr (c_str topic @ replicate (64 - length (c_str topic)) nul)"
    by (intro strncpy_all) simp
  define pad where "pad = replicate (MQTT_BUFFER_SIZE_BYTE cfg - length data) nul"
  have "pad \<noteq> []" using data(2) by (simp add: pad_def)
  then have pld: "strncpy (replicate (MQTT_BUFFER_SIZE_BYTE cfg) nul) 0 data (length data) = Inr (data @ pad)"
      "strlen (data @ pad) = Inr (length data)" "c_str (data @ pad) = data"
    using data strncpy_all [of data] by (auto simp: pad_def c_str_id c_str_padded strlen_def)
  note ack = ack_topic_fits [OF root]
  have set_fn: "ota_set_filename f ota e tr = (if length f < OTA_FILE_BN_LEN
      then Inr (ota\<lparr>ota_file_basename := f @ nul # drop (Suc (length f)) (ota_file_basename ota)\<rparr>, tr) else Inl OutOfBounds)" for f tr
    using ota by (simp add: ota_set_filename_def cmd_simps strcpy_fits)
  show ?thesis
    unfolding mqtt_command_strtok using False tpc pld
    by (simp add: mqtt_event_handler_def mqtt_on_data_def cmd_simps ack set_fn MQTT_Publish_General_def ota_trigger_def
        split: option.splits)
qed

text \<open>
  C15: a message is taken as the command its words make, whatever the blanks between them. An
  update command answers, stores the name of the file and triggers the update task; a ping
  answers; everything else is ignored. Answers are published on the device's acknowledgement
  topic, and only while connected. A topic of more than 64 bytes and a file name of 64 bytes or
  more overrun the buffers they are copied to.
\<close>

theorem mqtt_message_dispatch:
  assumes root: "nul \<notin> set (CONFIG_MQTT_ROOT_TOPIC cfg)" "nul \<notin> set mac"
      "length (CONFIG_MQTT_ROOT_TOPIC cfg) + length mac + 5 < 64"
    and data: "nul \<notin> set data" "length data < MQTT_BUFFER_SIZE_BYTE cfg"
    and ota: "length (ota_file_basename ota) = OTA_FILE_BN_LEN"
  shows "mqtt_event_handler cfg mac fuel (MQTT_EVENT_DATA topic data) st ota e tr =
    (let reply = \<lambda>m. if client_connected st then [Web (MqttPublish (MQTT_ACK_TOPIC_TMPLT cfg mac) m 2)] else [] in
     if 64 < length topic then Inl OutOfBounds else
     case mqtt_command_of data of
       Ignore \<Rightarrow> Inr ((ESP_OK, st, ota), tr)
     | Ping \<Rightarrow> Inr ((ESP_OK, st, ota), tr @ reply ''pong'')
     | Update f \<Rightarrow>
         if length f < OTA_FILE_BN_LEN
         then Inr ((ESP_OK, st, ota\<lparr>ota_file_basename := f @ nul # drop (Suc (length f)) (ota_file_basename ota)\<rparr>),
                   tr @ reply ''ota'' @ [Rtos (EventGroupSetBits OtaGroup OTA_TRIGGER_OTA_BIT)])
         else Inl OutOfBounds)"
  using assms by (rule mqtt_message_run)

definition mqtt_demo_build :: mqtt_build where
  "mqtt_demo_build = \<lparr>CONFIG_MQTT_HOST = ''broker'', CONFIG_MQTT_USERNAME = ''sensor'', CONFIG_MQTT_PASSWORD = ''pw'',
     CONFIG_MQTT_ROOT_TOPIC = ''airu'', CONFIG_MQTT_DATA_PUB_TOPIC = ''influx'', CONFIG_MQTT_SUB_ALL_TOPIC = ''all/v2'',
     MQTT_SSL_DEFAULT_PORT = 8883, MQTT_BUFFER_SIZE_BYTE = 1024, ca_pem = []\<rparr>"

lemma mqtt_demo_build_simps [simp]:
  "CONFIG_MQTT_ROOT_TOPIC mqtt_demo_build = ''airu''" "MQTT_BUFFER_SIZE_BYTE mqtt_demo_build = 1024"
  by (simp_all add: mqtt_demo_build_def)

theorem mqtt_message_dispatch_witness:
  "mqtt_event_handler mqtt_demo_build ''AABBCCDDEEFF'' 1 (MQTT_EVENT_DATA ''airu/all/v2'' '' ota  air.bin now'')
     (mqtt_state_init\<lparr>client_connected := True\<rparr>) ota_state_init silent_env [] =
   Inr ((ESP_OK, mqtt_state_init\<lparr>client_connected := True\<rparr>,
         ota_state_init\<lparr>ota_file_basename := ''air.bin'' @ nul # replicate 56 nul\<rparr>),
     [Web (MqttPublish ''airu/ack/AABBCCDDEEFF'' ''ota'' 2), Rtos (EventGroupSetBits OtaGroup OTA_TRIGGER_OTA_BIT)])"
proof -
  have cmd: "mqtt_command_of '' ota  air.bin now'' = Update ''air.bin''" by (simp add: mqtt_command_of_def sublist_Cons_right)
  have drop: "drop (Suc (length ''air.bin'')) (ota_file_basename ota_state_init) = replicate 56 nul"
    by (simp add: ota_state_init_def OTA_FILE_BN_LEN_def)
  show ?thesis
    using mqtt_message_dispatch [of mqtt_demo_build "''AABBCCDDEEFF''" "'' ota  air.bin now''" ota_state_init 1
        "''airu/all/v2''" "mqtt_state_init\<lparr>client_connected := True\<rparr>" silent_env "[]"]
    unfolding cmd drop [symmetric]
    by (simp add: ota_state_init_def OTA_FILE_BN_LEN_def MQTT_ACK_TOPIC_TMPLT_def)
qed

subsection \<open>From the command to the download\<close>

lemma set_words: "set (concat (words w s)) \<subseteq> set w \<union> set s"
  by (induction w s rule: words.induct) auto

lemma command_file:
  assumes "mqtt_command_of msg = Update f"
  shows "set f \<subseteq> set msg" "f \<noteq> []"
proof -
  from assms obtain c r where w: "words [] msg = c # f # r" and bin: "sublist ''.bin'' f"
    by (auto simp: mqtt_command_of_def split: list.splits if_splits)
  from w have "set f \<subseteq> set (concat (words [] msg))" by auto
  then show "set f \<subseteq> set msg" using set_words [of "[]" msg] by auto
  from bin show "f \<noteq> []" by auto
qed

text \<open>
  The update task finds the name that the command brought: the next turn asks the server for
  exactly that file.
\<close>

lemma command_requests_file:
  assumes "mqtt_command_of msg = Update f" "nul \<notin> set msg" "length f < OTA_FILE_BN_LEN"
    and ota: "length (ota_file_basename ota) = OTA_FILE_BN_LEN" and parts: "ota_partitions e"
  shows "\<exists>ota' tr1. ota_set_filename f ota e tr = Inr (ota', tr1) \<and> holds OTA_FILE_BN_LEN f (ota_file_basename ota') \<and>
    (ans_int e (tr1 @ [Web OtaGetBoot, Web OtaGetRunning]) (Web (HttpInit (OTA_URL @ f))) = 0 \<longrightarrow>
       ota_commence fuel ota' e tr1 = Inr ((ESP_FAIL, ota'), tr1 @ [Web OtaGetBoot, Web OtaGetRunning, Web (HttpInit (OTA_URL @ f))]))"
proof -
  have "nul \<notin> set f" using command_file(1) [OF assms(1)] assms(2) by blast
  with ota assms(3) obtain b where b: "ota_set_filename f ota e tr = Inr (ota\<lparr>ota_file_basename := b\<rparr>, tr)"
      "holds OTA_FILE_BN_LEN f b"
    using ota_set_filename_run by blast
  then show ?thesis
    using ota_commence_run [of f "ota\<lparr>ota_file_basename := b\<rparr>" e fuel tr] command_file(2) [OF assms(1)] parts
    by (simp add: ota_prologue_def numeral_2_eq_2 numeral_3_eq_3)
qed

subsection \<open>Connecting\<close>

text \<open>
  When the broker answers before \<open>MQTT_Connect\<close> has finished, its last assignment undoes what the
  event established: the device is connected, and publishes nothing.
\<close>

lemma connect_race:
  assumes "mqtt_connect_start cfg st e tr = Inr (st1, tr1)"
    and "mqtt_on_connected cfg mac fuel st1 e tr1 = Inr (st2, tr2)"
  shows "client_connected st2" "MQTT_Publish_Data cfg msg (mqtt_connect_reset st2) e tr2 = Inr (ESP_FAIL, tr2)"
proof -
  show "client_connected st2"
    using assms(2) by (auto simp: mqtt_on_connected_def cmd_simps bindE_eq_Inr split: if_splits)
  show "MQTT_Publish_Data cfg msg (mqtt_connect_reset st2) e tr2 = Inr (ESP_FAIL, tr2)"
    by (simp add: MQTT_Publish_Data_def MQTT_Publish_General_def mqtt_connect_reset_def cmd_simps)
qed

end
