(* ===== verification/HttpClient.thy ===== *)
theory HttpClient
  imports Trace
begin

text \<open>
  The HTTP and FTP client, \<open>main/http_client_if.c\<close>: a test request, and the beginning of an
  upload over FTP, which logs in and closes the connection. The
  contents of the receive buffer before the first answer are a parameter.
\<close>

subsection \<open>The code\<close>

definition HOST_IP_ADDR :: string where "HOST_IP_ADDR = ''155.98.12.99''"
definition FTP_PORT :: nat where "FTP_PORT = 21"

text \<open>The handler of the client's events, which differs from the web server's in what it logs.\<close>

fun http_client_event_handler :: "http_client_event \<Rightarrow> esp_err cmd" where
  "http_client_event_handler HTTP_EVENT_ERROR = ret ESP_OK"
| "http_client_event_handler HTTP_EVENT_ON_CONNECTED = ret ESP_OK"
| "http_client_event_handler HTTP_EVENT_HEADER_SENT = ret ESP_OK"
| "http_client_event_handler (HTTP_EVENT_ON_HEADER header_key header_value) = ret ESP_OK"
| "http_client_event_handler (HTTP_EVENT_ON_DATA data) =
     bindC (askI (Web HttpIsChunkedResponse)) (\<lambda>_. ret ESP_OK)"
| "http_client_event_handler HTTP_EVENT_ON_FINISH = ret ESP_OK"
| "http_client_event_handler HTTP_EVENT_DISCONNECTED = ret ESP_OK"

text \<open>The request's method and buffer size are part of the configuration the client is created with.\<close>

definition http_post_multipart :: "unit cmd" where
  "http_post_multipart =
     seqC [doC (Web (HttpInit ''http://httpbin.org/get'')), doC (Web (HttpSetPostField ''field1=value1&field2=value2'')),
           doC (Web HttpPerform), doC (Web HttpCleanup)]"

definition ftp_send_cmd :: "int \<Rightarrow> string \<Rightarrow> esp_err cmd" where
  "ftp_send_cmd sock c = askI (Net (SockSend sock c))"

fun efail_loop :: "nat \<Rightarrow> int \<Rightarrow> unit cmd" where
  "efail_loop 0 sock = failC NoFuel"
| "efail_loop (Suc fuel) sock =
     bindC (askIS (Net (SockRecv sock 1 False))) (\<lambda>(len, _). if len > 0 then efail_loop fuel sock else ret ())"

definition efail :: "nat \<Rightarrow> int \<Rightarrow> unit cmd" where
  "efail fuel sock =
     bindC (askI (Net (SockSend sock ''QUIT''))) (\<lambda>err.
     if err < 0 then ret () else thenC (efail_loop fuel sock) (doC (Net (SockClose sock))))"

text \<open>\<open>sizeof(rx_buffer) - 1\<close> of a pointer: three bytes are received at a time.\<close>

definition RCV_LEN :: nat where "RCV_LEN = 4 - 1"

fun rcv_loop :: "nat \<Rightarrow> int \<Rightarrow> string \<Rightarrow> string cmd" where
  "rcv_loop 0 sock rx_buffer = failC NoFuel"
| "rcv_loop (Suc fuel) sock rx_buffer =
     bindC (askIS (Net (SockRecv sock RCV_LEN False))) (\<lambda>(len, bs).
     bindC (liftE (buf_write rx_buffer 0 (take RCV_LEN bs))) (\<lambda>rx_buffer.
     if len > 0 then rcv_loop fuel sock rx_buffer else ret rx_buffer))"

definition rcv :: "nat \<Rightarrow> int \<Rightarrow> string \<Rightarrow> (esp_err \<times> string) cmd" where
  "rcv fuel sock rx_buffer =
     bindC (askIS (Net (SockRecv sock RCV_LEN True))) (\<lambda>(len, bs).
     bindC (liftE (buf_write rx_buffer 0 (take RCV_LEN bs))) (\<lambda>rx_buffer.
     if rx_buffer = [] then failC OutOfBounds else
     let respCode = hd rx_buffer in
     bindC (if len > 0 then rcv_loop fuel sock rx_buffer else ret rx_buffer) (\<lambda>rx_buffer.
     if (of_char (CHR ''4'') :: nat) \<le> of_char respCode
     then thenC (efail fuel sock) (ret (ESP_FAIL, rx_buffer))
     else ret (0, rx_buffer))))"

text \<open>A failed answer is logged, and the next command is sent all the same.\<close>

definition ftp_put :: "nat \<Rightarrow> string \<Rightarrow> esp_err cmd" where
  "ftp_put fuel rx_buffer =
     bindC (askI (Net Socket)) (\<lambda>sock.
     if sock < 0 then ret ESP_FAIL else
     bindC (askI (Net (ConnectTo sock HOST_IP_ADDR FTP_PORT))) (\<lambda>err.
     if err \<noteq> 0 then ret ESP_FAIL else
     bindC (ftp_send_cmd sock ''USER becnel'') (\<lambda>_.
     bindC (rcv fuel sock rx_buffer) (\<lambda>(_, rx_buffer).
     bindC (ftp_send_cmd sock ''PASS nitroT1'') (\<lambda>_.
     bindC (rcv fuel sock rx_buffer) (\<lambda>(_, rx_buffer).
     thenC (doC (Net (SockClose sock))) (ret ESP_OK)))))))"

subsection \<open>Sockets\<close>

text \<open>The balance of open sockets; the code has one at a time.\<close>

fun socket_call :: "call \<Rightarrow> bool" where
  "socket_call (Net Socket) \<longleftrightarrow> True"
| "socket_call (Net (SockClose s)) \<longleftrightarrow> True"
| "socket_call _ \<longleftrightarrow> False"

definition socket_delta :: "env \<Rightarrow> call list \<Rightarrow> call \<Rightarrow> int" where
  "socket_delta e tr c =
     (case c of Net Socket \<Rightarrow> (if 0 \<le> ans_int e tr c then 1 else 0) | Net (SockClose s) \<Rightarrow> - 1 | _ \<Rightarrow> 0)"

interpretation so: resource socket_delta socket_call
proof
  fix c e tr
  assume "\<not> socket_call c"
  then show "socket_delta e tr c = 0"
    by (cases c rule: socket_call.cases) (simp_all add: socket_delta_def)
qed

text \<open>Closing after a refused command gives the socket back; the caller closes it once more.\<close>

lemma efail_shifts:
  assumes "efail fuel sock e tr = Inr (u, tr')"
  shows "\<exists>cs. tr' = tr @ cs \<and>
    balance socket_delta e tr cs = (if ans_int e tr (Net (SockSend sock ''QUIT'')) < 0 then 0 else - 1)"
proof -
  have loop: "emits (\<lambda>c. \<not> socket_call c) (efail_loop fuel sock)"
    by (induction fuel) (auto intro!: emits_intros)
  show ?thesis
  proof (cases "ans_int e tr (Net (SockSend sock ''QUIT'')) < 0")
    case True
    with assms show ?thesis
      by (intro exI [of _ "[Net (SockSend sock ''QUIT'')]"]) (simp add: efail_def cmd_simps socket_delta_def)
  next
    case False
    with assms obtain tr1 where 1: "efail_loop fuel sock e (tr @ [Net (SockSend sock ''QUIT'')]) = Inr ((), tr1)"
        and tr': "tr' = tr1 @ [Net (SockClose sock)]"
      by (auto simp: efail_def cmd_simps bindE_eq_Inr)
    obtain cs where cs: "tr1 = (tr @ [Net (SockSend sock ''QUIT'')]) @ cs" "list_all (\<lambda>c. \<not> socket_call c) cs"
      using loop 1 by (rule emitsE)
    have "balance socket_delta e tr (Net (SockSend sock ''QUIT'') # cs @ [Net (SockClose sock)]) = - 1"
      using so.irrelevant_calls(1) [OF cs(2)] by (simp add: balance_append socket_delta_def)
    with tr' cs(1) False show ?thesis by (intro exI [of _ "Net (SockSend sock ''QUIT'') # cs @ [Net (SockClose sock)]"]) simp
  qed
qed

text \<open>A connection that fails leaves the socket open.\<close>

lemma ftp_put_connect_leaks:
  assumes "0 \<le> ans_int e tr (Net Socket)"
    and "ans_int e (tr @ [Net Socket]) (Net (ConnectTo (ans_int e tr (Net Socket)) HOST_IP_ADDR FTP_PORT)) \<noteq> 0"
  shows "\<exists>cs. ftp_put fuel rx e tr = Inr (ESP_FAIL, tr @ cs) \<and> balance socket_delta e tr cs = 1"
  using assms by (auto simp: ftp_put_def cmd_simps socket_delta_def)

text \<open>
  Once connected, the log-in is reported as successful whatever the server answers: the password
  is sent even after the user name was refused and the socket closed.
\<close>

lemma ftp_put_ignores_refusal:
  assumes "0 \<le> ans_int e tr (Net Socket)"
    and "ans_int e (tr @ [Net Socket]) (Net (ConnectTo (ans_int e tr (Net Socket)) HOST_IP_ADDR FTP_PORT)) = 0"
    and "ftp_put fuel rx e tr = Inr (r, tr')"
  shows "r = ESP_OK" "\<exists>ds. tr' = ds @ [Net (SockClose (ans_int e tr (Net Socket)))]"
proof -
  show "r = ESP_OK" using assms by (auto simp: ftp_put_def ftp_send_cmd_def cmd_simps bindE_eq_Inr split: prod.splits)
  show "\<exists>ds. tr' = ds @ [Net (SockClose (ans_int e tr (Net Socket)))]"
    using assms by (auto simp: ftp_put_def ftp_send_cmd_def cmd_simps bindE_eq_Inr split: prod.splits)
qed

end
