(* ===== verification/GpsCommands.thy ===== *)
theory GpsCommands
  imports Gps
begin

text \<open>
  The commands \<open>main/include/gps_if.h\<close> offers for the receiver, in the groups of the header, and what
  they have to satisfy for the receiver to accept them: each is a framed sentence whose two
  hexadecimal digits are the exclusive or of the characters between dollar sign and asterisk.
\<close>

subsection \<open>The code\<close>

text \<open>The name of each macro, and its text.\<close>

definition pmtk_rate_commands :: "(string \<times> string) list" where
  "pmtk_rate_commands =
     [(''PMTK_SET_NMEA_UPDATE_100_MILLIHERTZ'', ''$PMTK220,10000*2F'' @ crlf),
      (''PMTK_SET_NMEA_UPDATE_200_MILLIHERTZ'', ''$PMTK220,5000*1B'' @ crlf),
      (''PMTK_SET_NMEA_UPDATE_1HZ'', ''$PMTK220,1000*1F'' @ crlf),
      (''PMTK_SET_NMEA_UPDATE_2HZ'', ''$PMTK220,500*2B'' @ crlf),
      (''PMTK_SET_NMEA_UPDATE_5HZ'', ''$PMTK220,200*2C'' @ crlf),
      (''PMTK_SET_NMEA_UPDATE_10HZ'', ''$PMTK220,100*2F'' @ crlf),
      (''PMTK_API_SET_FIX_CTL_100_MILLIHERTZ'', ''$PMTK300,10000,0,0,0,0*2C'' @ crlf),
      (''PMTK_API_SET_FIX_CTL_200_MILLIHERTZ'', ''$PMTK300,5000,0,0,0,0*18'' @ crlf),
      (''PMTK_API_SET_FIX_CTL_1HZ'', ''$PMTK300,1000,0,0,0,0*1C'' @ crlf),
      (''PMTK_API_SET_FIX_CTL_5HZ'', ''$PMTK300,200,0,0,0,0*2F'' @ crlf)]"

definition pmtk_output_commands :: "(string \<times> string) list" where
  "pmtk_output_commands =
     [(''PMTK_SET_BAUD_57600'', ''$PMTK251,57600*2C'' @ crlf),
      (''PMTK_SET_BAUD_9600'', ''$PMTK251,9600*17'' @ crlf),
      (''PMTK_SET_NMEA_OUTPUT_RMCONLY'', ''$PMTK314,0,1,0,0,0,0,0,0,0,0,0,0,0,0,0,0,0,0,0*29'' @ crlf),
      (''PMTK_SET_NMEA_OUTPUT_RMCGGA'', ''$PMTK314,0,1,0,1,0,0,0,0,0,0,0,0,0,0,0,0,0,0,0*28'' @ crlf),
      (''PMTK_SET_NMEA_OUTPUT_ALLDATA'', ''$PMTK314,1,1,1,1,1,1,0,0,0,0,0,0,0,0,0,0,0,0,0*28'' @ crlf),
      (''PMTK_SET_NMEA_OUTPUT_OFF'', ''$PMTK314,0,0,0,0,0,0,0,0,0,0,0,0,0,0,0,0,0,0,0*28'' @ crlf)]"

definition pmtk_logger_commands :: "(string \<times> string) list" where
  "pmtk_logger_commands =
     [(''PMTK_LOCUS_STARTLOG'', ''$PMTK185,0*22'' @ crlf),
      (''PMTK_LOCUS_STOPLOG'', ''$PMTK185,1*23'' @ crlf),
      (''PMTK_LOCUS_STARTSTOPACK'', ''$PMTK001,185,3*3C'' @ crlf),
      (''PMTK_LOCUS_QUERY_STATUS'', ''$PMTK183*38'' @ crlf),
      (''PMTK_LOCUS_ERASE_FLASH'', ''$PMTK184,1*22'' @ crlf)]"

definition pmtk_power_commands :: "(string \<times> string) list" where
  "pmtk_power_commands =
     [(''PMTK_ENABLE_SBAS'', ''$PMTK313,1*2E'' @ crlf),
      (''PMTK_ENABLE_WAAS'', ''$PMTK301,2*2E'' @ crlf),
      (''PMTK_PERIODIC'', ''$PMTK225,2,3000,12000,18000,72000*15'' @ crlf),
      (''PMTK_STANDBY'', ''$PMTK161,0*28'' @ crlf),
      (''PMTK_STANDBY_SUCCESS'', ''$PMTK001,161,3*36'' @ crlf),
      (''PMTK_AWAKE'', ''$PMTK010,002*2D'' @ crlf),
      (''PMTK_Q_RELEASE'', ''$PMTK605*31'' @ crlf),
      (''PGCMD_ANTENNA'', ''$PGCMD,33,1*6C'' @ crlf),
      (''PGCMD_NOANTENNA'', ''$PGCMD,33,0*6D'' @ crlf)]"

definition pmtk_commands :: "string list" where
  "pmtk_commands = map snd (pmtk_rate_commands @ pmtk_output_commands @ pmtk_logger_commands @ pmtk_power_commands)"

subsection \<open>Frames\<close>

definition nmea_frame :: "string \<Rightarrow> string" where
  "nmea_frame body = CHR ''$'' # body @ CHR ''*'' # fmt_0X 2 (unat (nmea_xor 0 body)) @ crlf"

definition nmea_framed :: "string \<Rightarrow> bool" where
  "nmea_framed s \<longleftrightarrow> s = nmea_frame (takeWhile (\<lambda>c. c \<noteq> CHR ''*'') (tl s))"

lemma pmtk_commands_framed: "list_all nmea_framed pmtk_commands"
  by code_simp

text \<open>
  Sending a command puts exactly such a frame on the serial line.
\<close>

lemma GPS_Tx_framed:
  assumes "pmtk \<in> set pmtk_commands"
  shows "\<exists>body. GPS_Tx pmtk e tr = Inr ((), tr @ [Uart (UartWriteBytes GPS_UART_NUM (nmea_frame body))])"
  using assms pmtk_commands_framed unfolding list_all_iff nmea_framed_def GPS_Tx_def
  by (auto simp: cmd_run)

end
