(* ===== verification/GpsSentences.thy ===== *)
theory GpsSentences
  imports Gps
begin

text \<open>
  Which sentences the task of the GPS receiver can take: for these an event of the serial line is
  handled to its end, without an access outside a buffer. A sentence that is cut off is none of
  them: the parser goes on from the null pointer that a missing comma leaves.
\<close>

subsection \<open>What the task can take\<close>

text \<open>
  The sentences a receiver sends, with a fix and without, and any others short enough for the
  counter of the check.
\<close>

inductive gps_sentence :: "string \<Rightarrow> bool" where
  located: "gga_wf g \<Longrightarrow> gps_sentence (gga_text g)"
| unlocated: "gga_wf g \<Longrightarrow> gps_sentence (gga_no_fix g)"
| dated: "rmc_wf r \<Longrightarrow> gps_sentence (rmc_text r)"
| dated_unlocated: "rmc_wf r \<Longrightarrow> gps_sentence (rmc_no_fix r)"
| unrelated: "nul \<notin> set s \<Longrightarrow> 4 \<le> length s \<Longrightarrow> length s \<le> 259 \<Longrightarrow>
    strstr s ''$GPGGA'' = None \<Longrightarrow> strstr s ''$GPRMC'' = None \<Longrightarrow> gps_sentence s"

lemma checksum_ends:
  assumes "nul \<notin> set s" "4 \<le> length s" "length s \<le> 259" "256 \<le> fuel"
  shows "\<exists>ok. checksum_ok fuel (s @ nul # pad) = Inr ok"
proof -
  have len: "strlen (s @ nul # pad) = Inr (length s)" using assms(1) c_str_sentence by (simp add: strlen_def)
  have "\<exists>r. checksum_loop fuel 2 (length s - 4) (s @ nul # pad) acc = Inr r" for acc
  proof (cases "2 \<le> length s - 4")
    case True
    then show ?thesis using checksum_loop_ends [of "length s - 4" "s @ nul # pad" 2 fuel acc] assms(3,4) by simp
  next
    case False
    then show ?thesis using assms(4) by (cases fuel) simp_all
  qed
  then obtain r where "checksum_loop fuel 2 (length s - 4) (s @ nul # pad) acc = Inr (r acc)" for acc by metis
  then show ?thesis using assms(2) by (auto simp: checksum_ok_def len Let_def)
qed

lemma parse_completes:
  assumes "gps_sentence s" "256 \<le> fuel"
  shows "\<exists>r cs. parse fuel (s @ nul # pad) st e tr = Inr (r, tr @ cs)"
  using assms(1)
proof cases
  case (located g)
  then show ?thesis using gga_read [of g fuel pad st e tr] by force
next
  case (unlocated g)
  then show ?thesis using gga_read_no_fix [of g fuel pad st e tr] by force
next
  case (dated r)
  then show ?thesis using rmc_read [of r fuel pad st e tr] by (simp add: rmc_result_def)
next
  case (dated_unlocated r)
  then show ?thesis using rmc_read_no_fix [of r fuel pad st e tr] by (simp add: rmc_result_def)
next
  case unrelated
  then obtain ok where "checksum_ok fuel (s @ nul # pad) = Inr ok" using checksum_ends assms(2) by blast
  then show ?thesis using unrelated by (simp add: parse_def cmd_simps c_str_sentence)
qed

text \<open>
  The line that is read when a line end was detected. It is one of these and fits the buffer with
  its terminator, and the driver reports the number of bytes it copied.
\<close>

definition line_read :: "env \<Rightarrow> call list \<Rightarrow> (int \<times> string) option" where
  "line_read e tr =
     (let buffered = Uart (UartGetBufferedLen GPS_UART_NUM); pop = Uart (UartPatternPopPos GPS_UART_NUM);
          pos = ans_int e (tr @ [buffered]) pop; line = Uart (UartReadBytes GPS_UART_NUM (nat (pos + 1)))
      in if pos = - 1 then None
         else Some (ans_int e (tr @ [buffered, pop]) line, ans_bytes e (tr @ [buffered, pop]) line))"

definition sentence_arrives :: "env \<Rightarrow> call list \<Rightarrow> bool" where
  "sentence_arrives e tr \<longleftrightarrow>
     (case line_read e tr of
        None \<Rightarrow> True
      | Some (n, s) \<Rightarrow> gps_sentence s \<and> n = int (length s) \<and> length s < MAX_SENTENCE_LEN)"

text \<open>The event hands the line to the parser, or leaves the state alone.\<close>

lemma event_parses:
  assumes "line_read e tr = Some (int (length s), s)" "length s < MAX_SENTENCE_LEN"
  shows "\<exists>cs pad. uart_gps_event fuel UART_PATTERN_DET st e tr =
    bindC (parse fuel (s @ nul # pad) st) (\<lambda>(_, st). ret st) e (tr @ cs)"
proof -
  define buffered pop where c: "buffered = Uart (UartGetBufferedLen GPS_UART_NUM)" "pop = Uart (UartPatternPopPos GPS_UART_NUM)"
  define pos where "pos = ans_int e (tr @ [buffered]) pop"
  define line where "line = Uart (UartReadBytes GPS_UART_NUM (nat (pos + 1)))"
  note short = c [symmetric] pos_def [symmetric] line_def [symmetric]
  have a: "pos \<noteq> - 1" "ans_int e (tr @ [buffered, pop]) line = int (length s)" "ans_bytes e (tr @ [buffered, pop]) line = s"
    using assms(1) by (auto simp: line_read_def Let_def short split: if_splits)
  have "buf_write (replicate MAX_SENTENCE_LEN nul) 0 s = Inr (s @ replicate (MAX_SENTENCE_LEN - length s) nul)"
    using assms(2) by (auto simp: buf_write_def)
  moreover have "buf_write (s @ replicate (MAX_SENTENCE_LEN - length s) nul) (length s) [nul] =
      Inr (s @ nul # replicate (MAX_SENTENCE_LEN - length s - 1) nul)"
    using assms(2) by (simp add: buf_write_fits)
  ultimately have "uart_gps_event fuel UART_PATTERN_DET st e tr =
      bindC (parse fuel (s @ nul # replicate (MAX_SENTENCE_LEN - length s - 1) nul) st) (\<lambda>(_, st). ret st) e (tr @ [buffered, pop, line])"
    using a by (simp add: uart_gps_event_def cmd_run bindC_run thenC_run short)
  then show ?thesis by blast
qed

lemma event_no_line:
  assumes "line_read e tr = None"
  shows "\<exists>cs. uart_gps_event fuel UART_PATTERN_DET st e tr = Inr (st, tr @ cs)"
  using assms by (auto simp: uart_gps_event_def cmd_simps line_read_def split: if_splits)

lemma sentence_completes:
  assumes "sentence_arrives e tr" "256 \<le> fuel"
  shows "\<exists>st' cs. uart_gps_event fuel UART_PATTERN_DET st e tr = Inr (st', tr @ cs)"
proof (cases "line_read e tr")
  case None
  then show ?thesis using event_no_line by blast
next
  case (Some r)
  then obtain s where s: "line_read e tr = Some (int (length s), s)" "gps_sentence s" "length s < MAX_SENTENCE_LEN"
    using assms(1) by (cases r) (auto simp: sentence_arrives_def)
  obtain cs pad where run: "uart_gps_event fuel UART_PATTERN_DET st e tr =
      bindC (parse fuel (s @ nul # pad) st) (\<lambda>(_, st). ret st) e (tr @ cs)"
    using event_parses [OF s(1,3)] by blast
  obtain x ds where "parse fuel (s @ nul # pad) st e (tr @ cs) = Inr (x, (tr @ cs) @ ds)"
    using parse_completes [OF s(2) assms(2)] by blast
  then show ?thesis unfolding run by (auto simp: bindC_run cmd_run split: prod.split)
qed

subsection \<open>What the receiver reports\<close>

text \<open>
  Abstractly the receiver reports a position, a date and a time, as exact numbers. Each sentence
  changes them in the way the standard has it.
\<close>

record gps_report =
  at_lat :: rat
  at_lon :: rat
  at_alt :: rat
  at_date :: "nat \<times> nat \<times> nat"
  at_time :: "nat \<times> nat \<times> nat"

definition no_report :: gps_report where
  "no_report = \<lparr>at_lat = - 1, at_lon = - 1, at_alt = - 1, at_date = (0, 0, 0), at_time = (0, 0, 0)\<rparr>"

abbreviation number :: "string \<Rightarrow> nat" where
  "number s \<equiv> digits_val 0 s"

inductive hears :: "string \<Rightarrow> gps_report \<Rightarrow> gps_report \<Rightarrow> bool" where
  located: "gga_wf g \<Longrightarrow> hears (gga_text g) a
    (a\<lparr>at_lat := hemi (CHR ''S'') (g_ns g) * coord_val (g_lat g), at_lon := hemi (CHR ''W'') (g_ew g) * coord_val (g_lon g),
       at_alt := gga_alt g, at_time := (number (g_hh g), number (g_mm g), number (g_ss g))\<rparr>)"
| unlocated: "gga_wf g \<Longrightarrow> hears (gga_no_fix g) a
    (a\<lparr>at_lat := 0, at_lon := 0, at_alt := 0, at_time := (number (g_hh g), number (g_mm g), number (g_ss g))\<rparr>)"
| dated: "rmc_wf r \<Longrightarrow> s \<in> {rmc_text r, rmc_no_fix r} \<Longrightarrow> hears s a
    (a\<lparr>at_date := (number (r_day r), number (r_month r), number (r_year r)),
       at_time := (number (r_hh r), number (r_mm r), number (r_ss r))\<rparr>)"
| unrelated: "nul \<notin> set s \<Longrightarrow> 4 \<le> length s \<Longrightarrow> length s \<le> 259 \<Longrightarrow>
    strstr s ''$GPGGA'' = None \<Longrightarrow> strstr s ''$GPRMC'' = None \<Longrightarrow> hears s a a"

lemma hears_sentence: "hears s a a' \<Longrightarrow> gps_sentence s"
  by (erule hears.cases) (auto intro: gps_sentence.intros)

text \<open>The state of the code stands for a report up to the rounding of its \<open>float\<close>s.\<close>

definition gps_rel :: "gps_report \<Rightarrow> esp_gps \<Rightarrow> bool" where
  "gps_rel a st \<longleftrightarrow> \<bar>lat st - at_lat a\<bar> \<le> 3 / 100000 \<and> \<bar>lon st - at_lon a\<bar> \<le> 3 / 100000 \<and> alt st = f32 (f64 (at_alt a)) \<and>
     (gps_day st, gps_month st, gps_year st) = map_prod of_nat (map_prod of_nat of_nat) (at_date a) \<and>
     (gps_hour st, gps_min st, gps_sec st) = map_prod of_nat (map_prod of_nat of_nat) (at_time a)"

lemma gps_rel_init: "gps_rel no_report esp_gps_init"
proof -
  have "f32 (f64 (- 1)) = - 1" by (simp add: fl_uminus fl_of_int [of 1, simplified])
  then show ?thesis by (simp add: gps_rel_def no_report_def esp_gps_init_def)
qed

lemma parse_hears:
  assumes "hears s a a'" "gps_rel a st" "parse fuel (s @ nul # pad) st e tr = Inr ((err, st'), tr')"
  shows "gps_rel a' st'"
  using assms(1)
proof cases
  case (located g)
  then show ?thesis using gga_read [of g fuel pad st e tr] assms(2,3) by (auto simp: gps_rel_def)
next
  case (unlocated g)
  then show ?thesis using gga_read_no_fix [of g fuel pad st e tr] assms(2,3) by (auto simp: gps_rel_def)
next
  case (dated r)
  then show ?thesis
    using rmc_read [of r fuel pad st e tr] rmc_read_no_fix [of r fuel pad st e tr] assms(2,3)
    by (auto simp: gps_rel_def rmc_result_def)
next
  case unrelated
  then have "st' = st" using assms(3) by (auto simp: parse_def cmd_simps c_str_sentence bindE_eq_Inr split: if_splits)
  then show ?thesis using unrelated assms(2) by simp
qed

end
