(* ===== verification/Provider.thy ===== *)
theory Provider
  imports Mqtt
begin

text \<open>
  What the look-up of the Internet provider (\<open>http_get_isp_info\<close> in \<open>main/http_server_if.c\<close>) makes
  of the answer it gets: the JSON object in it, with a time stamp in place of its last character,
  which is what the handler of the MQTT client publishes once it is connected.
\<close>

subsection \<open>The answer\<close>

text \<open>The blocks a connection delivers before it ends, each of which the code asks 63 bytes for.\<close>

abbreviation sock_read :: "int \<Rightarrow> call" where
  "sock_read s \<equiv> Net (SockRead s 63)"

fun delivers :: "env \<Rightarrow> call list \<Rightarrow> int \<Rightarrow> string list \<Rightarrow> bool" where
  "delivers e tr s [] \<longleftrightarrow> ans_int e tr (sock_read s) \<le> 0"
| "delivers e tr s (b # bs) \<longleftrightarrow>
     ans_int e tr (sock_read s) = int (length b) \<and> ans_bytes e tr (sock_read s) = b \<and> b \<noteq> [] \<and> length b \<le> 63 \<and>
     delivers e (tr @ [sock_read s]) s bs"

text \<open>
  The object: the headers are skipped by leaving out the blocks up to the one that brings the
  total to 100 bytes, and what comes before the first opening brace in the rest.
\<close>

fun late_text :: "nat \<Rightarrow> string list \<Rightarrow> string" where
  "late_text tot [] = []"
| "late_text tot (b # bs) =
     (if tot + length b < 100 then late_text (tot + length b) bs else concat (b # bs))"

definition object_of :: "bool \<Rightarrow> string \<Rightarrow> string" where
  "object_of waiting t = (if waiting then dropWhile (\<lambda>c. c \<noteq> CHR ''{'') t else t)"

definition provider_text :: "string list \<Rightarrow> string" where
  "provider_text bs = object_of True (late_text 0 bs)"

text \<open>
  When the headers, which have no brace, are at least 99 bytes long, this is the body from its first
  brace on, in whatever blocks the answer comes: the blocks left out are less than 100 bytes.
\<close>

lemma late_text_drop: "tot < 100 \<Longrightarrow> \<exists>k. late_text tot bs = drop k (concat bs) \<and> tot + k < 100"
proof (induction bs arbitrary: tot)
  case (Cons b bs)
  show ?case
  proof (cases "tot + length b < 100")
    case True
    obtain k where "late_text (tot + length b) bs = drop k (concat bs)" "tot + length b + k < 100"
      using Cons.IH [OF True] by blast
    then show ?thesis using True by (intro exI [of _ "length b + k"]) simp
  next
    case False
    then show ?thesis using Cons.prems by (intro exI [of _ 0]) simp
  qed
qed (auto intro: exI [of _ 0])

lemma provider_text_body:
  assumes "concat bs = headers @ obj" "CHR ''{'' \<notin> set headers" "99 \<le> length headers" "obj \<noteq> []" "hd obj = CHR ''{''"
  shows "provider_text bs = obj"
proof -
  obtain k where k: "late_text 0 bs = drop k (headers @ obj)" "k < 100" using late_text_drop [of 0 bs] assms(1) by auto
  then have late: "late_text 0 bs = drop k headers @ obj" using assms(3) by simp
  have "CHR ''{'' \<notin> set (drop k headers)" using assms(2) by (meson in_set_dropD)
  then have "dropWhile (\<lambda>c. c \<noteq> CHR ''{'') (drop k headers @ obj) = dropWhile (\<lambda>c. c \<noteq> CHR ''{'') obj"
    by (intro dropWhile_append2) auto
  also have "\<dots> = obj" using assms(4,5) by (cases obj) simp_all
  finally show ?thesis by (simp add: provider_text_def object_of_def late)
qed

subsection \<open>Copying\<close>

text \<open>
  The room the object finds behind position \<open>ii\<close>: it is copied as a whole when a byte is left
  behind it, and otherwise the buffer is filled and terminated.
\<close>

definition copied :: "nat \<Rightarrow> string \<Rightarrow> nat \<Rightarrow> string \<Rightarrow> string" where
  "copied len buf ii t =
     (if ii + length t < len then take ii buf @ t @ drop (ii + length t) buf
      else take ii buf @ take (len - ii - 1) t @ [nul])"

lemma length_copied: "length buf = len \<Longrightarrow> ii < len \<Longrightarrow> length (copied len buf ii t) = len"
  by (auto simp: copied_def)

lemma copied_snoc:
  assumes "length buf = len" "ii + 1 < len"
  shows "copied len (take ii buf @ c # drop (ii + 1) buf) (ii + 1) t = copied len buf ii (c # t)"
proof -
  have "take (ii + 1) (take ii buf @ c # drop (ii + 1) buf) = take ii buf @ [c]" using assms by simp
  moreover have "drop (ii + 1 + length t) (take ii buf @ c # drop (ii + 1) buf) = drop (ii + 1 + length t) buf"
    using assms by (simp add: add.commute)
  moreover have "len - ii - 1 = Suc (len - (ii + 1) - 1)" using assms(2) by simp
  ultimately show ?thesis by (simp add: copied_def)
qed

lemma isp_copy_found:
  assumes "length buf = len" "ii < len"
  shows "isp_copy len t buf ii False =
    Inr (copied len buf ii t, min len (ii + length t), False, len \<le> ii + length t)"
  using assms
proof (induction t arbitrary: buf ii)
  case Nil
  then show ?case by (simp add: copied_def)
next
  case (Cons c t)
  have w: "buf_write buf ii [c] = Inr (take ii buf @ c # drop (ii + 1) buf)"
    using Cons.prems by (simp add: buf_write_fits)
  show ?case
  proof (cases "ii + 1 < len")
    case True
    then show ?thesis
      using Cons.IH [of "take ii buf @ c # drop (ii + 1) buf" "ii + 1"] Cons.prems copied_snoc [OF Cons.prems(1) True, of c t] w
      by simp
  next
    case False
    then have "len = ii + 1" using Cons.prems(2) by simp
    then show ?thesis using w Cons.prems(1) by (simp add: copied_def buf_write_fits)
  qed
qed

lemma isp_copy_spec:
  fixes t :: string and waiting :: bool
  assumes "length buf = len" "ii < len"
  defines "obj \<equiv> object_of waiting t"
  shows "isp_copy len t buf ii waiting =
    Inr (copied len buf ii obj, min len (ii + length obj), waiting \<and> CHR ''{'' \<notin> set t, len \<le> ii + length obj)"
proof (cases waiting)
  case True
  note w = this
  let ?o = "dropWhile (\<lambda>c. c \<noteq> CHR ''{'') t"
  have skip: "isp_copy len t buf ii True =
      (if CHR ''{'' \<in> set t then isp_copy len ?o buf ii False else Inr (buf, ii, True, False))"
    using assms(2) by (induction t) (auto simp: not_le)
  show ?thesis
  proof (cases "CHR ''{'' \<in> set t")
    case True
    then show ?thesis using w skip isp_copy_found [OF assms(1,2), of ?o] by (simp add: obj_def object_of_def)
  next
    case False
    then have empty: "obj = []" using w by (auto simp: obj_def object_of_def)
    show ?thesis unfolding empty using w skip False assms(1,2) by (simp add: copied_def)
  qed
qed (use isp_copy_found [OF assms(1,2)] in \<open>simp add: obj_def object_of_def\<close>)

lemma object_of_append: "object_of w (t @ u) = object_of w t @ object_of (w \<and> CHR ''{'' \<notin> set t) u"
  by (auto simp: object_of_def dropWhile_append)

lemma copied_append:
  assumes "length buf = len" "ii + length t < len"
  shows "copied len (copied len buf ii t) (ii + length t) u = copied len buf ii (t @ u)"
  using assms by (simp add: copied_def ac_simps)

lemma set_late_text: "set (late_text tot bs) \<subseteq> set (concat bs)"
proof (induction bs arbitrary: tot)
  case (Cons b bs)
  show ?case using Cons.IH [of "tot + length b"] by auto
qed simp

lemma isp_loop_run:
  fixes tot :: nat and waiting :: bool
  assumes "delivers e tr s bs" "length bs < fuel" "length buf = len" "ii < len"
  defines "obj \<equiv> object_of waiting (late_text tot bs)"
  shows "\<exists>cs. isp_loop fuel len s (int tot) buf ii waiting e tr =
    Inr ((copied len buf ii obj, min len (ii + length obj), len \<le> ii + length obj), tr @ cs)"
  unfolding obj_def using assms(1-4)
proof (induction bs arbitrary: fuel tr tot buf ii waiting)
  case Nil
  then obtain n where n: "fuel = Suc n" by (cases fuel) auto
  have "copied len buf ii [] = buf" using Nil by (simp add: copied_def)
  then show ?case using Nil by (simp add: n cmd_simps object_of_def)
next
  case (Cons b bs)
  obtain n where n: "fuel = Suc n" "length bs < n" using Cons.prems(2) by (cases fuel) auto
  have b: "ans_int e tr (sock_read s) = int (length b)" "ans_bytes e tr (sock_read s) = b" "b \<noteq> []" "length b \<le> 63"
    and d: "delivers e (tr @ [sock_read s]) s bs"
    using Cons.prems(1) by simp_all
  have blk: "take (nat (int (length b))) (block 64 (take 63 b)) = b" using b(4) by (simp add: block_def)
  note IH = Cons.IH [OF d n(2)]
  show ?case
  proof (cases "tot + length b < 100")
    case True
    then have "int tot + int (length b) < 100" by simp
    then show ?thesis
      using IH [OF Cons.prems(3,4), of "tot + length b" waiting] b(1,3) True by (auto simp: n(1) cmd_simps)
  next
    case False
    define t where "t = object_of waiting b"
    have copy: "isp_copy len b buf ii waiting =
        Inr (copied len buf ii t, min len (ii + length t), waiting \<and> CHR ''{'' \<notin> set b, len \<le> ii + length t)"
      unfolding t_def by (rule isp_copy_spec [OF Cons.prems(3,4)])
    have late: "late_text tot (b # bs) = b @ concat bs" "late_text (tot + length b) bs = concat bs"
      using False by (cases bs; simp)+
    have split: "object_of waiting (late_text tot (b # bs)) = t @ object_of (waiting \<and> CHR ''{'' \<notin> set b) (concat bs)"
      unfolding late(1) by (simp only: object_of_append t_def)
    have step: "isp_loop fuel len s (int tot) buf ii waiting e tr =
        (if len \<le> ii + length t then Inr ((copied len buf ii t, min len (ii + length t), True), tr @ [sock_read s])
         else isp_loop n len s (int (tot + length b)) (copied len buf ii t) (ii + length t) (waiting \<and> CHR ''{'' \<notin> set b) e
           (tr @ [sock_read s]))"
      using False b blk copy by (simp add: n(1) cmd_simps)
    show ?thesis
    proof (cases "len \<le> ii + length t")
      case True
      then have "copied len buf ii (t @ u) = copied len buf ii t" for u by (simp add: copied_def)
      then show ?thesis unfolding split using True Cons.prems(4) by (simp add: step)
    next
      case False
      then have "length (copied len buf ii t) = len" "ii + length t < len"
        using length_copied [OF Cons.prems(3,4)] by simp_all
      from IH [OF this, of "tot + length b" "waiting \<and> CHR ''{'' \<notin> set b"]
      obtain cs where "isp_loop n len s (int (tot + length b)) (copied len buf ii t) (ii + length t) (waiting \<and> CHR ''{'' \<notin> set b) e
           (tr @ [sock_read s]) = Inr ((copied len (copied len buf ii t) (ii + length t) (object_of (waiting \<and> CHR ''{'' \<notin> set b) (concat bs)),
             min len (ii + length t + length (object_of (waiting \<and> CHR ''{'' \<notin> set b) (concat bs))),
             len \<le> ii + length t + length (object_of (waiting \<and> CHR ''{'' \<notin> set b) (concat bs))), (tr @ [sock_read s]) @ cs)"
        unfolding late(2) by blast
      then show ?thesis
        unfolding split using False copied_append [OF Cons.prems(3) \<open>ii + length t < len\<close>] by (simp add: step add.assoc)
    qed
  qed
qed

subsection \<open>The document\<close>

definition utc_text :: "nat \<Rightarrow> string" where
  "utc_text now = '','' @ [dquote] @ ''utc'' @ [dquote] @ '':'' @ [dquote] @ fmt_u now @ [dquote] @ ''}''"

definition isp_document :: "nat \<Rightarrow> string \<Rightarrow> nat \<Rightarrow> string" where
  "isp_document len obj now =
     (if len \<le> length obj then take (len - 1) obj
      else butlast obj @ take (len - length obj - 1) (utc_text now))"

text \<open>A text that is put in front of a terminator.\<close>

lemma c_str_front: "nul \<notin> set t \<Longrightarrow> c_str (t @ nul # r) = t"
  by (simp add: c_str_def takeWhile_no)

lemma utc_text_no: "nul \<notin> set (utc_text now)"
  by (simp add: utc_text_def nul_notin_fmt_u)

lemma stamp:
  assumes "obj \<noteq> []" "length obj < len" "nul \<notin> set obj" "length buf = len"
  shows "\<exists>b'. bindE (buf_write (copied len buf 0 obj) (length obj) [nul]) (\<lambda>b.
      bindE (strlen b) (\<lambda>n. snprintf b (length obj - 1) (len - n) (utc_text now))) = Inr b' \<and>
    length b' = length (copied len buf 0 obj) \<and> nul \<in> set b' \<and> c_str b' = isp_document len obj now"
proof -
  let ?u = "take (len - length obj - 1) (utc_text now)"
  have b: "buf_write (copied len buf 0 obj) (length obj) [nul] = Inr (obj @ nul # drop (length obj + 1) buf)"
    using assms(2,4) by (simp add: copied_def buf_write_fits)
  have n: "strlen (obj @ nul # drop (length obj + 1) buf) = Inr (length obj)"
    using assms(3) by (simp add: strlen_def c_str_front)
  obtain x y where o: "obj = x @ [y]" using assms(1) by (cases obj rule: rev_cases) auto
  have "snprintf (obj @ nul # drop (length obj + 1) buf) (length obj - 1) (len - length obj) (utc_text now) =
      Inr (x @ ?u @ nul # drop (length x + length ?u + 1) (obj @ nul # drop (length obj + 1) buf))"
    using assms(2,4) by (simp add: snprintf_def buf_write_fits o)
  moreover have "c_str (x @ ?u @ nul # r) = isp_document len obj now" for r
  proof -
    have "nul \<notin> set x" using assms(3) by (simp add: o)
    moreover have "nul \<notin> set ?u" using utc_text_no in_set_takeD by metis
    ultimately have "c_str ((x @ ?u) @ nul # r) = x @ ?u" by (intro c_str_front) simp
    then show ?thesis using assms(2) by (simp add: o isp_document_def)
  qed
  moreover have "length (x @ ?u @ nul # drop (length x + length ?u + 1) (obj @ nul # drop (length obj + 1) buf)) = len"
    using assms(2,4) by (auto simp: o min_def)
  moreover have "length (copied len buf 0 obj) = len" using assms(2,4) by (simp add: copied_def)
  ultimately show ?thesis unfolding b bindE_simps n by simp
qed

subsection \<open>The look-up\<close>

text \<open>
  What follows the requests of a look-up that got through: the object of the answer is stamped,
  or cut when it does not fit.
\<close>

definition stamp_rest :: "nat \<Rightarrow> int \<Rightarrow> esp_err \<Rightarrow> string \<times> nat \<times> bool \<Rightarrow> (esp_err \<times> string) cmd" where
  "stamp_rest len s err = (\<lambda>(json_buf, ii, full).
      if full then thenC (doC (Net (SockClose s))) (ret (- 1, json_buf)) else
      bindC (liftE (buf_write json_buf ii [nul])) (\<lambda>json_buf.
      thenC (doC (Net (SockClose s)))
      (bindC (askB (Sys Time)) (\<lambda>now.
       bindC (liftE (strlen json_buf)) (\<lambda>n.
       if ii = 0 then failC OutOfBounds else
       bindC (liftE (snprintf json_buf (ii - 1) (len - n) (utc_text (unat now)))) (\<lambda>json_buf.
       ret (ESP_OK, json_buf)))))))"

lemma http_get_isp_info_code:
  "http_get_isp_info fuel json_buf len =
     bindC (askIB (Net (GetAddrInfo ''ip-api.com'' ''80''))) (\<lambda>(err, res).
     if err \<noteq> 0 \<or> res = 0 then ret (err, json_buf) else
     bindC (askI (Net Socket)) (\<lambda>s.
     if s < 0 then thenC (doC (Net FreeAddrInfo)) (ret (err, json_buf)) else
     bindC (askI (Net (Connect s))) (\<lambda>r.
     if r \<noteq> 0 then thenC (seqC [doC (Net (SockClose s)), doC (Net FreeAddrInfo)]) (ret (err, json_buf)) else
     thenC (doC (Net FreeAddrInfo))
     (bindC (askI (Net (SockWrite s ISP_REQUEST))) (\<lambda>r.
      if r < 0 then thenC (doC (Net (SockClose s))) (ret (err, json_buf)) else
      bindC (askI (Net (SetRcvTimeout s 5))) (\<lambda>r.
      if r < 0 then thenC (doC (Net (SockClose s))) (ret (err, json_buf)) else
      bindC (isp_loop fuel len s 0 json_buf 0 True) (stamp_rest len s err)))))))"
  unfolding http_get_isp_info_def stamp_rest_def utc_text_def ..

lemma stamped:
  assumes "delivers e tr s bs" "length bs < fuel" "length buf = len" "0 < len"
    and "provider_text bs \<noteq> []" "nul \<notin> set (concat bs)"
  shows "\<exists>now b cs. bindC (isp_loop fuel len s 0 buf 0 True) (stamp_rest len s err) e tr =
      Inr ((if len \<le> length (provider_text bs) then - 1 else ESP_OK, b), tr @ cs) \<and>
    length b = len \<and> nul \<in> set b \<and> c_str b = isp_document len (provider_text bs) now \<and>
    (\<exists>ds. cs = ds @ Net (SockClose s) # (if len \<le> length (provider_text bs) then [] else [Sys Time]) \<and>
       now = unat (ans_bits e (tr @ ds @ [Net (SockClose s)]) (Sys Time)))"
proof -
  let ?o = "provider_text bs"
  obtain cs where cs: "isp_loop fuel len s 0 buf 0 True e tr =
      Inr ((copied len buf 0 ?o, min len (length ?o), len \<le> length ?o), tr @ cs)"
    using isp_loop_run [OF assms(1-4), where tot = 0 and waiting = True] by (auto simp: provider_text_def)
  have no: "nul \<notin> set ?o"
    using assms(6) set_late_text [of 0 bs] set_dropWhileD by (fastforce simp: provider_text_def object_of_def)
  show ?thesis
  proof (cases "len \<le> length ?o")
    case True
    have "nul \<notin> set (take (len - 1) ?o)" using no in_set_takeD by metis
    then have "c_str (copied len buf 0 ?o) = isp_document len ?o now" for now
      using True c_str_front [of "take (len - 1) ?o" "[]"] by (simp add: copied_def isp_document_def)
    moreover have "length (copied len buf 0 ?o) = len" "nul \<in> set (copied len buf 0 ?o)"
      using True assms(4) length_copied [OF assms(3,4)] by (auto simp: copied_def)
    ultimately show ?thesis using True cs by (auto simp: stamp_rest_def cmd_simps)
  next
    case False
    let ?tr = "(tr @ cs) @ [Net (SockClose s)]"
    define now where "now = unat (ans_bits e ?tr (Sys Time))"
    obtain b' where "bindE (buf_write (copied len buf 0 ?o) (length ?o) [nul]) (\<lambda>b.
        bindE (strlen b) (\<lambda>n. snprintf b (length ?o - 1) (len - n) (utc_text now))) = Inr b'"
      "length b' = length (copied len buf 0 ?o)" "nul \<in> set b'" "c_str b' = isp_document len ?o now"
      using stamp [OF assms(5) _ no assms(3), of now] False by auto
    moreover have "min len (length ?o) = length ?o" using False by simp
    ultimately show ?thesis
      using False cs assms(5) length_copied [OF assms(3,4)]
      by (auto simp: stamp_rest_def cmd_simps now_def bindE_eq_Inr)
  qed
qed

text \<open>The calls of a look-up that gets through to the provider, and their answers.\<close>

definition isp_calls :: "int \<Rightarrow> call list" where
  "isp_calls s = [Net (GetAddrInfo ''ip-api.com'' ''80''), Net Socket, Net (Connect s), Net FreeAddrInfo,
     Net (SockWrite s ISP_REQUEST), Net (SetRcvTimeout s 5)]"

definition provider_reached :: "env \<Rightarrow> call list \<Rightarrow> int \<Rightarrow> bool" where
  "provider_reached e tr s \<longleftrightarrow>
     (let answer = (\<lambda>n. ans_int e (tr @ take n (isp_calls s)) (isp_calls s ! n)) in
      answer 0 = 0 \<and> ans_bits e tr (isp_calls s ! 0) \<noteq> 0 \<and> answer 1 = s \<and> 0 \<le> s \<and> answer 2 = 0 \<and>
      0 \<le> answer 4 \<and> 0 \<le> answer 5)"

lemma isp_info_reached:
  "provider_reached e tr s \<Longrightarrow> http_get_isp_info fuel buf len e tr =
     bindC (isp_loop fuel len s 0 buf 0 True) (stamp_rest len s 0) e (tr @ isp_calls s)"
  by (simp add: http_get_isp_info_code provider_reached_def isp_calls_def cmd_run bindC_run thenC_run numeral_eq_Suc)

text \<open>A look-up that does not get through leaves the buffer alone.\<close>

lemma isp_info_not_reached:
  assumes "\<nexists>s. provider_reached e tr s"
  shows "\<exists>err cs. http_get_isp_info fuel buf len e tr = Inr ((err, buf), tr @ cs)"
  using assms
  by (auto simp: http_get_isp_info_code provider_reached_def isp_calls_def cmd_simps numeral_eq_Suc not_less)

text \<open>
  Whenever a look-up gets through, the connection delivers what the code can take: an answer that
  ends, in which an opening brace follows the headers, and no NUL.
\<close>

definition provider_answers :: "nat \<Rightarrow> env \<Rightarrow> bool" where
  "provider_answers N e \<longleftrightarrow> (\<forall>tr s. provider_reached e tr s \<longrightarrow>
     (\<exists>bs. delivers e (tr @ isp_calls s) s bs \<and> length bs < N \<and> provider_text bs \<noteq> [] \<and> nul \<notin> set (concat bs)))"

lemma does_isp_info:
  assumes "provider_answers fuel e" "length buf = len" "0 < len" "nul \<in> set buf"
  shows "does e (\<lambda>(err, b). nul \<in> set b) (http_get_isp_info fuel buf len)"
  unfolding does_def
proof (intro allI)
  fix tr
  show "\<exists>x cs. http_get_isp_info fuel buf len e tr = Inr (x, tr @ cs) \<and> (case x of (err, b) \<Rightarrow> nul \<in> set b)"
  proof (cases "\<exists>s. provider_reached e tr s")
    case True
    then obtain s bs where s: "provider_reached e tr s" "delivers e (tr @ isp_calls s) s bs" "length bs < fuel"
      "provider_text bs \<noteq> []" "nul \<notin> set (concat bs)"
      using assms(1) unfolding provider_answers_def by metis
    from stamped [OF s(2,3) assms(2,3) s(4,5), of 0] show ?thesis
      unfolding isp_info_reached [OF s(1)] by auto
  next
    case False
    then show ?thesis using isp_info_not_reached assms(4) by fast
  qed
qed

subsection \<open>The new connection\<close>

lemma short_topic: "length t < 64 \<Longrightarrow> nul \<notin> set t \<Longrightarrow> \<exists>b. sprintf (replicate 64 nul) 0 t = Inr b \<and> c_str b = t"
  by (simp add: sprintf_def buf_write_fits c_str_front)

lemma ack_topic_short:
  assumes "length (CONFIG_MQTT_ROOT_TOPIC cfg) < 47" "nul \<notin> set (CONFIG_MQTT_ROOT_TOPIC cfg)"
    and "length mac = 12" "nul \<notin> set mac"
  shows "ack_topic cfg mac = Inr (MQTT_ACK_TOPIC_TMPLT cfg mac)"
  using short_topic [of "MQTT_ACK_TOPIC_TMPLT cfg mac"] assms by (auto simp: ack_topic_def MQTT_ACK_TOPIC_TMPLT_def)

text \<open>
  C27: a new connection to the broker subscribes to both topics and, when the look-up gets through,
  publishes what the server sent from the first brace of the answer's body on, with the time of the
  clock at that moment put in place of its last character, or as much of that as fits 511 bytes;
  then it frees the buffer. Nothing is written outside the buffer, and the socket is closed before
  the clock is read. The headers in front have no brace and at least 99 bytes; in which blocks of up
  to 63 bytes the answer comes makes no difference then.
\<close>

theorem connected_publishes_provider:
  assumes topic: "length (CONFIG_MQTT_ROOT_TOPIC cfg) < 47" "nul \<notin> set (CONFIG_MQTT_ROOT_TOPIC cfg)"
    and mac: "length mac = 12" "nul \<notin> set mac"
  defines "subscriptions \<equiv> [Web (MqttSubscribe (MQTT_SUB_ALL_TOPIC cfg) 2),
      Web (MqttSubscribe (CONFIG_MQTT_ROOT_TOPIC cfg @ ''/'' @ mac) 2), Sys (Malloc 512)]"
  assumes p: "ans_int e (tr @ butlast subscriptions) (Sys (Malloc 512)) = p" "p \<noteq> 0"
    and s: "provider_reached e (tr @ subscriptions) s"
    and answer: "delivers e (tr @ subscriptions @ isp_calls s) s bs" "length bs < fuel" "nul \<notin> set (concat bs)"
    and body: "concat bs = headers @ obj" "CHR ''{'' \<notin> set headers" "99 \<le> length headers" "obj \<noteq> []" "hd obj = CHR ''{''"
  shows "\<exists>cs clock. let tr1 = tr @ subscriptions @ isp_calls s @ cs @ [Net (SockClose s)];
        now = unat (ans_bits e tr1 (Sys Time))
    in clock = (if length obj < 512 then [Sys Time] else []) \<and>
       mqtt_event_handler cfg mac fuel MQTT_EVENT_CONNECTED st ota e tr =
         Inr ((ESP_OK, st\<lparr>client_connected := True\<rparr>, ota), tr1 @ clock @
           [Web (MqttPublish (MQTT_ACK_TOPIC_TMPLT cfg mac) (isp_document 512 obj now) 2), Sys (Free p)])"
proof -
  let ?tr = "tr @ subscriptions"
  have body_is: "provider_text bs = obj" using body by (rule provider_text_body)
  obtain tmp where tmp: "sprintf (replicate 64 nul) 0 (CONFIG_MQTT_ROOT_TOPIC cfg @ ''/'' @ mac) = Inr tmp"
    "c_str tmp = CONFIG_MQTT_ROOT_TOPIC cfg @ ''/'' @ mac"
    using short_topic [of "CONFIG_MQTT_ROOT_TOPIC cfg @ ''/'' @ mac"] assms(1-4) by auto
  define buf where "buf = block 512 (ans_bytes e (tr @ butlast subscriptions) (Sys (Malloc 512)))"
  define buf0 where "buf0 = nul # drop 1 buf"
  have buf: "buf_write buf 0 [nul] = Inr buf0" "length buf0 = 512"
    by (simp_all add: buf_def buf0_def buf_write_fits)
  have at: "delivers e (?tr @ isp_calls s) s bs" using answer(1) by simp
  obtain now b cs err ds where look: "http_get_isp_info fuel buf0 512 e ?tr = Inr ((err, b), (?tr @ isp_calls s) @ cs)"
    and b: "nul \<in> set b" "c_str b = isp_document 512 obj now"
    and cs: "cs = ds @ Net (SockClose s) # (if 512 \<le> length obj then [] else [Sys Time])"
      "now = unat (ans_bits e ((?tr @ isp_calls s) @ ds @ [Net (SockClose s)]) (Sys Time))"
    using stamped [OF at answer(2) buf(2) _ _ answer(3), of 0] body(4) unfolding isp_info_reached [OF s] body_is by auto
  have "strlen b = Inr (length (c_str b))" using b(1) by (simp add: strlen_def)
  then have "mqtt_on_connected cfg mac fuel st e tr = Inr (st\<lparr>client_connected := True\<rparr>, tr @ subscriptions @ isp_calls s @ cs @
      [Web (MqttPublish (MQTT_ACK_TOPIC_TMPLT cfg mac) (c_str b) 2), Sys (Free p)])"
    using p tmp ack_topic_short [OF topic mac] look buf
    by (simp add: mqtt_on_connected_def cmd_simps subscriptions_def MQTT_Publish_General_def buf_def)
  then show ?thesis
    unfolding b(2) mqtt_event_handler_def Let_def
    by (intro exI [of _ ds] exI [of _ "if length obj < 512 then [Sys Time] else []"]) (auto simp: cmd_simps cs not_le)
qed

text \<open>Whether or not the look-up gets through, the handler ends.\<close>

lemma does_connected:
  assumes "length (CONFIG_MQTT_ROOT_TOPIC cfg) < 47" "nul \<notin> set (CONFIG_MQTT_ROOT_TOPIC cfg)"
    and "length mac = 12" "nul \<notin> set mac" "\<And>tr. ans_int e tr (Sys (Malloc 512)) \<noteq> 0" "provider_answers fuel e"
  shows "does e (\<lambda>_. True) (mqtt_event_handler cfg mac fuel MQTT_EVENT_CONNECTED st ota)"
proof -
  obtain tmp where tmp: "sprintf (replicate 64 nul) 0 (CONFIG_MQTT_ROOT_TOPIC cfg @ ''/'' @ mac) = Inr tmp"
    using short_topic [of "CONFIG_MQTT_ROOT_TOPIC cfg @ ''/'' @ mac"] assms(1-4) by auto
  have publish: "returns (MQTT_Publish_General topic msg qos st')" for topic msg qos st'
    unfolding MQTT_Publish_General_def by (intro returns_intros)
  have rest: "does e (\<lambda>_. True) (bindC (liftE (strlen b)) (\<lambda>_. bindC (MQTT_Publish_General topic (c_str b) 2 st')
      (\<lambda>_. thenC (doC c) (ret st'))))" if "nul \<in> set b" for topic b st' c
    by (rule does_lift_bind [of _ "length (c_str b)"]) (use that in \<open>auto simp: strlen_def intro!: does_returns returns_intros publish\<close>)
  have "does e (\<lambda>_. True) (mqtt_on_connected cfg mac fuel st)"
    unfolding mqtt_on_connected_def Let_def
  proof (intro does_then does_lift_bind [OF tmp] does_lift_bind [OF ack_topic_short [OF assms(1-4)]] does_malloc [OF assms(5)])
    show "does e (\<lambda>_. True) (case (p, buf) of (p, json_buf) \<Rightarrow> if p = 0 then failC NullDeref else
        bindC (liftE (buf_write json_buf 0 [nul])) (\<lambda>json_buf. bindC (http_get_isp_info fuel json_buf 512) (\<lambda>(err, json_buf).
        bindC (liftE (strlen json_buf)) (\<lambda>_. bindC (MQTT_Publish_General topic (c_str json_buf) 2 st') (\<lambda>_.
        thenC (doC (Sys (Free p))) (ret st'))))))" if "p \<noteq> 0" "length buf = 512" for p buf topic st'
    proof -
      have "buf_write buf 0 [nul] = Inr (nul # drop 1 buf)" using that(2) by (simp add: buf_write_fits)
      moreover have "does e (\<lambda>(err, b). nul \<in> set b) (http_get_isp_info fuel (nul # drop 1 buf) 512)"
        using that(2) by (intro does_isp_info assms(6)) simp_all
      ultimately show ?thesis
        using that(1) by (auto intro!: does_lift_bind does_bind [where P = "\<lambda>(err, b). nul \<in> set b"] rest)
    qed
  qed (intro does_returns returns_intros)+
  then show ?thesis
    unfolding mqtt_event_handler_def by (auto intro!: does_bind [where P = "\<lambda>_. True"] does_ret)
qed

text \<open>An answer in two blocks, the second of which holds the object.\<close>

definition demo_answer :: "string list" where
  "demo_answer = [replicate 63 (CHR ''h''), replicate 37 (CHR ''h'') @ ''{a}'']"

definition reads_done :: "call list \<Rightarrow> nat" where
  "reads_done tr = length (takeWhile (\<lambda>c. case c of Net (SockRead _ _) \<Rightarrow> True | _ \<Rightarrow> False) (rev tr))"

definition provider_env :: env where
  "provider_env = silent_env\<lparr>
     ans_int := (\<lambda>tr c. case c of
         Net (SockRead _ _) \<Rightarrow> (if reads_done tr < 2 then int (length (demo_answer ! reads_done tr)) else 0)
       | Sys (Malloc _) \<Rightarrow> 1 | Net Socket \<Rightarrow> 3 | _ \<Rightarrow> 0),
     ans_bits := (\<lambda>tr c. 1),
     ans_bytes := (\<lambda>tr c. case c of
         Net (SockRead _ _) \<Rightarrow> (if reads_done tr < 2 then demo_answer ! reads_done tr else []) | _ \<Rightarrow> [])\<rparr>"

lemma provider_env_delivers: "delivers provider_env (tr @ isp_calls s) s demo_answer"
  by (simp add: provider_env_def demo_answer_def reads_done_def isp_calls_def)

lemma demo_answer_text: "provider_text demo_answer = ''{a}''" "nul \<notin> set (concat demo_answer)"
  by code_simp+

lemma provider_env_answers: "provider_answers 3 provider_env"
  unfolding provider_answers_def
proof (intro allI impI exI [of _ demo_answer] conjI)
  show "provider_text demo_answer \<noteq> []" by (simp add: demo_answer_text)
  show "length demo_answer < 3" by (simp add: demo_answer_def)
qed (rule provider_env_delivers demo_answer_text)+

theorem connected_publishes_provider_witness:
  "\<exists>cs. mqtt_event_handler mqtt_demo_build ''AABBCCDDEEFF'' 3 MQTT_EVENT_CONNECTED mqtt_state_init ota_state_init provider_env [] =
    Inr ((ESP_OK, mqtt_state_init\<lparr>client_connected := True\<rparr>, ota_state_init),
      cs @ [Net (SockClose 3), Sys Time, Web (MqttPublish ''airu/ack/AABBCCDDEEFF'' (isp_document 512 ''{a}'' 1) 2), Sys (Free 1)])"
proof -
  let ?cs = "[Web (MqttSubscribe (MQTT_SUB_ALL_TOPIC mqtt_demo_build) 2),
      Web (MqttSubscribe (CONFIG_MQTT_ROOT_TOPIC mqtt_demo_build @ ''/'' @ ''AABBCCDDEEFF'') 2), Sys (Malloc 512)]"
  have reached: "provider_reached provider_env ([] @ ?cs) 3"
    by (simp add: provider_reached_def isp_calls_def provider_env_def numeral_eq_Suc)
  have "delivers provider_env ([] @ ?cs @ isp_calls 3) 3 demo_answer"
    using provider_env_delivers [of "[] @ ?cs" 3] by (simp only: append_assoc)
  moreover have "concat demo_answer = replicate 100 (CHR ''h'') @ ''{a}''"
    by (simp add: demo_answer_def flip: replicate_add append_assoc)
  ultimately show ?thesis
    using connected_publishes_provider [of mqtt_demo_build "''AABBCCDDEEFF''" provider_env "[]" 1 3 demo_answer 3
        "replicate 100 (CHR ''h'')" "''{a}''" mqtt_state_init ota_state_init]
      reached demo_answer_text(2)
    by (auto simp: provider_env_def demo_answer_def MQTT_ACK_TOPIC_TMPLT_def Let_def)
qed

end
