(* ===== verification/WifiTypes.thy ===== *)
theory WifiTypes
  imports HttpServer
begin

text \<open>
  The type invariant of the Wi-Fi manager's globals: every buffer keeps the size it was allocated
  with and the documents stay allocated, through each operation of the manager's task and of the
  web server, and the start of the task establishes it.
\<close>

subsection \<open>Sizes of buffers\<close>

lemma keeps_size:
  "strcpy b s = Inr b' \<Longrightarrow> length b' = length b" "strcat b s = Inr b' \<Longrightarrow> length b' = length b"
  "memset b c n = Inr b' \<Longrightarrow> length b' = length b" "sprintf b i s = Inr b' \<Longrightarrow> length b' = length b"
  "snprintf b i n s = Inr b' \<Longrightarrow> length b' = length b" "strncpy b i s n = Inr b' \<Longrightarrow> length b' = length b"
  by (auto simp: strcpy_def strcat_def memset_def sprintf_def snprintf_def strncpy_def Let_def bindE_eq_Inr
      dest: buf_write_length split: if_splits)

lemma print_keeps_size: "print_at_end s b = Inr b' \<Longrightarrow> length b' = length b"
  by (simp add: print_at_end_strcat keeps_size)

lemma snprintf_at_end_size: "snprintf_at_end b n s = Inr b' \<Longrightarrow> length b' = length b"
  by (auto simp: snprintf_at_end_def bindE_eq_Inr dest: keeps_size)

text \<open>What is printed into a buffer is terminated.\<close>

lemma terminates:
  "strcpy b s = Inr b' \<Longrightarrow> nul \<in> set b'" "strcat b s = Inr b' \<Longrightarrow> nul \<in> set b'" "sprintf b i s = Inr b' \<Longrightarrow> nul \<in> set b'"
  "snprintf b i (Suc n) s = Inr b' \<Longrightarrow> nul \<in> set b'"
  by (auto simp: strcpy_def strcat_def sprintf_def snprintf_def buf_write_def bindE_eq_Inr split: if_splits)

lemma snprintf_at_end_terminates: "snprintf_at_end b JSON_IP_INFO_SIZE s = Inr b' \<Longrightarrow> nul \<in> set b'"
  using terminates(4) [of b _ "JSON_IP_INFO_SIZE - 1"] by (auto simp: snprintf_at_end_def JSON_IP_INFO_SIZE_def bindE_eq_Inr)

lemma reg_json_fill_size:
  assumes "reg_json_fill r mac b = Inr b'"
  shows "length b' = length b" "nul \<in> set b'"
proof -
  show "length b' = length b"
    using assms by (auto simp: reg_json_fill_def bindE_eq_Inr Let_def dest!: keeps_size print_keeps_size)
  show "nul \<in> set b'"
    using assms by (auto simp: reg_json_fill_def bindE_eq_Inr Let_def intro: terminates(3))
qed

lemma ip_json_head_size: "ip_json_head c b = Inr b' \<Longrightarrow> length b' = length b"
  by (auto simp: ip_json_head_def bindE_eq_Inr dest!: keeps_size print_keeps_size)

lemma ap_json_loop_size: "ap_json_loop aps b = Inr b' \<Longrightarrow> nul \<in> set b \<Longrightarrow> length b' = length b \<and> nul \<in> set b'"
proof (induction aps arbitrary: b)
  case (Cons ap aps)
  then obtain b1 b2 one b3 where "strcat b (''{'' @ [dquote] @ ''ssid'' @ [dquote] @ '':'') = Inr b1"
    "print_at_end (ssid ap) b1 = Inr b2" "strcat b2 (c_str one) = Inr b3" "ap_json_loop aps b3 = Inr b'"
    by (auto simp: bindE_eq_Inr)
  then show ?case using Cons.IH [of b3] by (simp add: keeps_size print_keeps_size terminates)
qed simp

subsection \<open>The filter\<close>

lemma length_filter_pass1: "length (filter_pass1 n l) = length l"
proof -
  have merge: "length (filter_merge i j l) = length l" for i j l by (simp add: filter_merge_def Let_def)
  have inner: "length (fold (filter_merge i) js l) = length l" for i js l
    by (induction js arbitrary: l) (simp_all add: merge)
  have "length (fold (\<lambda>i l. if ssid (l ! i) = [] then l else fold (filter_merge i) [i + 1..<n] l) is l) = length l" for "is" l
    by (induction "is" arbitrary: l) (simp_all add: inner)
  then show ?thesis by (simp add: filter_pass1_def)
qed

lemma filter_pass2_size:
  "filter_pass2 n l = (l', k) \<Longrightarrow> length l' = length l \<and> 0 \<le> k \<and> k \<le> int n"
proof -
  have "length (fst (fold (filter_compact n) is (l, ff, k))) = length l \<and>
      k - int (length is) \<le> snd (snd (fold (filter_compact n) is (l, ff, k))) \<and>
      snd (snd (fold (filter_compact n) is (l, ff, k))) \<le> k" for "is" ff k l
  proof (induction "is" arbitrary: l ff k)
    case (Cons i "is")
    obtain l1 ff1 k1 where s: "filter_compact n i (l, ff, k) = (l1, ff1, k1)" by (metis surj_pair)
    then have "length l1 = length l" "k1 = k \<or> k1 = k - 1"
      by (auto simp: filter_compact_def Let_def split: if_splits option.splits)
    with Cons.IH [of l1 ff1 k1] s show ?case by auto
  qed simp
  from this [of "[0..<n]" l None "int n"] show "filter_pass2 n l = (l', k) \<Longrightarrow> length l' = length l \<and> 0 \<le> k \<and> k \<le> int n"
    by (auto simp: filter_pass2_def split: prod.splits)
qed

subsection \<open>The globals\<close>

text \<open>
  After the start of the task: the sizes, the documents, which are allocated and hold strings, and
  the configuration, which is allocated.
\<close>

definition document :: "string option \<Rightarrow> bool" where
  "document d \<longleftrightarrow> (\<exists>b. d = Some b \<and> nul \<in> set b)"

definition wifi_live :: "wifi_state \<Rightarrow> bool" where
  "wifi_live st \<longleftrightarrow> wifi_ok st \<and> document (accessp_json st) \<and> document (ip_info_json st) \<and>
     document (reg_info_json st) \<and> config_sta st \<noteq> None"

lemma document_Some [simp]: "document (Some b) \<longleftrightarrow> nul \<in> set b" "\<not> document None"
  by (simp_all add: document_def)

lemma wifi_live_docs:
  "wifi_live st \<Longrightarrow> ip_info_json st = Some b \<Longrightarrow> length b' = length b \<Longrightarrow> nul \<in> set b' \<Longrightarrow> wifi_live (st\<lparr>ip_info_json := Some b'\<rparr>)"
  "wifi_live st \<Longrightarrow> reg_info_json st = Some b \<Longrightarrow> length b' = length b \<Longrightarrow> nul \<in> set b' \<Longrightarrow> wifi_live (st\<lparr>reg_info_json := Some b'\<rparr>)"
  "wifi_live st \<Longrightarrow> accessp_json st = Some b \<Longrightarrow> length b' = length b \<Longrightarrow> nul \<in> set b' \<Longrightarrow> wifi_live (st\<lparr>accessp_json := Some b'\<rparr>)"
  by (simp_all add: wifi_live_def wifi_ok_def)

lemma wifi_live_sta:
  "wifi_live st \<Longrightarrow> length (sta_ssid c) = 32 \<Longrightarrow> length (sta_password c) = 64 \<Longrightarrow> wifi_live (st\<lparr>config_sta := Some c\<rparr>)"
  by (simp add: wifi_live_def wifi_ok_def)

lemma wifi_live_reg:
  "wifi_live st \<Longrightarrow> length (reg_name r) = 64 \<Longrightarrow> length (reg_email r) = 254 \<Longrightarrow> length (reg_mac r) = 12 \<Longrightarrow>
   wifi_live (st\<lparr>reg_info := r\<rparr>)"
  by (simp add: wifi_live_def wifi_ok_def)

lemma wifi_live_settings: "wifi_live st \<Longrightarrow> length s = settings_size \<Longrightarrow> wifi_live (st\<lparr>wifi_settings := s\<rparr>)"
  by (simp add: wifi_live_def wifi_ok_def)

lemma wifi_live_aps:
  "wifi_live st \<Longrightarrow> length l = MAX_AP_NUM \<Longrightarrow> unat n \<le> MAX_AP_NUM \<Longrightarrow> wifi_live (st\<lparr>accessp_records := l, ap_num := n\<rparr>)"
  "wifi_live st \<Longrightarrow> length l = MAX_AP_NUM \<Longrightarrow> unat n \<le> MAX_AP_NUM \<Longrightarrow> wifi_live (st\<lparr>ap_num := n, accessp_records := l\<rparr>)"
  "wifi_live st \<Longrightarrow> unat n \<le> MAX_AP_NUM \<Longrightarrow> wifi_live (st\<lparr>ap_num := n\<rparr>)"
  by (simp_all add: wifi_live_def wifi_ok_def)

lemma wifi_live_sizes:
  assumes "wifi_live st"
  shows "length (accessp_records st) = MAX_AP_NUM" "unat (ap_num st) \<le> MAX_AP_NUM"
    "config_sta st = Some c \<Longrightarrow> length (sta_ssid c) = 32 \<and> length (sta_password c) = 64"
    "length (reg_name (reg_info st)) = 64" "length (reg_email (reg_info st)) = 254" "length (reg_mac (reg_info st)) = 12"
    "length (wifi_settings st) = settings_size"
  using assms by (simp_all add: wifi_live_def wifi_ok_def)

lemma zero_sta_live: "wifi_live st \<Longrightarrow> wifi_live (st\<lparr>config_sta := Some zero_sta\<rparr>)"
  by (rule wifi_live_sta) (simp_all add: zero_sta_def)

lemma with_ptr_Inr: "with_ptr p f = Inr y \<longleftrightarrow> (\<exists>x. p = Some x \<and> f x = Inr y)"
  by (cases p) simp_all

text \<open>The documents.\<close>

lemma clear_live:
  "wifi_live st \<Longrightarrow> wifi_manager_clear_ip_info_json st = Inr st' \<Longrightarrow> wifi_live st'"
  "wifi_live st \<Longrightarrow> wifi_manager_clear_reg_info_json st = Inr st' \<Longrightarrow> wifi_live st'"
  "wifi_live st \<Longrightarrow> wifi_manager_clear_access_points_json st = Inr st' \<Longrightarrow> wifi_live st'"
  by (auto simp: wifi_manager_clear_ip_info_json_def wifi_manager_clear_reg_info_json_def
      wifi_manager_clear_access_points_json_def with_ptr_Inr bindE_eq_Inr keeps_size terminates intro: wifi_live_docs)

lemma ap_json_live:
  assumes "wifi_live st" "wifi_manager_generate_acess_points_json st = Inr st'"
  shows "wifi_live st'"
proof -
  from assms(2) obtain b b1 b' where "accessp_json st = Some b" "strcpy b ''['' = Inr b1"
    "ap_json_loop (take (unat (ap_num st)) (accessp_records st)) b1 = Inr b'" "st' = st\<lparr>accessp_json := Some b'\<rparr>"
    by (auto simp: wifi_manager_generate_acess_points_json_def with_ptr_Inr bindE_eq_Inr split: if_splits)
  then show ?thesis
    using wifi_live_docs(3) [OF assms(1)] ap_json_loop_size [of _ b1 b'] by (simp add: keeps_size terminates)
qed

lemma generate_ip_live: "wifi_live st \<Longrightarrow> gives e wifi_live (wifi_manager_generate_ip_info_json ntoa code st)"
  unfolding wifi_manager_generate_ip_info_json_def
proof (intro gives_rules gives_lift)
  show "wifi_live st \<Longrightarrow> wifi_manager_clear_ip_info_json st = Inr x \<Longrightarrow> wifi_live x" for x by (rule clear_live)
next
  fix config b0
  assume live: "wifi_live st" and b0: "with_ptr (ip_info_json st) (ip_json_head config) = Inr b0"
  then obtain b where b: "ip_info_json st = Some b" "length b0 = length b"
    by (auto simp: with_ptr_Inr dest: ip_json_head_size)
  show "gives e wifi_live (bindC (if code = UPDATE_CONNECTION_OK
                 then bindC (askIS (Wifi TcpipGetIpInfo)) (\<lambda>(r, info).
                      thenC (esp_error_check r)
                      (if length info < 12 then failC Undefined else
                       bindC (liftE (copy_ip ntoa (take 4 info))) (\<lambda>ip.
                       bindC (liftE (copy_ip ntoa (take 4 (drop 4 info)))) (\<lambda>netmask.
                       bindC (liftE (copy_ip ntoa (take 4 (drop 8 info)))) (\<lambda>gw.
                       liftE (snprintf_at_end b0 JSON_IP_INFO_SIZE (ip_info_json_format ip netmask gw (urc code))))))))
                 else liftE (snprintf_at_end b0 JSON_IP_INFO_SIZE (ip_info_json_format ''0'' ''0'' ''0'' (urc code))))
            (\<lambda>b. ret (st\<lparr>ip_info_json := Some b\<rparr>)))"
    by (rule gives_bind [where P = "\<lambda>b'. length b' = length b0 \<and> nul \<in> set b'"])
       (auto intro!: gives_rules gives_skip gives_lift wifi_live_docs(1) [OF live b(1)]
         dest: snprintf_at_end_size snprintf_at_end_terminates simp: b(2))
qed

lemma generate_reg_live: "wifi_live st \<Longrightarrow> gives e wifi_live (wifi_manager_generate_reg_info_json st)"
  unfolding wifi_manager_generate_reg_info_json_def
  by (intro gives_rules gives_skip)
     (auto simp: with_ptr_Inr intro!: gives_rules gives_skip wifi_live_docs(2) dest: reg_json_fill_size)

subsection \<open>The flash store\<close>

lemma get_blob_size: "gives e (\<lambda>(r, b, n). length b = length buff) (get_blob key k buff)"
  unfolding get_blob_def by (auto intro!: gives_rules dest: buf_write_length)

lemma fetch_field_size: "gives e (\<lambda>(ok, b, d). length d = length dest) (fetch_field key k buff dest)"
  unfolding fetch_field_def by (auto intro!: gives_skip gives_rules dest: buf_write_length)

lemma fetch_reg_field_size: "gives e (\<lambda>(ok, b, d). length d = length dest) (fetch_reg_field key buff dest)"
  unfolding fetch_reg_field_def by (auto intro!: gives_skip gives_rules dest: buf_write_length)

lemma gives_fetch:
  "(\<And>ok b d. length d = length dest \<Longrightarrow> gives e Q (f (ok, b, d))) \<Longrightarrow> gives e Q (bindC (fetch_field key k buff dest) f)"
  "(\<And>ok b d. length d = length dest \<Longrightarrow> gives e Q (f (ok, b, d))) \<Longrightarrow> gives e Q (bindC (fetch_reg_field key buff dest) f)"
  by (auto intro: gives_bind [OF fetch_field_size] gives_bind [OF fetch_reg_field_size])

lemma fetch_reg_live:
  assumes live: "wifi_live st"
  shows "gives e (\<lambda>(ok, st). wifi_live st) (wifi_manager_fetch_reg_config st)"
proof -
  note sizes = wifi_live_sizes(4-6) [OF live]
  show ?thesis
    unfolding wifi_manager_fetch_reg_config_def Let_def
    by (auto intro!: gives_rules gives_fetch wifi_live_reg live dest!: buf_write_length simp: sizes)
qed

lemma fetch_sta_live:
  assumes live: "wifi_live st"
  shows "gives e (\<lambda>(ok, st). wifi_live st) (wifi_manager_fetch_wifi_sta_config st)"
  unfolding wifi_manager_fetch_wifi_sta_config_def Let_def
  by (auto intro!: gives_rules gives_fetch gives_skip [where m = "if config_sta st = None then _ else _"]
        wifi_live_settings wifi_live_sta live simp: zero_sta_def split del: if_split)

subsection \<open>The task\<close>

lemma connect_async_live: "wifi_live st \<Longrightarrow> gives e wifi_live (wifi_manager_connect_async st)"
  unfolding wifi_manager_connect_async_def
  by (rule gives_skip, rule gives_bind [where P = wifi_live]) (auto intro!: gives_rules dest: clear_live)

lemma status_update_live: "wifi_live st \<Longrightarrow> gives e wifi_live (wifi_manager_json_status_update ntoa code st)"
  unfolding wifi_manager_json_status_update_def
  by (rule gives_skip) (auto intro!: gives_rules gives_bind [OF generate_ip_live])

lemma turn_disconnect_live: "wifi_live st \<Longrightarrow> gives e wifi_live (turn_disconnect ntoa u st)"
  unfolding turn_disconnect_def Let_def
  by (rule gives_then, rule gives_skip, rule gives_bind [OF status_update_live])
     (auto intro: zero_sta_live gives_then gives_ret split: option.split)

lemma turn_connect_live: "wifi_live st \<Longrightarrow> gives e wifi_live (turn_connect ntoa u st)"
  unfolding turn_connect_def
  by (intro gives_then gives_asks gives_bind [where P = wifi_live] gives_if gives_option gives_ret gives_fail
        gives_skip [where m = "wifi_manager_save_sta_config _"] gives_skip [where m = wifi_manager_check_connection]
        status_update_live zero_sta_live)

text \<open>The driver fills in at most the number of records it is offered.\<close>

definition scan_bounded :: "env \<Rightarrow> bool" where
  "scan_bounded e \<longleftrightarrow> (\<forall>tr n. length (ans_aps e tr (Wifi (WifiScanGetApRecords n))) \<le> n)"

lemma gives_scan:
  assumes "scan_bounded e" "\<And>r aps. length aps \<le> n \<Longrightarrow> gives e Q (f (r, aps))"
  shows "gives e Q (bindC (askA (Wifi (WifiScanGetApRecords n))) f)"
proof (rule gives_bind)
  show "gives e (\<lambda>(r, aps). length aps \<le> n) (askA (Wifi (WifiScanGetApRecords n)))"
    using assms(1) by (auto simp: gives_def askA_def scan_bounded_def)
qed (use assms(2) in auto)

lemma filter_live:
  assumes "wifi_live st"
  shows "gives e (\<lambda>(l, n). wifi_live (st\<lparr>accessp_records := l, ap_num := n\<rparr>))
    (wifi_manager_filter_unique (accessp_records st) (ap_num st))"
proof -
  obtain l k where f: "filter_pass2 (unat (ap_num st)) (filter_pass1 (unat (ap_num st)) (accessp_records st)) = (l, k)"
    by (metis surj_pair)
  then have size: "length l = MAX_AP_NUM" "0 \<le> k" "k \<le> int (unat (ap_num st))"
    using filter_pass2_size [OF f] wifi_live_sizes(1) [OF assms] by (simp_all add: length_filter_pass1)
  then have "nat k \<le> MAX_AP_NUM" using wifi_live_sizes(2) [OF assms] by linarith
  moreover have "unat (word_of_nat (nat k) :: u16) \<le> nat k" by (simp add: unat_of_nat)
  ultimately have "unat (word_of_int k :: u16) \<le> MAX_AP_NUM" using size(2) by simp
  then have "wifi_live (st\<lparr>accessp_records := l, ap_num := word_of_int k\<rparr>)"
    by (rule wifi_live_aps(1) [OF assms size(1)])
  then show ?thesis
    by (simp add: wifi_manager_filter_unique_def f gives_then gives_ret)
qed

lemma turn_scan_live:
  assumes "scan_bounded e" and live: "wifi_live st"
  shows "gives e wifi_live (turn_scan u st)"
proof -
  let ?st = "st\<lparr>ap_num := of_nat MAX_AP_NUM\<rparr>"
  let ?scan = "\<lambda>aps. ?st\<lparr>ap_num := of_nat (length aps), accessp_records := aps @ drop (length aps) (accessp_records ?st)\<rparr>"
  have st: "wifi_live ?st"
    by (rule wifi_live_aps(3) [OF live]) (simp add: MAX_AP_NUM_def)
  have scan: "wifi_live (?scan aps)" if "length aps \<le> unat (ap_num ?st)" for aps
    by (rule wifi_live_aps(2) [OF st]) (use that wifi_live_sizes(1) [OF live] in \<open>simp_all add: MAX_AP_NUM_def unat_of_nat\<close>)
  have filtered: "gives e wifi_live (bindC (wifi_manager_filter_unique (accessp_records st) (ap_num st)) (\<lambda>(l, n).
      bindC (liftE (wifi_manager_generate_acess_points_json (st\<lparr>accessp_records := l, ap_num := n\<rparr>))) (\<lambda>st.
      thenC wifi_manager_unlock_json_buffer (ret st))))" if "wifi_live st" for st
    by (rule gives_bind [OF filter_live [OF that]]) (auto intro!: gives_rules dest: ap_json_live)
  show ?thesis
    unfolding turn_scan_def Let_def
    by (rule gives_bind [where P = wifi_live], intro gives_if gives_then gives_scan assms(1))
       (auto intro!: gives_rules gives_skip [where m = "wifi_manager_lock_json_buffer _ _"] filtered scan st split del: if_split)
qed

lemma turn_ping_live: "wifi_live st \<Longrightarrow> gives e wifi_live (turn_ping st)"
  unfolding turn_ping_def
  by (rule gives_skip)
     (auto intro!: gives_bind [where P = wifi_live] gives_bind [OF fetch_sta_live] gives_rules connect_async_live)

lemma turn_live:
  assumes "scan_bounded e" "wifi_live st"
  shows "gives e wifi_live (wifi_manager_turn ntoa st)"
  unfolding wifi_manager_turn_def wm_get_def
  by (intro gives_then gives_asks gives_bind [where P = wifi_live] gives_if gives_ret turn_disconnect_live
        turn_connect_live turn_scan_live turn_ping_live assms)

lemma pingResults_live: "wifi_live st \<Longrightarrow> gives e (\<lambda>(err, st). wifi_live st) (pingResults n st)"
  unfolding pingResults_def
  by (auto intro!: gives_if gives_then gives_ret gives_bind [OF connect_async_live])

subsection \<open>The web server\<close>

lemma get_register_live: "wifi_live st \<Longrightarrow> gives e wifi_live (get_register_json st)"
  unfolding get_register_json_code
  by (rule gives_skip)
     (auto intro!: gives_bind [where P = wifi_live] gives_bind [OF fetch_reg_live] gives_bind [OF generate_reg_live] gives_rules)

lemma post_connect_live: "wifi_live st \<Longrightarrow> gives e wifi_live (post_connect_json s st)"
  unfolding post_connect_json_code
  by (auto intro!: gives_rules gives_bind [OF connect_async_live] wifi_live_sta dest!: buf_write_length
      simp: zero_sta_def split: option.split)

lemma post_register_live:
  assumes live: "wifi_live st"
  shows "gives e wifi_live (post_register_json s st)"
  unfolding post_register_json_def Let_def
  by (auto intro!: gives_rules gives_skip [where m = "wifi_manager_save_reg_config _"]
        gives_skip [where m = wifi_manager_connected_to_access_point] wifi_live_reg live
      dest!: buf_write_length keeps_size simp: wifi_live_sizes(4-6) [OF live] split: option.split)

lemma serve_request_live: "wifi_live st \<Longrightarrow> gives e wifi_live (serve_request as line s st)"
  unfolding serve_request_def Let_def get_ap_json_code get_status_json_code delete_connect_json_def
  by (intro gives_if gives_then gives_skip [where m = "wifi_manager_lock_json_buffer _ _"] gives_ret
        get_register_live post_connect_live post_register_live)

lemma netconn_serve_live: "wifi_live st \<Longrightarrow> gives e wifi_live (http_server_netconn_serve as st)"
  unfolding http_server_netconn_serve_def
  by (rule gives_skip)
     (auto intro!: gives_bind [where P = wifi_live] gives_rules serve_request_live)

subsection \<open>The start\<close>

text \<open>
  The task's start establishes the sizes: it needs those of the static structures, allocates
  everything else, and stops at a null pointer.
\<close>

definition wifi_static :: "wifi_state \<Rightarrow> bool" where
  "wifi_static st \<longleftrightarrow> unat (ap_num st) \<le> MAX_AP_NUM \<and> length (wifi_settings st) = settings_size \<and>
     length (reg_name (reg_info st)) = 64 \<and> length (reg_email (reg_info st)) = 254 \<and> length (reg_mac (reg_info st)) = 12"

lemma cleared_doc:
  "wifi_manager_clear_ip_info_json st = Inr st' \<Longrightarrow> \<exists>b b'. ip_info_json st = Some b \<and> length b' = length b \<and> nul \<in> set b' \<and> st' = st\<lparr>ip_info_json := Some b'\<rparr>"
  "wifi_manager_clear_reg_info_json st = Inr st' \<Longrightarrow> \<exists>b b'. reg_info_json st = Some b \<and> length b' = length b \<and> nul \<in> set b' \<and> st' = st\<lparr>reg_info_json := Some b'\<rparr>"
  "wifi_manager_clear_access_points_json st = Inr st' \<Longrightarrow> \<exists>b b'. accessp_json st = Some b \<and> length b' = length b \<and> nul \<in> set b' \<and> st' = st\<lparr>accessp_json := Some b'\<rparr>"
  by (auto simp: wifi_manager_clear_ip_info_json_def wifi_manager_clear_reg_info_json_def
      wifi_manager_clear_access_points_json_def with_ptr_Inr bindE_eq_Inr intro: keeps_size terminates)

lemma alloc_live:
  assumes "wifi_static st"
  shows "gives e wifi_live (wifi_manager_alloc st)"
  unfolding wifi_manager_alloc_def Let_def
  by (rule gives_asks, rule gives_skip)
     (use assms in \<open>auto intro!: gives_rules dest!: cleared_doc
        simp: ptr_of_def wifi_live_def wifi_ok_def wifi_static_def zero_sta_def JSON_IP_INFO_SIZE_def min_def split: if_splits\<close>)

lemma settings_prepare_size: "settings_prepare mac s = Inr s' \<Longrightarrow> length s' = length s"
  by (auto simp: settings_prepare_def bindE_eq_Inr dest!: buf_write_length keeps_size)

lemma init_live:
  assumes "wifi_static st"
  shows "gives e wifi_live (wifi_manager_init st)"
  unfolding wifi_manager_init_def Let_def
proof (rule gives_bind [OF alloc_live [OF assms]])
  fix st
  assume live: "wifi_live st"
  have "wifi_live (st\<lparr>wifi_settings := s\<rparr>)" if "settings_prepare mac (wifi_settings st) = Inr s" for mac s
    using wifi_live_settings [OF live] settings_prepare_size [OF that] wifi_live_sizes(7) [OF live] by simp
  then show "gives e wifi_live (bindC (askIS (Sys EfuseMacGet)) (\<lambda>(_, mac).
     if length mac < 6 then failC Undefined else
     bindC (liftE (settings_prepare mac (wifi_settings st))) (\<lambda>s. thenC m (bindC
       (wifi_manager_fetch_wifi_sta_config (st\<lparr>wifi_settings := s\<rparr>)) (\<lambda>(found, st). thenC (k found st) (ret st))))))" for m k
    by (auto intro!: gives_rules gives_bind [OF fetch_sta_live] split del: if_split)
qed

end
