(* ===== verification/WifiProgress.thy ===== *)
theory WifiProgress
  imports WifiTypes
begin

text \<open>
  Which operations of the Wi-Fi manager and of the web server complete. Most do whatever the
  platform answers; a turn of the Wi-Fi task and its start do when the driver accepts what it is
  asked for and the documents fit their buffers.
\<close>

subsection \<open>Requests, waits and events\<close>

lemma returns_lift: "r = Inr x \<Longrightarrow> returns (liftE r)"
  by (simp add: returns_def liftE_def)

lemma returns_lift_bind: "r = Inr x \<Longrightarrow> returns (f x) \<Longrightarrow> returns (bindC (liftE r) f)"
  by (simp add: returns_def bindC_def liftE_def)

lemma returns_bits [returns_intros]:
  "returns (wm_set b)" "returns (wm_clear b)" "returns wm_get" "returns (LED_SetEventBit b)" "returns (nwrite s)"
  "returns wifi_manager_wait_internet_access" "returns wifi_manager_wait_disconnect" "returns wifi_manager_check_connection_async"
  "returns wifi_manager_unlock_json_buffer" "returns (wifi_manager_lock_json_buffer ticks st)"
  "returns wifi_manager_scan_async" "returns wifi_manager_disconnect_async"
  unfolding wm_set_def wm_clear_def wm_get_def LED_SetEventBit_def nwrite_def wifi_manager_wait_internet_access_def
    wifi_manager_wait_disconnect_def wifi_manager_check_connection_async_def wifi_manager_unlock_json_buffer_def
    wifi_manager_lock_json_buffer_def wifi_manager_scan_async_def wifi_manager_disconnect_async_def
  by (intro returns_intros)+

lemma returns_events [returns_intros]: "returns (wifi_manager_event_handler ev)" "returns wifi_timer_callback"
  unfolding wifi_timer_callback_def by (cases ev; auto intro!: returns_intros)+

subsection \<open>The web server\<close>

lemma returns_document [returns_intros]: "document d \<Longrightarrow> returns (serve_document d)"
  by (auto simp: document_def serve_document_def strlen_def intro!: returns_lift_bind returns_bits)

lemma returns_clear:
  assumes "wifi_live st"
  obtains st' where "wifi_manager_clear_ip_info_json st = Inr st'"
  using assms by (auto simp: wifi_live_def wifi_ok_def document_def wifi_manager_clear_ip_info_json_def strcpy_fits JSON_IP_INFO_SIZE_def)

lemma returns_connect_async: "wifi_live st \<Longrightarrow> returns (wifi_manager_connect_async st)"
  unfolding wifi_manager_connect_async_def
  by (auto elim!: returns_clear intro!: returns_intros returns_lift_bind)

lemma returns_post_connect:
  assumes "wifi_live st"
  shows "returns (post_connect_json s st)"
proof -
  have "returns (wifi_manager_connect_async (st\<lparr>config_sta := Some c\<rparr>))"
    if "length (sta_ssid c) = 32" "length (sta_password c) = 64" for c
    using that by (intro returns_connect_async wifi_live_sta assms)
  moreover have "config_sta st \<noteq> None" using assms by (simp add: wifi_live_def)
  ultimately show ?thesis
    unfolding post_connect_json_code
    by (auto simp: buf_write_padded zero_sta_def MAX_SSID_SIZE_def MAX_PASSWORD_SIZE_def padded_def
        intro!: returns_intros returns_lift_bind split: option.split)
qed

lemma returns_handlers:
  assumes "wifi_live st"
  shows "returns (get_ap_json st)" "returns (get_status_json st)" "returns (delete_connect_json st)"
proof -
  have docs: "document (accessp_json st)" "document (ip_info_json st)" using assms by (simp_all add: wifi_live_def)
  then show "returns (get_ap_json st)" "returns (get_status_json st)" "returns (delete_connect_json st)"
    unfolding get_ap_json_code get_status_json_code delete_connect_json_def by (intro returns_intros; simp add: returns_intros)+
qed

lemma returns_ping: "wifi_live st \<Longrightarrow> returns (pingResults n st)"
  unfolding pingResults_def by (auto intro!: returns_intros returns_connect_async)

subsection \<open>What keeps the mutex and the configuration\<close>

text \<open>The mutex is created at the start and stays; most steps keep the configuration as well.\<close>

lemma connect_async_config:
  "gives e (\<lambda>st'. config_sta st' = config_sta st \<and> json_mutex st' = json_mutex st) (wifi_manager_connect_async st)"
  unfolding wifi_manager_connect_async_def
  by (rule gives_skip, rule gives_bind [where P = "\<lambda>st'. config_sta st' = config_sta st \<and> json_mutex st' = json_mutex st"])
     (auto intro!: gives_rules dest!: cleared_doc)

lemma fetch_sta_mutex: "gives e (\<lambda>(ok, st'). json_mutex st' = json_mutex st) (wifi_manager_fetch_wifi_sta_config st)"
  unfolding wifi_manager_fetch_wifi_sta_config_def Let_def
  by (auto intro!: gives_rules gives_skip [where m = "fetch_field _ _ _ _"] gives_skip [where m = "if config_sta st = None then _ else _"]
      split del: if_split)

lemma status_update_config:
  "gives e (\<lambda>st'. config_sta st' = config_sta st \<and> wifi_settings st' = wifi_settings st \<and> json_mutex st' = json_mutex st)
    (wifi_manager_json_status_update ntoa code st)"
proof -
  have "gives e (\<lambda>st'. config_sta st' = config_sta st \<and> wifi_settings st' = wifi_settings st \<and> json_mutex st' = json_mutex st)
      (wifi_manager_generate_ip_info_json ntoa code st)"
  proof (cases "config_sta st")
    case None
    then show ?thesis
      unfolding wifi_manager_generate_ip_info_json_def by (auto intro!: gives_lift dest!: cleared_doc(1))
  next
    case (Some c)
    then show ?thesis
      unfolding wifi_manager_generate_ip_info_json_def by (auto intro!: gives_lift_bind gives_skip gives_ret)
  qed
  then show ?thesis
    unfolding wifi_manager_json_status_update_def
    by (intro gives_skip gives_if gives_fail gives_bind [where P = "\<lambda>st'. config_sta st' = config_sta st \<and> wifi_settings st' = wifi_settings st \<and> json_mutex st' = json_mutex st"])
       (auto intro: gives_then gives_ret)
qed

lemma turn_mutex: "gives e (\<lambda>st'. json_mutex st' = json_mutex st) (wifi_manager_turn ntoa st)"
proof -
  let ?Q = "\<lambda>st'. json_mutex st' = json_mutex st"
  have update: "gives e ?Q (wifi_manager_json_status_update ntoa code st')" if "?Q st'" for code st'
    using that by (auto intro: gives_weaken [OF status_update_config])
  have connect: "gives e ?Q (wifi_manager_connect_async st')" if "?Q st'" for st'
    using that by (auto intro: gives_weaken [OF connect_async_config])
  have disconnected: "gives e ?Q (turn_disconnect ntoa u st)" for u
    unfolding turn_disconnect_def Let_def
    by (rule gives_then, rule gives_skip, rule gives_bind [OF update]) (auto intro: gives_then gives_ret split: option.split)
  have connected: "gives e ?Q (turn_connect ntoa u st')" if "?Q st'" for u st'
    unfolding turn_connect_def using that
    by (auto intro!: gives_then gives_asks gives_bind [where P = ?Q] gives_ret gives_fail update
        gives_skip [where m = "wifi_manager_save_sta_config _"] gives_skip [where m = wifi_manager_check_connection] split: option.split)
  have scanned: "gives e ?Q (turn_scan u st')" if "?Q st'" for u st'
    unfolding turn_scan_def Let_def
    by (rule gives_bind [where P = ?Q])
       (use that in \<open>auto intro!: gives_rules gives_skip [where m = "askA _"] gives_skip [where m = "wifi_manager_lock_json_buffer _ _"]
        gives_skip [where m = "wifi_manager_filter_unique _ _"]
        simp: wifi_manager_generate_acess_points_json_def with_ptr_Inr bindE_eq_Inr split: if_splits\<close>)
  have pinged: "gives e ?Q (turn_ping st')" if "?Q st'" for st'
    unfolding turn_ping_def
    by (rule gives_skip, rule gives_bind [where P = ?Q])
       (use that in \<open>auto intro!: gives_rules gives_bind [OF fetch_sta_mutex] connect\<close>)
  show ?thesis
    unfolding wifi_manager_turn_def wm_get_def
    by (intro gives_then gives_asks gives_bind [where P = ?Q] gives_if gives_ret disconnected connected scanned pinged refl)
qed

lemma post_connect_mutex: "gives e (\<lambda>st'. json_mutex st' = json_mutex st) (post_connect_json rest st)"
  unfolding post_connect_json_code
  by (auto intro!: gives_rules gives_bind [OF connect_async_config] split: option.split)

lemma serve_mutex: "gives e (\<lambda>st'. json_mutex st' = json_mutex st) (http_server_netconn_serve as st)"
proof -
  let ?Q = "\<lambda>st'. json_mutex st' = json_mutex st"
  have fetched: "gives e (\<lambda>(ok, st'). json_mutex st' = json_mutex st) (wifi_manager_fetch_reg_config st)"
    unfolding wifi_manager_fetch_reg_config_def Let_def
    by (auto intro!: gives_rules gives_skip [where m = "fetch_reg_field _ _ _"])
  have generated: "gives e ?Q (wifi_manager_generate_reg_info_json st')" if "?Q st'" for st'
    unfolding wifi_manager_generate_reg_info_json_def using that
    by (auto intro!: gives_rules gives_skip)
  have register: "gives e ?Q (get_register_json st)"
    unfolding get_register_json_code
    by (rule gives_skip) (auto intro!: gives_bind [where P = ?Q] gives_bind [OF fetched] gives_bind [OF generated] gives_rules)
  have post: "gives e ?Q (post_register_json s st)" for s
    unfolding post_register_json_def Let_def
    by (auto intro!: gives_rules gives_skip [where m = "wifi_manager_save_reg_config _"]
        gives_skip [where m = wifi_manager_connected_to_access_point] split: option.split)
  have "gives e ?Q (serve_request as line s st)" for line s
    unfolding serve_request_def Let_def get_ap_json_code get_status_json_code delete_connect_json_def
    by (intro gives_if gives_then gives_skip [where m = "wifi_manager_lock_json_buffer _ _"] gives_ret
        register post_connect_mutex post refl)
  then show ?thesis
    unfolding http_server_netconn_serve_def
    by (intro gives_skip [where m = "askIS _"]) (auto intro!: gives_bind [where P = ?Q] gives_rules)
qed

lemma pingResults_mutex: "gives e (\<lambda>(err, st'). json_mutex st' = json_mutex st) (pingResults n st)"
  unfolding pingResults_def
  by (auto intro!: gives_if gives_then gives_ret gives_bind [OF connect_async_config])

subsection \<open>The Wi-Fi task\<close>

text \<open>
  What the platform documents when nothing goes wrong: the driver accepts every call, a mutex that
  is waited for without a limit is granted, there is memory, no answer is longer than the room
  offered for it, and an address is printed in at most 15 characters.
\<close>

definition wifi_accepts :: "(string \<Rightarrow> string) \<Rightarrow> env \<Rightarrow> bool" where
  "wifi_accepts ntoa e \<longleftrightarrow>
     (\<forall>tr w. ans_int e tr (Wifi w) = ESP_OK) \<and>
     (\<forall>tr. ans_int e tr (Rtos (MutexTake ''json'' None)) = 1) \<and>
     (\<forall>tr n. ans_int e tr (Sys (Malloc n)) \<noteq> 0) \<and> (\<forall>tr. ans_int e tr (Rtos (MutexCreate ''json'')) \<noteq> 0) \<and>
     (\<forall>tr k n. length (ans_bytes e tr (Sys (NvsGetBlob k n))) \<le> n) \<and>
     (\<forall>tr. length (ans_bytes e tr (Wifi TcpipGetIpInfo)) = 12) \<and>
     (\<forall>tr. length (ans_bytes e tr (Sys EfuseMacGet)) = 6) \<and>
     scan_bounded e \<and> (\<forall>x. length (ntoa x) \<le> 15 \<and> nul \<notin> set (ntoa x))"

text \<open>When the documents fit their buffers: a name may take 55 bytes, a scanned one 22 escapes.\<close>

definition name_fits :: "sta_config option \<Rightarrow> bool" where
  "name_fits config \<longleftrightarrow> (\<forall>c. config = Some c \<longrightarrow>
     length (json_escape (c_str (sta_ssid c @ sta_password c @ [nul]))) \<le> 55)"

definition scans_fit :: "env \<Rightarrow> bool" where
  "scans_fit e \<longleftrightarrow> (\<forall>tr n. list_all (\<lambda>ap. ap_ok ap \<and> escape_characters (ssid ap) \<le> 22)
     (ans_aps e tr (Wifi (WifiScanGetApRecords n))))"

lemma name_fits_zero: "name_fits (Some zero_sta)"
  by (simp add: name_fits_def zero_sta_def c_str_def json_escape_simps)

lemma does_check: "wifi_accepts ntoa e \<Longrightarrow> does e (\<lambda>_. True) (checkC (Wifi w))"
  by (simp add: does_def checkC_def cmd_simps wifi_accepts_def)

lemma returns_quiet [returns_intros]:
  "returns wait_disconnected" "returns (set_sta_config st)" "returns (wifi_manager_save_sta_config st)"
  "returns start_reconnect_timer" "returns wifi_manager_check_connection"
proof -
  have until: "list_all returns ms \<Longrightarrow> returns k \<Longrightarrow> returns (until_error ms k)" for ms k
    by (induction ms) (auto intro!: returns_intros)
  show "returns wait_disconnected" "returns (set_sta_config st)" "returns start_reconnect_timer"
    unfolding wait_disconnected_def set_sta_config_def start_reconnect_timer_def
    by (auto intro!: returns_intros split: option.split)
  then show "returns wifi_manager_check_connection"
    unfolding wifi_manager_check_connection_def wifi_manager_connected_to_access_point_def wifi_manager_ping_test_def Let_def
    by (auto intro!: returns_intros)
  show "returns (wifi_manager_save_sta_config st)"
    unfolding wifi_manager_save_sta_config_def by (auto intro!: until returns_intros split: option.split)
qed

text \<open>The status document.\<close>

lemma does_status_update:
  assumes "wifi_accepts ntoa e" "wifi_live st" "json_mutex st" "name_fits (config_sta st)"
  shows "does e (\<lambda>_. True) (wifi_manager_json_status_update ntoa code st)"
proof -
  have "does e (\<lambda>_. True) (wifi_manager_generate_ip_info_json ntoa code st)"
  proof (cases "config_sta st")
    case None
    then show ?thesis
      using assms(2) by (auto simp: wifi_manager_generate_ip_info_json_def elim!: returns_clear intro: does_lift)
  next
    case (Some c)
    obtain b where b: "ip_info_json st = Some b" "length b = JSON_IP_INFO_SIZE"
      using assms(2) by (auto simp: wifi_live_def wifi_ok_def document_def)
    have fits: "\<exists>b'. bindE (ip_json_head c b) (\<lambda>b. snprintf_at_end b JSON_IP_INFO_SIZE (ip_info_json_format ip netmask gw (urc code))) = Inr b'"
      if "\<forall>x \<in> {ip, netmask, gw}. length x \<le> 15 \<and> nul \<notin> set x" for ip netmask gw
    proof -
      have "length (ip_text c ip netmask gw (urc code)) < JSON_IP_INFO_SIZE"
        using that assms(4) Some by (simp add: ip_text_def json_quoted_def length_ip_format name_fits_def JSON_IP_INFO_SIZE_def)
      then show ?thesis
        using builds_ip_json [OF b(2), of ip netmask gw c code] that by (auto simp: builds_def)
    qed
    then obtain b0 where b0: "ip_json_head c b = Inr b0"
      by (cases "ip_json_head c b") (use fits [of "[]" "[]" "[]"] in auto)
    have short: "does e (\<lambda>_. True) (liftE (snprintf_at_end b0 JSON_IP_INFO_SIZE (ip_info_json_format ip netmask gw (urc code))))"
      if "\<forall>x \<in> {ip, netmask, gw}. length x \<le> 15 \<and> nul \<notin> set x" for ip netmask gw
      using fits [OF that] b0 by (auto intro: does_lift)
    show ?thesis
      unfolding wifi_manager_generate_ip_info_json_def Some option.case b(1)
    proof (rule does_lift_bind [of _ b0], simp add: b0, rule does_bind [where P = "\<lambda>_. True"], rule does_if)
      have codes: "ans_int e tr (Wifi TcpipGetIpInfo) = 0 \<and> length (ans_bytes e tr (Wifi TcpipGetIpInfo)) = 12" for tr
        using assms(1) by (simp add: wifi_accepts_def)
      show "does e (\<lambda>_. True) (bindC (askIS (Wifi TcpipGetIpInfo)) (\<lambda>(r, info).
          thenC (esp_error_check r)
          (if length info < 12 then failC Undefined else
           bindC (liftE (copy_ip ntoa (take 4 info))) (\<lambda>ip.
           bindC (liftE (copy_ip ntoa (take 4 (drop 4 info)))) (\<lambda>netmask.
           bindC (liftE (copy_ip ntoa (take 4 (drop 8 info)))) (\<lambda>gw.
           liftE (snprintf_at_end b0 JSON_IP_INFO_SIZE (ip_info_json_format ip netmask gw (urc code)))))))))"
        by (rule does_asks(2) [where P = "\<lambda>(r, info). r = 0 \<and> length info = 12"])
           (use codes assms(1) in \<open>auto simp: wifi_accepts_def copy_ip_short esp_error_check_def
             intro!: does_then does_ret does_lift_bind short\<close>)
    next
      show "does e (\<lambda>_. True) (liftE (snprintf_at_end b0 JSON_IP_INFO_SIZE (ip_info_json_format ''0'' ''0'' ''0'' (urc code))))"
        by (rule short) simp
    qed (simp add: does_ret)
  qed
  moreover have "does e (\<lambda>ok. ok) (wifi_manager_lock_json_buffer None st)"
    using assms(1,3) by (simp add: does_def wifi_manager_lock_json_buffer_def cmd_simps wifi_accepts_def exI [of _ True])
  ultimately show ?thesis
    unfolding wifi_manager_json_status_update_def
    by (intro does_bind [where P = "\<lambda>ok. ok"] does_if does_bind [where P = "\<lambda>_. True"] does_returns [OF returns_then]
        returns_intros) simp_all
qed

text \<open>A state from which every request can be served.\<close>

definition can_serve :: "wifi_state \<Rightarrow> bool" where
  "can_serve st \<longleftrightarrow> wifi_live st \<and> json_mutex st \<and> name_fits (config_sta st)"

lemma does_status_serve:
  assumes "wifi_accepts ntoa e" "can_serve st"
  shows "does e can_serve (wifi_manager_json_status_update ntoa code st)"
proof -
  have "does e (\<lambda>_. True) (wifi_manager_json_status_update ntoa code st)"
    using assms by (simp add: does_status_update can_serve_def)
  from does_gives [OF does_gives [OF this status_update_live] status_update_config] show ?thesis
    by (rule does_weaken) (use assms(2) in \<open>auto simp: can_serve_def\<close>)
qed

lemma zero_can_serve: "can_serve st \<Longrightarrow> can_serve (st\<lparr>config_sta := Some zero_sta\<rparr>)"
  by (simp add: can_serve_def zero_sta_live name_fits_zero)

text \<open>Leaving the network that is joined.\<close>

lemma does_leave: "wifi_accepts ntoa e \<Longrightarrow>
    does e (\<lambda>_. True) (whenC b (seqC [wm_clear m, checkC (Wifi WifiDisconnect), wait_disconnected]))"
  unfolding whenC_def
  by (intro does_if does_seq) (simp_all add: does_check does_returns returns_intros)

lemma does_turn_disconnect:
  assumes "wifi_accepts ntoa e" "can_serve st"
  shows "does e can_serve (turn_disconnect ntoa u st)"
proof -
  have st: "can_serve (case config_sta st of None \<Rightarrow> st | Some _ \<Rightarrow> st\<lparr>config_sta := Some zero_sta\<rparr>)"
    using assms(2) zero_can_serve by (cases "config_sta st") simp_all
  show ?thesis
    unfolding turn_disconnect_def Let_def
  proof (rule does_then, rule does_seq)
    show "list_all (does e (\<lambda>_. True)) [wm_clear WIFI_MANAGER_HAVE_INTERNET_BIT, LED_SetEventBit LED_EVENT_WIFI_DISCONNECTED_BIT,
        whenC (u AND WIFI_MANAGER_WIFI_CONNECTED_BIT \<noteq> 0)
          (seqC [wm_clear WIFI_MANAGER_STA_DISCONNECT_BIT, checkC (Wifi WifiDisconnect), wait_disconnected]),
        wm_clear WIFI_MANAGER_STA_DISCONNECT_BIT]"
      using does_leave [OF assms(1)] by (simp add: does_returns returns_intros)
  qed (intro does_skip returns_intros does_bind [OF does_status_serve [OF assms(1) st]] does_then does_ret does_returns)
qed

lemma does_turn_connect:
  assumes "wifi_accepts ntoa e" "can_serve st"
  shows "does e can_serve (turn_connect ntoa u st)"
proof -
  note update = does_bind [OF does_status_serve [OF assms]]
  have failed: "does e can_serve (case config_sta st of None \<Rightarrow> failC NullDeref
      | Some _ \<Rightarrow> thenC (wm_set b) (ret (st\<lparr>config_sta := Some zero_sta\<rparr>)))" if "can_serve st" for st b
    using that zero_can_serve [OF that]
    by (cases "config_sta st") (auto simp: can_serve_def wifi_live_def intro!: does_then does_returns returns_intros does_ret)
  show ?thesis
    unfolding turn_connect_def
  proof (rule does_then, rule does_seq)
    show "list_all (does e (\<lambda>_. True)) [whenC (u AND WIFI_MANAGER_WIFI_CONNECTED_BIT = WIFI_MANAGER_WIFI_CONNECTED_BIT)
          (seqC [wm_clear WIFI_MANAGER_STA_DISCONNECT_BIT, checkC (Wifi WifiDisconnect), wait_disconnected]),
        wm_clear WIFI_MANAGER_STA_DISCONNECT_BIT, set_sta_config st, doC (Wifi WifiConnect)]"
      using does_leave [OF assms(1)] by (simp add: does_returns returns_intros)
  qed (intro does_skip [OF returns_atoms(4)] does_bind [where P = can_serve] does_if update does_then does_returns returns_intros
      does_skip [where m = "wifi_manager_save_sta_config _"] does_skip [where m = wifi_manager_check_connection] failed does_ret assms(2))
qed

text \<open>The list of access points: what the filter leaves of a scan still fits.\<close>

lemma unique_aps_fit:
  assumes "list_all (\<lambda>ap. ap_ok ap \<and> escape_characters (ssid ap) \<le> 22) aps" "length aps \<le> MAX_AP_NUM"
  shows "\<forall>ap \<in> set (unique_aps aps). ap_ok ap" "length (''['' @ ap_entries (unique_aps aps)) < 1489"
proof -
  have fits: "ap_ok ap \<and> escape_characters (ssid ap) \<le> 22" if "ap \<in> set (unique_aps aps)" for ap
    using that
  proof (rule unique_aps_from)
    fix b c
    assume "b \<in> set aps" "c \<in> set aps" "ap = b\<lparr>rssi := rssi c\<rparr>"
    then show ?thesis using assms(1) by (auto simp: list_all_iff ap_ok_def)
  qed
  then show ok: "\<forall>ap \<in> set (unique_aps aps). ap_ok ap" by blast
  have "sum_list (map (escape_characters \<circ> ssid) (unique_aps aps)) \<le> sum_list (map (\<lambda>_. 22) (unique_aps aps))"
    by (rule sum_list_mono) (simp add: fits)
  moreover have "length (unique_aps aps) \<le> 15"
    using length_unique_aps [of aps] assms(2) by (simp add: MAX_AP_NUM_def)
  ultimately show "length (''['' @ ap_entries (unique_aps aps)) < 1489"
    using length_ap_entries [OF ok] by (simp add: sum_list_triv)
qed

lemma does_filter:
  assumes "wifi_live st" "length aps \<le> MAX_AP_NUM"
    and "list_all (\<lambda>ap. ap_ok ap \<and> escape_characters (ssid ap) \<le> 22) aps"
    and "accessp_records st = aps @ t" "ap_num st = of_nat (length aps)"
  shows "does e (\<lambda>_. True) (bindC (wifi_manager_filter_unique (accessp_records st) (ap_num st)) (\<lambda>(l, n).
    bindC (liftE (wifi_manager_generate_acess_points_json (st\<lparr>accessp_records := l, ap_num := n\<rparr>))) (\<lambda>st.
    thenC wifi_manager_unlock_json_buffer (ret st))))"
proof (rule does_bind)
  have small: "length aps < 2 ^ 16" using assms(2) by (simp add: MAX_AP_NUM_def)
  let ?P = "\<lambda>(l, n :: u16). \<exists>zs. l = unique_aps aps @ zs @ t \<and> n = word_of_nat (length (unique_aps aps)) \<and>
    length (unique_aps aps) + length zs = length aps"
  show "does e ?P (wifi_manager_filter_unique (accessp_records st) (ap_num st))"
    unfolding does_def assms(4,5)
  proof
    fix tr
    show "\<exists>x cs. wifi_manager_filter_unique (aps @ t) (word_of_nat (length aps)) e tr = Inr (x, tr @ cs) \<and> ?P x"
      using filter_unique_run [OF small, of t e tr] by fastforce
  qed
  fix x
  assume "?P x"
  then obtain zs where x: "x = (unique_aps aps @ zs @ t, word_of_nat (length (unique_aps aps)))"
    and len: "length (unique_aps aps) + length zs = length aps" by auto
  let ?st = "st\<lparr>accessp_records := unique_aps aps @ zs @ t, ap_num := word_of_nat (length (unique_aps aps))\<rparr>"
  have n: "unat (word_of_nat (length (unique_aps aps)) :: u16) = length (unique_aps aps)"
    using len small by (simp add: unat_of_nat take_bit_nat_eq_self)
  have "wifi_live ?st"
    using wifi_live_sizes(1) [OF assms(1)] assms(2,4) len n by (intro wifi_live_aps(1) [OF assms(1)]) simp_all
  then obtain b where ok: "wifi_ok ?st" "accessp_json ?st = Some b"
    by (auto simp: wifi_live_def document_def)
  have "take (unat (ap_num ?st)) (accessp_records ?st) = unique_aps aps" using n by simp
  then obtain st' where "wifi_manager_generate_acess_points_json ?st = Inr st'"
    using access_points_json_builds [OF ok] unique_aps_fit [OF assms(3,2)]
    by (cases "wifi_manager_generate_acess_points_json ?st") (auto simp: builds_def)
  then show "does e (\<lambda>_. True) (case x of (l, n) \<Rightarrow>
      bindC (liftE (wifi_manager_generate_acess_points_json (st\<lparr>accessp_records := l, ap_num := n\<rparr>))) (\<lambda>st.
      thenC wifi_manager_unlock_json_buffer (ret st)))"
    unfolding x prod.case by (intro does_lift_bind does_returns returns_intros)
qed

lemma does_turn_scan:
  assumes accepts: "wifi_accepts ntoa e" "scans_fit e" and "can_serve st"
  shows "does e (\<lambda>_. True) (turn_scan u st)"
proof -
  let ?st = "st\<lparr>ap_num := of_nat MAX_AP_NUM\<rparr>"
  let ?scan = "\<lambda>aps. ?st\<lparr>ap_num := of_nat (length aps), accessp_records := aps @ drop (length aps) (accessp_records ?st)\<rparr>"
  let ?fits = "\<lambda>aps. length aps \<le> MAX_AP_NUM \<and> list_all (\<lambda>ap. ap_ok ap \<and> escape_characters (ssid ap) \<le> 22) aps"
  have live: "wifi_live st" using assms(3) by (simp add: can_serve_def)
  have scanned: "wifi_live (?scan aps)" if "?fits aps" for aps
  proof (rule wifi_live_aps(2))
    show "wifi_live ?st" by (rule wifi_live_aps(3) [OF live]) (simp add: MAX_AP_NUM_def)
  qed (use that wifi_live_sizes(1) [OF live] in \<open>simp_all add: MAX_AP_NUM_def unat_of_nat\<close>)
  have answer: "ans_int e tr (Wifi w) = 0" "?fits (ans_aps e tr (Wifi (WifiScanGetApRecords MAX_AP_NUM)))" for tr w
    using accepts by (simp_all add: wifi_accepts_def scans_fit_def scan_bounded_def)
  have room: "unat (ap_num ?st) = MAX_AP_NUM" by (simp add: MAX_AP_NUM_def)
  have filtered: "does e (\<lambda>_. True) (bindC (wifi_manager_lock_json_buffer ticks (?scan aps)) (\<lambda>ok. if ok
      then bindC (wifi_manager_filter_unique (accessp_records (?scan aps)) (ap_num (?scan aps))) (\<lambda>(l, n).
           bindC (liftE (wifi_manager_generate_acess_points_json ((?scan aps)\<lparr>accessp_records := l, ap_num := n\<rparr>))) (\<lambda>st.
           thenC wifi_manager_unlock_json_buffer (ret st)))
      else ret (?scan aps)))" if "?fits aps" for aps ticks
    by (intro does_skip returns_intros does_if does_filter [OF scanned [OF that]] does_ret) (use that in simp_all)
  have asked: "does e (\<lambda>_. True) (bindC (askA (Wifi (WifiScanGetApRecords MAX_AP_NUM))) (\<lambda>(r, aps). thenC (esp_error_check r) (f aps)))"
    if "\<And>aps. ?fits aps \<Longrightarrow> does e (\<lambda>_. True) (f aps)" for f :: "wifi_ap_record list \<Rightarrow> wifi_state cmd"
    by (rule does_asks(3) [where P = "\<lambda>(r, aps). r = 0 \<and> ?fits aps"])
       (use answer that in \<open>auto simp: esp_error_check_def intro!: does_then does_ret\<close>)
  show ?thesis
    unfolding turn_scan_def Let_def room
    by (intro does_bind [where P = "\<lambda>_. True" and m = "if _ then _ else _"] does_if does_then [OF does_check [OF accepts(1)]]
        asked [OF filtered] does_returns [OF returns_then] returns_intros)
qed

text \<open>The configuration in flash.\<close>

lemma does_fetch_field:
  assumes "wifi_accepts ntoa e" "length dest = n" "n \<le> length buff"
  shows "does e (\<lambda>(ok, b, d). length b = length buff \<and> length d = n) (fetch_field key n buff dest)"
proof -
  have "does e (\<lambda>(r, b, k). length b = length buff \<and> k \<le> n) (get_blob key n buff)"
    unfolding get_blob_def
    by (rule does_asks(2) [where P = "\<lambda>(r, bs). length bs \<le> n"])
       (use assms in \<open>auto simp: wifi_accepts_def buf_write_def intro!: does_ret does_lift_bind\<close>)
  then show ?thesis
    unfolding fetch_field_def
    by (rule does_bind) (use assms(2,3) in \<open>auto simp: buf_write_def intro!: does_ret does_lift_bind\<close>)
qed

lemma does_fetch_sta:
  assumes "wifi_accepts ntoa e"
  shows "does e (\<lambda>_. True) (wifi_manager_fetch_wifi_sta_config st)"
proof -
  have memory: "does e (\<lambda>_. True) (if config_sta st = None then bindC (malloc 96) (\<lambda>(p, _). if p = 0 then failC NullDeref else ret ())
      else ret ())"
    using assms by (auto simp: wifi_accepts_def intro!: does_if does_malloc does_ret)
  have zeros: "\<exists>b. memset buff nul 4 = Inr b \<and> length b = settings_size" if "length buff = settings_size" for buff
    using that by (simp add: memset_def buf_write_def settings_size_def)
  note field = does_bind [OF does_fetch_field [OF assms]]
  have close: "does e (\<lambda>_. True) (thenC (doC c) (ret x))" "does e (\<lambda>_. True) (thenC (seqC [doC c, doC d]) (ret x))"
    for c d and x :: "bool \<times> wifi_state"
    by (intro does_returns returns_intros; simp add: returns_intros)+
  have copy: "does e (\<lambda>_. True) (bindC (liftE (memset buff nul 4)) f)"
    if "length buff = settings_size" "\<And>b. length b = settings_size \<Longrightarrow> does e (\<lambda>_. True) (f b)"
    for buff and f :: "string \<Rightarrow> (bool \<times> wifi_state) cmd"
    using zeros [OF that(1)] that(2) by (auto intro: does_lift_bind)
  show ?thesis
    unfolding wifi_manager_fetch_wifi_sta_config_def Let_def
    by (rule does_skip [OF returns_atoms(3)], rule does_if, rule does_ret, rule TrueI, rule does_bind [OF memory], rule does_malloc)
       (use assms in \<open>auto simp: wifi_accepts_def zero_sta_def settings_size_def intro!: copy field close does_if split del: if_split\<close>)
qed

lemma does_turn_ping:
  assumes "wifi_accepts ntoa e" "wifi_live st"
  shows "does e (\<lambda>_. True) (turn_ping st)"
proof -
  have connect: "does e (\<lambda>_. True) (case config_sta st of None \<Rightarrow> failC NullDeref
      | Some c \<Rightarrow> if c_str (sta_ssid c @ sta_password c @ [nul]) \<noteq> [] then wifi_manager_connect_async st else ret st)"
    if "wifi_live st" for st
    using that by (cases "config_sta st") (auto simp: wifi_live_def [of st] intro!: does_returns returns_intros returns_connect_async that)
  have "does e (\<lambda>_. True) (bindC (wifi_manager_fetch_wifi_sta_config st) (\<lambda>(_, st). case config_sta st of None \<Rightarrow> failC NullDeref
      | Some c \<Rightarrow> if c_str (sta_ssid c @ sta_password c @ [nul]) \<noteq> [] then wifi_manager_connect_async st else ret st))"
    using does_gives [OF does_fetch_sta [OF assms(1)] fetch_sta_live [OF assms(2)]]
    by (rule does_bind) (auto intro: connect)
  then show ?thesis
    unfolding turn_ping_def
    by (intro does_skip [OF returns_quiet(5)] does_bind [where P = "\<lambda>_. True" and m = "if _ then _ else _"] does_if does_ret TrueI
        does_returns [OF returns_then] returns_intros)
qed

text \<open>A turn completes, whatever is requested.\<close>

lemma does_turn:
  assumes "wifi_accepts ntoa e" "scans_fit e" "can_serve st"
  shows "does e (\<lambda>_. True) (wifi_manager_turn ntoa st)"
proof -
  have rest: "does e (\<lambda>_. True) (if b then turn_connect ntoa u st else if b' then turn_scan u st else if b'' then turn_ping st else ret st)"
    if "can_serve st" for b b' b'' u st
    using that does_turn_connect [OF assms(1) that] does_turn_scan [OF assms(1,2) that] does_turn_ping [OF assms(1), of st]
    by (auto simp: can_serve_def intro: does_weaken does_ret)
  have "does e can_serve (if b then turn_disconnect ntoa u st else ret st)" for b u
    using does_turn_disconnect [OF assms(1,3)] assms(3) by (intro does_if does_ret)
  then show ?thesis
    unfolding wifi_manager_turn_def
    by (intro does_skip [OF returns_atoms(4)] does_bind [where P = can_serve] does_bind [OF rest] does_returns returns_intros)
qed

text \<open>The start of the task.\<close>

lemma does_alloc:
  assumes "\<And>tr n. ans_int e tr (Sys (Malloc n)) \<noteq> 0" "\<And>tr. ans_int e tr (Rtos (MutexCreate ''json'')) \<noteq> 0"
  shows "does e json_mutex (wifi_manager_alloc st)"
  unfolding does_def
  by (simp add: assms wifi_manager_alloc_def cmd_simps malloc_run Let_def ptr_of_def wifi_manager_clear_access_points_json_def
    wifi_manager_clear_ip_info_json_def wifi_manager_clear_reg_info_json_def strcpy_fits wifi_sizes)

lemma prepare_fits: "length s = settings_size \<Longrightarrow> \<exists>s'. settings_prepare mac s = Inr s'"
  by (simp add: settings_prepare_def settings_size_def buf_write_def ip4_def sprintf_def fmt_0X_byte)

lemma does_init:
  assumes accepts: "wifi_accepts ntoa e" and "wifi_static st"
  shows "does e (\<lambda>st'. wifi_live st' \<and> json_mutex st') (wifi_manager_init st)"
proof -
  have creates: "ans_int e tr (Sys (Malloc n)) \<noteq> 0" "ans_int e tr (Rtos (MutexCreate ''json'')) \<noteq> 0" for tr n
    using accepts by (simp_all add: wifi_accepts_def)
  have alloc: "does e (\<lambda>st'. json_mutex st' \<and> wifi_live st') (wifi_manager_alloc st)"
    by (rule does_gives [OF does_alloc [OF creates] alloc_live [OF assms(2)]])
  have fetch: "does e (\<lambda>(ok, st'). json_mutex st' = json_mutex st) (wifi_manager_fetch_wifi_sta_config st)" for st
    by (rule does_weaken [OF does_gives [OF does_fetch_sta [OF accepts] fetch_sta_mutex]]) auto
  note check = does_check [OF accepts]
  have address: "does e (\<lambda>_. True) (if b then seqC [checkC (Wifi DhcpcStop), checkC (Wifi w)]
      else bindC (askIB (Wifi DhcpcGetStatus)) (\<lambda>(r, status).
        seqC [esp_error_check r, whenC (status \<noteq> 1) (checkC (Wifi DhcpcStart))]))" for b w
    using accepts by (simp add: does_def cmd_simps wifi_accepts_def checkC_def)
  have started: "does e (\<lambda>_. True) (bindC (askB w) (\<lambda>_. ret ()))" for w
    by (intro does_returns returns_intros)
  have core: "does e json_mutex (bindC (askIS (Sys EfuseMacGet)) (\<lambda>(_, mac).
      if length mac < 6 then failC Undefined else
      bindC (liftE (settings_prepare mac (wifi_settings st))) (\<lambda>s.
      thenC (seqC [doC (Wifi TcpipInit), doC (Rtos (EventGroupCreate WifiGroup)), checkC (Wifi EventLoopInit)])
      (bindC (wifi_manager_fetch_wifi_sta_config (st\<lparr>wifi_settings := s\<rparr>)) (\<lambda>(found, st).
       thenC (seqC (k found st)) (ret st))))))" if st: "json_mutex st \<and> wifi_live st"
    and that: "\<And>found st. list_all (does e (\<lambda>_. True)) (k found st)" for st k
  proof (rule does_asks(2) [where P = "\<lambda>(r, mac). length mac = 6"])
    fix x :: "int \<times> string"
    assume mac: "case x of (r, mac) \<Rightarrow> length mac = 6"
    obtain s where s: "settings_prepare (snd x) (wifi_settings st) = Inr s"
      using prepare_fits [of "wifi_settings st" "snd x"] wifi_live_sizes(7) st by blast
    have boot: "does e (\<lambda>_. True) (seqC [doC (Wifi TcpipInit), doC (Rtos (EventGroupCreate WifiGroup)), checkC (Wifi EventLoopInit)])"
      by (rule does_seq) (simp add: check does_returns returns_atoms)
    have "does e json_mutex (bindC (wifi_manager_fetch_wifi_sta_config (st\<lparr>wifi_settings := s\<rparr>)) (\<lambda>(found, st).
        thenC (seqC (k found st)) (ret st)))"
      using st that by (intro does_bind [OF fetch]) (auto intro!: does_then does_seq does_ret)
    then show "does e json_mutex (case x of (_, mac) \<Rightarrow> if length mac < 6 then failC Undefined else
        bindC (liftE (settings_prepare mac (wifi_settings st))) (\<lambda>s.
        thenC (seqC [doC (Wifi TcpipInit), doC (Rtos (EventGroupCreate WifiGroup)), checkC (Wifi EventLoopInit)])
        (bindC (wifi_manager_fetch_wifi_sta_config (st\<lparr>wifi_settings := s\<rparr>)) (\<lambda>(found, st).
         thenC (seqC (k found st)) (ret st)))))"
      using mac s by (cases x) (simp add: does_lift_bind does_then [OF boot, simplified])
  qed (use accepts in \<open>simp add: wifi_accepts_def\<close>)
  have "does e json_mutex (wifi_manager_init st)"
    unfolding wifi_manager_init_def Let_def
    by (rule does_bind [OF alloc], rule core, assumption)
       (simp add: check address started does_returns returns_intros del: seqC.simps)
  from does_gives [OF this init_live [OF assms(2)]] show ?thesis by (rule does_weaken) simp
qed

end
