(* ===== verification/Registration.thy ===== *)
theory Registration
  imports WifiProgress
begin

text \<open>
  When the requests about the registration complete. Storing one does when it fits its fields.
  Reading it does while none was stored: what was stored cannot be read back without a write past
  the end of a block (\<open>reg_config_fetch_overruns\<close> in \<open>WifiStore\<close>).
\<close>

subsection \<open>Storing\<close>

definition registration_fits :: "string \<Rightarrow> bool" where
  "registration_fits save_ptr \<longleftrightarrow>
     header_len (http_server_get_header save_ptr ''X-Custom-name: '') \<le> JSON_REG_NAME_SIZE \<and>
     header_len (http_server_get_header save_ptr ''X-Custom-email: '') \<le> JSON_REG_EMAIL_SIZE"

lemma returns_save_reg [returns_intros]: "returns (wifi_manager_save_reg_config st)"
  using save_reg_returns by (simp add: returns_def)

lemma returns_post_registration: "document (reg_info_json st) \<Longrightarrow> returns (http_server_post_registration st)"
  unfolding http_server_post_registration_code
  by (auto simp: document_def strlen_def intro!: returns_intros returns_lift_bind)

lemma lift_Inr: "bindC (liftE (Inr x)) f = f x"
  by (rule ext)+ (simp add: bindC_def liftE_def)

lemma returns_post_register:
  assumes "wifi_live st" "registration_fits rest"
  shows "returns (post_register_json rest st)"
proof -
  have len: "length (reg_name (reg_info st)) = 64" "length (reg_email (reg_info st)) = 254"
    using assms(1) by (simp_all add: wifi_live_def wifi_ok_def)
  have clear: "memset (reg_name (reg_info st)) nul JSON_REG_NAME_SIZE = Inr (replicate 64 nul)"
    "memset (reg_email (reg_info st)) nul JSON_REG_EMAIL_SIZE = Inr (replicate 254 nul)"
    using len by (simp_all add: memset_def buf_write_def JSON_REG_NAME_SIZE_def JSON_REG_EMAIL_SIZE_def)
  have copy: "buf_write (replicate 64 nul) 0 name = Inr (padded 64 name)" "buf_write (replicate 254 nul) 0 email = Inr (padded 254 email)"
    if "http_server_get_header rest ''X-Custom-name: '' = Some name" "http_server_get_header rest ''X-Custom-email: '' = Some email"
    for name email
    using that assms(2) by (simp_all add: registration_fits_def header_len_def buf_write_padded JSON_REG_NAME_SIZE_def JSON_REG_EMAIL_SIZE_def)
  have post: "returns (http_server_post_registration (st\<lparr>reg_info := r\<rparr>))" for r
    using assms(1) by (intro returns_post_registration) (simp add: wifi_live_def)
  show ?thesis
  proof (cases "http_server_get_header rest ''X-Custom-name: '' = None \<or> http_server_get_header rest ''X-Custom-email: '' = None \<or>
      http_server_get_header rest ''X-Custom-hidden: '' = None")
    case True
    then show ?thesis
      unfolding post_register_json_def Let_def by (auto intro!: returns_intros split: option.split)
  next
    case False
    then obtain name email hidden where h: "http_server_get_header rest ''X-Custom-name: '' = Some name"
      "http_server_get_header rest ''X-Custom-email: '' = Some email" "http_server_get_header rest ''X-Custom-hidden: '' = Some hidden"
      by auto
    show ?thesis
      unfolding post_register_json_def Let_def h prod.case option.case clear lift_Inr copy [OF h(1,2)]
        wifi_manager_connected_to_access_point_def
      by (auto intro!: returns_intros post)
  qed
qed

subsection \<open>Reading\<close>

text \<open>From here on no name is found in flash; there is memory, and the address has its six bytes.\<close>

definition none_registered :: "env \<Rightarrow> call list \<Rightarrow> bool" where
  "none_registered e tr \<longleftrightarrow> (\<forall>cs. ans_int e (tr @ cs) (Sys (NvsGetBlob ''name'' JSON_REG_EMAIL_SIZE)) \<noteq> ESP_OK \<and>
     ans_int e (tr @ cs) (Sys (Malloc JSON_REG_EMAIL_SIZE)) \<noteq> 0 \<and> length (ans_bytes e (tr @ cs) (Sys EfuseMacGet)) = 6)"

lemma none_registered_later: "none_registered e tr \<Longrightarrow> none_registered e (tr @ ds)"
  by (simp add: none_registered_def)

lemma fetch_none:
  assumes "wifi_live st" "none_registered e tr"
  shows "\<exists>ok st' cs. wifi_manager_fetch_reg_config st e tr = Inr ((ok, st'), tr @ cs) \<and> wifi_live st' \<and>
    hd (reg_name (reg_info st')) = nul \<and> hd (reg_email (reg_info st')) = nul"
proof -
  obtain n m where n: "length (reg_name (reg_info st)) = Suc n" "length (reg_email (reg_info st)) = Suc m"
    using assms(1) by (simp add: wifi_live_def wifi_ok_def)
  have none: "ans_int e (tr @ cs) (Sys (NvsGetBlob ''name'' JSON_REG_EMAIL_SIZE)) \<noteq> 0"
    "ans_int e (tr @ cs) (Sys (Malloc JSON_REG_EMAIL_SIZE)) \<noteq> 0" for cs
    using assms(2) by (simp_all add: none_registered_def)
  define st1 where "st1 = st\<lparr>reg_info := (reg_info st)\<lparr>reg_name := nul # drop 1 (reg_name (reg_info st)),
    reg_email := nul # drop 1 (reg_email (reg_info st))\<rparr>\<rparr>"
  have "wifi_live st1" "hd (reg_name (reg_info st1)) = nul" "hd (reg_email (reg_info st1)) = nul"
    using assms(1) n unfolding st1_def by (auto intro!: wifi_live_reg simp: wifi_live_def wifi_ok_def)
  moreover have "\<exists>ok cs. wifi_manager_fetch_reg_config st e tr = Inr ((ok, st1), tr @ cs)"
    using n none none [of "[_]", simplified] none [of "[_, _]", simplified]
    by (auto simp: wifi_manager_fetch_reg_config_def fetch_reg_field_def get_blob_def cmd_simps buf_write_fits st1_def)
  ultimately show ?thesis by blast
qed

lemma generate_blank:
  assumes "wifi_live st" "none_registered e tr" "hd (reg_name (reg_info st)) = nul" "hd (reg_email (reg_info st)) = nul"
  shows "\<exists>st' cs. wifi_manager_generate_reg_info_json st e tr = Inr (st', tr @ cs) \<and> document (reg_info_json st')"
proof -
  obtain b where b: "reg_info_json st = Some b" "length b = JSON_REG_INFO_SIZE"
    using assms(1) by (auto simp: wifi_live_def wifi_ok_def document_def)
  obtain n m where nm: "reg_name (reg_info st) = nul # n" "reg_email (reg_info st) = nul # m"
    using assms(1,3,4) by (cases "reg_name (reg_info st)"; cases "reg_email (reg_info st)") (auto simp: wifi_live_def wifi_ok_def)
  have mac: "length (ans_bytes e tr (Sys EfuseMacGet)) = 6"
    using assms(2) none_registered_def [of e tr] by (metis append_Nil2)
  have "length (reg_text (reg_info st) (ans_bytes e tr (Sys EfuseMacGet))) = 73"
    unfolding length_reg_text by (simp add: nm c_str_def json_escape_simps)
  then obtain b' where "reg_json_fill (reg_info st) (ans_bytes e tr (Sys EfuseMacGet)) b = Inr b'"
    using builds_reg_json [OF b(2), of "reg_info st" "ans_bytes e tr (Sys EfuseMacGet)"]
    by (auto simp: builds_def JSON_REG_INFO_SIZE_def JSON_REG_NAME_SIZE_def JSON_REG_EMAIL_SIZE_def JSON_MAP_VIS_SIZE_def JSON_MAC_ADR_SIZE_def)
  then show ?thesis
    using b(1) mac reg_json_fill_size by (auto simp: wifi_manager_generate_reg_info_json_def cmd_simps)
qed

lemma get_register_returns:
  assumes "wifi_live st" "none_registered e tr"
  shows "\<exists>st' cs. get_register_json st e tr = Inr (st', tr @ cs)"
proof -
  obtain ok ls where lock: "wifi_manager_lock_json_buffer (Some 10) st e tr = Inr (ok, tr @ ls)"
    using returnsE [OF returns_bits(10)] .
  have unlock: "\<exists>cs. wifi_manager_unlock_json_buffer e t = Inr ((), t @ cs)" for t
    by (metis returnsE [OF returns_bits(9)] old.unit.exhaust)
  show ?thesis
  proof (cases ok)
    case False
    then show ?thesis using lock unlock [of "tr @ ls"] by (auto simp: get_register_json_code cmd_simps)
  next
    case True
    note later = none_registered_later [OF assms(2)]
    obtain ok' st1 fs where fetch: "wifi_manager_fetch_reg_config st e (tr @ ls) = Inr ((ok', st1), (tr @ ls) @ fs)" "wifi_live st1"
      "hd (reg_name (reg_info st1)) = nul" "hd (reg_email (reg_info st1)) = nul"
      using fetch_none [OF assms(1) later] by blast
    obtain st2 gs where doc: "wifi_manager_generate_reg_info_json st1 e ((tr @ ls) @ fs) = Inr (st2, ((tr @ ls) @ fs) @ gs)"
      "document (reg_info_json st2)"
      using generate_blank [OF fetch(2) later [of "ls @ fs"] fetch(3,4)] by auto
    obtain d where d: "reg_info_json st2 = Some d" "nul \<in> set d" using doc(2) by (auto simp: document_def)
    define send where "send = seqC [nwrite http_ok_json_no_cache_hdr, serve_document (Some d), wifi_manager_unlock_json_buffer]"
    have "returns send" unfolding send_def using d(2) by (auto intro!: returns_intros)
    then obtain ss where "send e (((tr @ ls) @ fs) @ gs) = Inr ((), (((tr @ ls) @ fs) @ gs) @ ss)"
      by (metis returnsE old.unit.exhaust)
    then show ?thesis
      using True lock fetch(1) doc(1) d(1) unlock [of "tr @ ls @ fs @ gs @ ss"]
      by (auto simp: get_register_json_code bindC_run thenC_run cmd_run send_def [symmetric] simp del: seqC.simps)
  qed
qed

subsection \<open>Serving\<close>

definition request_fits :: "env \<Rightarrow> call list \<Rightarrow> string \<Rightarrow> string \<Rightarrow> bool" where
  "request_fits e tr line save_ptr \<longleftrightarrow>
     (strstr line ''GET /register.json '' \<noteq> None \<longrightarrow> none_registered e tr) \<and>
     (strstr line ''POST /register.json '' \<noteq> None \<longrightarrow> registration_fits save_ptr)"

lemma serve_completes:
  assumes "wifi_live st" "request_fits e tr line rest"
  shows "\<exists>st' cs. serve_request as line rest st e tr = Inr (st', tr @ cs)"
proof -
  note handlers = returns_handlers [OF assms(1)] returns_post_connect [OF assms(1)] returns_post_register [OF assms(1)]
  show ?thesis
  proof (cases "is_get_register line")
    case True
    then show ?thesis
      using get_register_returns [OF assms(1)] assms(2) by (simp add: serve_register request_fits_def is_get_register_def)
  next
    case False
    have page: "returns (thenC (seqC [nwrite a, nwrite b]) (ret st))" for a b by (intro returns_intros) (simp add: returns_intros)
    have bad: "returns (thenC (nwrite a) (ret st))" for a by (intro returns_intros)
    have post: "returns (post_register_json rest st)" if "strstr line ''POST /register.json '' \<noteq> None"
      using that assms(2) by (intro handlers(5)) (simp add: request_fits_def)
    have "returns (serve_request as line rest st)"
      unfolding serve_request_def Let_def
      by (intro returns_if page bad post handlers(1-4); assumption?)
         (use False in \<open>simp add: is_get_register_def\<close>)
    then show ?thesis unfolding returns_def by blast
  qed
qed

end
