(* ===== verification/Firmware.thy ===== *)
theory Firmware
  imports Pm Hdc1080 Mics4514 Led TimeIf AppUtils Sd Gps Mqtt
begin

text \<open>
  The entry point and the data task, \<open>main/main.c\<close>: the initialisations in their order, the
  polling of the sensors, the packets made of the readings, and where they go.

  The build configuration is a parameter; its texts hold no percent sign, so that they stand for
  themselves in a format.
\<close>

subsection \<open>Formatting\<close>

text \<open>
  \<open>%.pf\<close> of a finite value: the exact decimal expansion rounded to \<open>p\<close> digits, ties to even, as
  the C library prints it.
\<close>

definition fmt_f :: "nat \<Rightarrow> rat \<Rightarrow> string" where
  "fmt_f p x =
     (let n = nat (rne (\<bar>x\<bar> * 10 ^ p))
      in (if x < 0 then ''-'' else []) @ fmt_u (n div 10 ^ p) @ ''.'' @ pad0 p (fmt_u (n mod 10 ^ p)))"

text \<open>\<open>%zu\<close> of an \<open>int\<close>: its 32 bits as an unsigned number.\<close>

definition fmt_zu :: "int \<Rightarrow> string" where
  "fmt_zu i = fmt_u (nat (i mod 2 ^ 32))"

subsection \<open>The code\<close>

definition MQTT_PKT_LEN :: nat where "MQTT_PKT_LEN = 256"

record build =
  mqtt_cfg :: mqtt_build
  CONFIG_INFLUX_MEASUREMENT_NAME :: string
  CONFIG_DATA_UPLOAD_PERIOD :: nat
  CONFIG_SD_DATA_STORE :: bool
  CONFIG_SD_CARD_DEBUG :: bool

text \<open>The globals the data task works with.\<close>

record firmware =
  DEVICE_MAC :: string
  fw_pm :: pm_state
  fw_gps :: esp_gps
  fw_sd :: sd_state
  fw_mqtt :: mqtt_state
  last_publish :: u32

text \<open>The local variables of the data task that live from turn to turn.\<close>

record readings =
  pm_dat :: pm_data
  temp :: rat
  hum :: rat
  co :: int
  nox :: int
  gps :: esp_gps

definition MQTT_PKT :: "build \<Rightarrow> string \<Rightarrow> string \<Rightarrow> nat \<Rightarrow> readings \<Rightarrow> string" where
  "MQTT_PKT cfg mac version uptime r =
     CONFIG_INFLUX_MEASUREMENT_NAME cfg @ '',ID='' @ mac @ '',SensorModel=H2+'' @ version @ '' SecActive='' @ fmt_u uptime @
     '',Altitude='' @ fmt_f 2 (alt (gps r)) @ '',Latitude='' @ fmt_f 4 (lat (gps r)) @ '',Longitude='' @ fmt_f 4 (lon (gps r)) @
     '',PM1='' @ fmt_f 2 (pm1 (pm_dat r)) @ '',PM2.5='' @ fmt_f 2 (pm2_5 (pm_dat r)) @ '',PM10='' @ fmt_f 2 (pm10 (pm_dat r)) @
     '',Temperature='' @ fmt_f 2 (temp r) @ '',Humidity='' @ fmt_f 2 (hum r) @
     '',CO='' @ fmt_zu (co r) @ '',NO='' @ fmt_zu (nox r)"

definition SD_PKT :: "string \<Rightarrow> string \<Rightarrow> string \<Rightarrow> nat \<Rightarrow> readings \<Rightarrow> string" where
  "SD_PKT time mac topic uptime r =
     time @ '','' @ mac @ '','' @ topic @ '','' @ fmt_u uptime @ '','' @
     fmt_f 2 (alt (gps r)) @ '','' @ fmt_f 4 (lat (gps r)) @ '','' @ fmt_f 4 (lon (gps r)) @ '','' @
     fmt_f 2 (pm1 (pm_dat r)) @ '','' @ fmt_f 2 (pm2_5 (pm_dat r)) @ '','' @ fmt_f 2 (pm10 (pm_dat r)) @ '','' @
     fmt_f 2 (temp r) @ '','' @ fmt_f 2 (hum r) @ '','' @ fmt_d (co r) @ '','' @ fmt_d (nox r) @ [lf]"

definition panic_task :: "unit cmd" where
  "panic_task = thenC (doC (Rtos (TaskDelay (60 * 60 * 1000)))) (failC Aborted)"

text \<open>
  Polling. What a failed poll leaves in the variables is reported all the same: the return codes
  are not looked at.
\<close>

definition data_poll :: "readings \<Rightarrow> firmware \<Rightarrow> (readings \<times> firmware) cmd" where
  "data_poll r fw =
     (let (_, pm, pmst) = PMS_Poll (pm_dat r) (fw_pm fw) in
      bindC (HDC1080_Poll (temp r) (hum r)) (\<lambda>(_, t, h).
      bindC MICS4514_Poll (\<lambda>(n, c).
      ret (r\<lparr>pm_dat := pm, temp := t, hum := h, nox := n, co := c, gps := GPS_Poll (gps r) (fw_gps fw)\<rparr>,
           fw\<lparr>fw_pm := pmst\<rparr>))))"

text \<open>
  The record on the SD card, stamped with the time of the GPS when its date can be one, and with
  the time since the start otherwise. The calendar time is only logged.
\<close>

definition sd_time :: "nat \<Rightarrow> esp_gps \<Rightarrow> string" where
  "sd_time uptime g =
     (if gps_year g \<le> 18 \<or> 80 \<le> gps_year g
      then let hr = uptime div 3600; rm = uptime mod 3600; min = rm div 60; sec = rm mod 60
           in fmt_u hr @ '':'' @ fmt_0d 2 min @ '':'' @ fmt_0d 2 sec
      else fmt_0d 2 (unat (gps_hour g)) @ '':'' @ fmt_0d 2 (unat (gps_min g)) @ '':'' @ fmt_0d 2 (unat (gps_sec g)))"

definition data_store :: "build \<Rightarrow> nat \<Rightarrow> string \<Rightarrow> readings \<Rightarrow> firmware \<Rightarrow> firmware cmd" where
  "data_store cfg uptime pkt r fw =
     bindC (askB (Sys Time)) (\<lambda>_.
     bindC (liftE (sprintf (replicate 64 nul) 0 (sd_time uptime (gps r)))) (\<lambda>strftime_buf.
     bindC (liftE (sprintf pkt 0 (SD_PKT (c_str strftime_buf) (c_str (DEVICE_MAC fw)) (MQTT_DATA_PUB_TOPIC (mqtt_cfg cfg)) uptime r))) (\<lambda>pkt.
     bindC (sd_write_data (c_str pkt) (gps_year (gps r)) (gps_month (gps r)) (gps_day (gps r))) (\<lambda>_.
     bindC (periodic_timer_callback (CONFIG_SD_CARD_DEBUG cfg) (fw_sd fw)) (\<lambda>sd.
     ret (fw\<lparr>fw_sd := sd\<rparr>))))))"

definition data_report :: "build \<Rightarrow> string \<Rightarrow> readings \<Rightarrow> firmware \<Rightarrow> firmware cmd" where
  "data_report cfg version r fw =
     bindC (askI (Sys TimerGetTime)) (\<lambda>t.
     let uptime = nat (c_div t 1000000 mod 2 ^ 64) in
     bindC (malloc MQTT_PKT_LEN) (\<lambda>(p, pkt).
     if p = 0 then failC NullDeref else
     bindC (liftE (sprintf pkt 0 (MQTT_PKT cfg (c_str (DEVICE_MAC fw)) version uptime r))) (\<lambda>pkt.
     bindC (MQTT_Publish_Data (mqtt_cfg cfg) (c_str pkt) (fw_mqtt fw)) (\<lambda>err.
     bindC (if err \<ge> ESP_OK then ret (fw\<lparr>last_publish := word_of_nat uptime\<rparr>)
            else thenC wifi_manager_check_connection_async (ret fw)) (\<lambda>fw.
     bindC (if CONFIG_SD_DATA_STORE cfg then data_store cfg uptime pkt r fw else ret fw) (\<lambda>fw.
     thenC (doC (Sys (Free p))) (ret fw)))))))"

text \<open>The task: the version of the running image, read once, and one turn of the loop.\<close>

definition data_task_start :: "string cmd" where
  "data_task_start = bindC (askIS (Web OtaAppDescription)) (\<lambda>(_, version). ret version)"

definition data_task_turn :: "build \<Rightarrow> string \<Rightarrow> readings \<Rightarrow> firmware \<Rightarrow> (readings \<times> firmware) cmd" where
  "data_task_turn cfg version r fw =
     thenC (doC (Rtos (TaskDelay (CONFIG_DATA_UPLOAD_PERIOD cfg * 1000))))
     (bindC (data_poll r fw) (\<lambda>(r, fw).
      bindC (data_report cfg version r fw) (\<lambda>fw. ret (r, fw))))"

text \<open>
  The entry point starts the tasks and goes on with what needs them: its second part runs beside
  them.
\<close>

definition app_main_start :: "build \<Rightarrow> firmware \<Rightarrow> firmware cmd" where
  "app_main_start cfg fw =
     bindC (APP_Initialize (DEVICE_MAC fw)) (\<lambda>mac.
     thenC LED_Initialize
     (bindC GPS_Initialize (\<lambda>_.
      bindC (PMS_Initialize (fw_pm fw)) (\<lambda>(_, pm).
      bindC HDC1080_Initialize (\<lambda>_.
      thenC MICS4514_Initialize
      (bindC (SD_Initialize (CONFIG_SD_CARD_DEBUG cfg) (fw_sd fw)) (\<lambda>(_, sd).
       thenC (seqC (map (\<lambda>t. doC (Rtos (TaskCreate t)))
         [''led_task'', ''Data_task'', ''http_server'', ''wifi_manager'', ''ota_task'', ''panic'']))
         (ret (fw\<lparr>DEVICE_MAC := mac, fw_pm := pm, fw_sd := sd\<rparr>)))))))))"

definition app_main_rest :: "firmware \<Rightarrow> unit cmd" where
  "app_main_rest fw =
     thenC (doC (Rtos (TaskDelay 1000)))
     (bindC SNTP_Initialize (\<lambda>_. MQTT_Initialize (fw_mqtt fw)))"

definition app_main :: "build \<Rightarrow> firmware \<Rightarrow> firmware cmd" where
  "app_main cfg fw = bindC (app_main_start cfg fw) (\<lambda>fw. thenC (app_main_rest fw) (ret fw))"

subsection \<open>Sizes\<close>

lemma rne_le_int: "x \<le> of_int n \<Longrightarrow> rne x \<le> n"
proof -
  assume x: "x \<le> of_int n"
  show ?thesis
  proof (cases "\<lfloor>x\<rfloor> = n")
    case True
    then have "x = of_int n" using x by linarith
    then show ?thesis by simp
  next
    case False
    then have "\<lfloor>x\<rfloor> + 1 \<le> n" using x by linarith
    then show ?thesis by (auto simp: rne_def Let_def)
  qed
qed

lemma length_pad0: "length (pad0 w s) = max w (length s)"
  by (simp add: pad0_def)

lemma length_fmt_f:
  assumes "\<bar>x\<bar> \<le> 10 ^ k - 1" "0 < k" "0 < p"
  shows "length (fmt_f p x) \<le> k + p + 2"
proof -
  define n where "n = nat (rne (\<bar>x\<bar> * 10 ^ p))"
  have "\<bar>x\<bar> * 10 ^ p \<le> (10 ^ k - 1) * 10 ^ p" using assms(1) by (intro mult_right_mono) auto
  then have "\<bar>x\<bar> * 10 ^ p \<le> of_int ((10 ^ k - 1) * 10 ^ p)" by simp
  then have "rne (\<bar>x\<bar> * 10 ^ p) \<le> (10 ^ k - 1) * 10 ^ p" by (rule rne_le_int)
  also have "\<dots> < 10 ^ k * 10 ^ p" by simp
  finally have "nat (rne (\<bar>x\<bar> * 10 ^ p)) < nat (10 ^ k * 10 ^ p)" by (subst nat_mono_iff) simp_all
  then have "n < 10 ^ k * 10 ^ p" by (simp add: n_def nat_mult_distrib nat_power_eq)
  then have "n div 10 ^ p < 10 ^ k" by (simp add: less_mult_imp_div_less)
  then have "length (fmt_u (n div 10 ^ p)) \<le> k" using assms(2) by (rule length_fmt_u)
  moreover have "length (fmt_u (n mod 10 ^ p)) \<le> p" using assms(3) by (intro length_fmt_u) auto
  ultimately show ?thesis by (simp add: fmt_f_def Let_def length_pad0 n_def [symmetric])
qed

lemma length_fmt_zu: "0 \<le> i \<Longrightarrow> i < 4096 \<Longrightarrow> length (fmt_zu i) \<le> 4"
  unfolding fmt_zu_def by (rule length_fmt_u) simp_all

lemma length_fmt_d_adc: "0 \<le> i \<Longrightarrow> i < 4096 \<Longrightarrow> length (fmt_d i) \<le> 4"
  unfolding fmt_d_def by (simp add: length_fmt_u)

lemma nul_notin_pad0: "nul \<notin> set s \<Longrightarrow> nul \<notin> set (pad0 w s)"
  by (simp add: pad0_def)

lemma nul_notin_fmt:
  "nul \<notin> set (fmt_f p x)" "nul \<notin> set (fmt_zu i)" "nul \<notin> set (fmt_0d w n)"
  by (simp_all add: fmt_f_def Let_def nul_notin_fmt_u nul_notin_pad0 fmt_zu_def fmt_0d_def)

text \<open>
  The ranges of the readings: the altitude below 100 km, mass concentrations that 16 bits can
  hold (or the \<open>- 1\<close> of a failed poll), the range of the temperature sensor, and 12-bit
  conversions.
\<close>

definition in_range :: "readings \<Rightarrow> bool" where
  "in_range r \<longleftrightarrow> \<bar>alt (gps r)\<bar> \<le> 99999 \<and> \<bar>lat (gps r)\<bar> \<le> 99 \<and> \<bar>lon (gps r)\<bar> \<le> 999 \<and>
     \<bar>pm1 (pm_dat r)\<bar> \<le> 99999 \<and> \<bar>pm2_5 (pm_dat r)\<bar> \<le> 99999 \<and> \<bar>pm10 (pm_dat r)\<bar> \<le> 99999 \<and>
     \<bar>temp r\<bar> \<le> 999 \<and> \<bar>hum r\<bar> \<le> 999 \<and> 0 \<le> co r \<and> co r < 4096 \<and> 0 \<le> nox r \<and> nox r < 4096"

lemma in_range_lengths:
  assumes "in_range r"
  shows "length (fmt_f 2 (alt (gps r))) \<le> 9" "length (fmt_f 4 (lat (gps r))) \<le> 8" "length (fmt_f 4 (lon (gps r))) \<le> 9"
    "length (fmt_f 2 (pm1 (pm_dat r))) \<le> 9" "length (fmt_f 2 (pm2_5 (pm_dat r))) \<le> 9" "length (fmt_f 2 (pm10 (pm_dat r))) \<le> 9"
    "length (fmt_f 2 (temp r)) \<le> 7" "length (fmt_f 2 (hum r)) \<le> 7"
    "length (fmt_zu (co r)) \<le> 4" "length (fmt_zu (nox r)) \<le> 4" "length (fmt_d (co r)) \<le> 4" "length (fmt_d (nox r)) \<le> 4"
  using assms length_fmt_f [of _ 5 2] length_fmt_f [of _ 2 4] length_fmt_f [of _ 3 4] length_fmt_f [of _ 3 2]
  by (simp_all add: in_range_def length_fmt_zu length_fmt_d_adc)

lemma MQTT_PKT_fits:
  assumes "in_range r" "uptime < 10 ^ 13" "length mac = 12" "length version \<le> 31"
    and "length (CONFIG_INFLUX_MEASUREMENT_NAME cfg) \<le> 13"
  shows "length (MQTT_PKT cfg mac version uptime r) < MQTT_PKT_LEN"
proof -
  have "length (fmt_u uptime) \<le> 13" using assms(2) by (rule length_fmt_u) simp
  then show ?thesis
    using in_range_lengths [OF assms(1)] assms(3-5) by (simp add: MQTT_PKT_def MQTT_PKT_LEN_def)
qed

lemma length_sd_time:
  assumes "uptime < 10 ^ 13"
  shows "length (sd_time uptime g) \<le> 16" "nul \<notin> set (sd_time uptime g)"
proof -
  have hr: "length (fmt_u (uptime div 3600)) \<le> 10" using assms by (intro length_fmt_u) simp_all
  have two: "length (fmt_0d 2 n) \<le> 3" if "n < 1000" for n
    using length_fmt_u [of n 3] that by (simp add: fmt_0d_def length_pad0)
  have byte: "length (fmt_0d 2 (unat b)) \<le> 3" for b :: u8 using unat_u8_less [of b] by (intro two) simp
  have small: "length (fmt_0d 2 n) \<le> 2" if "n < 60" for n using that by (simp add: fmt_0d_two)
  have "uptime mod 3600 div 60 < 60" "uptime mod 3600 mod 60 < 60" by (simp_all add: less_mult_imp_div_less)
  note small [OF this(1)] small [OF this(2)]
  then show "length (sd_time uptime g) \<le> 16"
    using hr byte [of "gps_hour g"] byte [of "gps_min g"] byte [of "gps_sec g"] by (auto simp: sd_time_def Let_def)
  show "nul \<notin> set (sd_time uptime g)" by (auto simp: sd_time_def Let_def nul_notin_fmt nul_notin_fmt_u)
qed

lemma SD_PKT_fits:
  assumes "in_range r" "uptime < 10 ^ 13" "length mac = 12" "length topic \<le> 100"
  shows "length (SD_PKT (sd_time uptime g) mac topic uptime r) < MQTT_PKT_LEN"
proof -
  have "length (fmt_u uptime) \<le> 13" using assms(2) by (rule length_fmt_u) simp
  then show ?thesis
    using in_range_lengths [OF assms(1)] assms(3,4) length_sd_time(1) [OF assms(2), of g]
    by (simp add: SD_PKT_def MQTT_PKT_LEN_def)
qed

text \<open>The printed number is within half a unit of its last digit.\<close>

lemma fmt_f_nearest:
  "\<exists>n. fmt_f p x = (if x < 0 then ''-'' else []) @ fmt_u (n div 10 ^ p) @ ''.'' @ pad0 p (fmt_u (n mod 10 ^ p)) \<and>
       \<bar>of_nat n / 10 ^ p - \<bar>x\<bar>\<bar> \<le> 1 / (2 * 10 ^ p)"
proof -
  define i where "i = rne (\<bar>x\<bar> * 10 ^ p)"
  have "0 \<le> i" unfolding i_def by (rule rne_mono_int) simp
  then have n: "(of_nat (nat i) :: rat) = of_int i" by simp
  have pos: "(0 :: rat) < 10 ^ p" by simp
  have "\<bar>of_int i / 10 ^ p - \<bar>x\<bar>\<bar> = \<bar>of_int i - \<bar>x\<bar> * 10 ^ p\<bar> / 10 ^ p"
    using pos by (metis abs_divide abs_of_pos diff_divide_distrib nonzero_mult_div_cancel_right order_less_imp_not_eq2)
  also have "\<dots> \<le> (1 / 2) / 10 ^ p"
    using rne_error [of "\<bar>x\<bar> * 10 ^ p"] pos by (intro divide_right_mono) (simp_all add: i_def)
  finally have "\<bar>of_nat (nat i) / 10 ^ p - \<bar>x\<bar>\<bar> \<le> 1 / (2 * 10 ^ p)" by (simp add: n)
  then show ?thesis by (intro exI [of _ "nat i"]) (simp add: fmt_f_def Let_def i_def)
qed

subsection \<open>Reports\<close>

lemma nul_notin_packets:
  assumes "nul \<notin> set mac"
  shows "nul \<notin> set version \<Longrightarrow> nul \<notin> set (CONFIG_INFLUX_MEASUREMENT_NAME cfg) \<Longrightarrow> nul \<notin> set (MQTT_PKT cfg mac version uptime r)"
    and "nul \<notin> set topic \<Longrightarrow> nul \<notin> set time \<Longrightarrow> nul \<notin> set (SD_PKT time mac topic uptime r)"
  using assms by (simp_all add: MQTT_PKT_def SD_PKT_def nul_notin_fmt nul_notin_fmt_u nul_notin_fmt_d)

text \<open>Printing into a buffer that is large enough.\<close>

lemma sprintf_fits:
  assumes "length txt < length b" "nul \<notin> set txt"
  shows "\<exists>b'. sprintf b 0 txt = Inr b' \<and> c_str b' = txt \<and> length b' = length b"
proof -
  have "sprintf b 0 txt = Inr (txt @ nul # drop (Suc (length txt)) b)"
    using assms(1) by (simp add: sprintf_def buf_write_def)
  then show ?thesis using assms takeWhile_no [OF assms(2)] by (simp add: c_str_def)
qed

lemma returns_log_file [returns_intros]: "returns (getLogFileInstance st)" "returns (releaseLogFileInstance st)"
proof -
  show release: "returns (releaseLogFileInstance st)" for st
    unfolding releaseLogFileInstance_def by (intro returns_intros)
  show "returns (getLogFileInstance st)"
    unfolding getLogFileInstance_def by (intro returns_intros release)
qed

lemma returns_periodic [returns_intros]: "returns (periodic_timer_callback dbg st)"
  unfolding periodic_timer_callback_def log_shift_loop_empty by (intro returns_intros; simp add: returns_intros)

definition recorded :: "env \<Rightarrow> call list \<Rightarrow> string \<Rightarrow> string \<Rightarrow> call list \<Rightarrow> bool" where
  "recorded e tr fn pkt cs \<longleftrightarrow> (let f = ans_int e (tr @ [Sys Time, Fs (Stat fn)]) (Fs (Fopen fn ''a'')) in
     \<exists>ds. cs = [Sys Time, Fs (Stat fn), Fs (Fopen fn ''a'')] @ ds \<and> (f \<noteq> 0 \<longrightarrow> Fs (Fprintf f pkt) \<in> set ds))"

lemma sd_write_calls:
  fixes year month day e tr
  defines "fn \<equiv> sd_filename year month day"
  defines "f \<equiv> ans_int e (tr @ [Fs (Stat fn)]) (Fs (Fopen fn ''a''))"
  shows "\<exists>r ds. sd_write_data pkt year month day e tr = Inr (r, tr @ [Fs (Stat fn), Fs (Fopen fn ''a'')] @ ds) \<and>
    (f \<noteq> 0 \<longrightarrow> Fs (Fprintf f pkt) \<in> set ds)"
proof -
  obtain b where b: "sprintf (replicate 64 nul) 0 (sd_filename year month day) = Inr b" "c_str b = fn"
    using sd_filename_fits unfolding fn_def by blast
  have f: "f = ans_int e (tr @ [Fs (Stat fn)]) (Fs (Fopen fn ''a''))" by (simp add: f_def)
  show ?thesis
    by (cases "f = 0"; cases "ans_int e tr (Fs (Stat fn)) = 0")
       (simp_all add: sd_write_data_def cmd_simps b f [symmetric])
qed

lemma data_store_records:
  assumes "length pkt = MQTT_PKT_LEN" "in_range r" "uptime < 10 ^ 13" "holds 13 mac (DEVICE_MAC fw)" "length mac = 12"
    and topic: "nul \<notin> set (MQTT_DATA_PUB_TOPIC (mqtt_cfg cfg))" "length (MQTT_DATA_PUB_TOPIC (mqtt_cfg cfg)) \<le> 100"
  shows "\<exists>sd cs. data_store cfg uptime pkt r fw e tr = Inr (fw\<lparr>fw_sd := sd\<rparr>, tr @ cs) \<and>
    recorded e tr (sd_filename (gps_year (gps r)) (gps_month (gps r)) (gps_day (gps r)))
      (SD_PKT (sd_time uptime (gps r)) mac (MQTT_DATA_PUB_TOPIC (mqtt_cfg cfg)) uptime r) cs"
proof -
  let ?g = "gps r"
  let ?fn = "sd_filename (gps_year ?g) (gps_month ?g) (gps_day ?g)"
  let ?txt = "SD_PKT (sd_time uptime ?g) mac (MQTT_DATA_PUB_TOPIC (mqtt_cfg cfg)) uptime r"
  let ?f = "ans_int e (tr @ [Sys Time, Fs (Stat ?fn)]) (Fs (Fopen ?fn ''a''))"
  note time = length_sd_time [OF assms(3), of ?g]
  have mac: "nul \<notin> set mac" "c_str (DEVICE_MAC fw) = mac" using assms(4) by (simp_all add: holds_c_str) (simp add: holds_def)
  obtain b1 where b1: "sprintf (replicate 64 nul) 0 (sd_time uptime ?g) = Inr b1" "c_str b1 = sd_time uptime ?g"
    using sprintf_fits [of "sd_time uptime ?g" "replicate 64 nul"] time by auto
  obtain b2 where b2: "sprintf pkt 0 ?txt = Inr b2" "c_str b2 = ?txt"
    using sprintf_fits [of ?txt pkt] SD_PKT_fits [OF assms(2,3,5) topic(2), of ?g] assms(1)
      nul_notin_packets(2) [OF mac(1) topic(1) time(2)] by auto
  obtain r' ds where sd: "sd_write_data ?txt (gps_year ?g) (gps_month ?g) (gps_day ?g) e (tr @ [Sys Time]) =
      Inr (r', tr @ [Sys Time, Fs (Stat ?fn), Fs (Fopen ?fn ''a'')] @ ds)" "?f \<noteq> 0 \<longrightarrow> Fs (Fprintf ?f ?txt) \<in> set ds"
    using sd_write_calls [of ?txt "gps_year ?g" "gps_month ?g" "gps_day ?g" e "tr @ [Sys Time]"] by auto
  obtain st cs where per: "periodic_timer_callback (CONFIG_SD_CARD_DEBUG cfg) (fw_sd fw) e
      (tr @ [Sys Time, Fs (Stat ?fn), Fs (Fopen ?fn ''a'')] @ ds) = Inr (st, (tr @ [Sys Time, Fs (Stat ?fn), Fs (Fopen ?fn ''a'')] @ ds) @ cs)"
    using returns_periodic by (rule returnsE)
  have "data_store cfg uptime pkt r fw e tr =
      Inr (fw\<lparr>fw_sd := st\<rparr>, tr @ [Sys Time, Fs (Stat ?fn), Fs (Fopen ?fn ''a'')] @ ds @ cs)"
    using b1 b2 mac(2) sd(1) per by (simp add: data_store_def cmd_simps)
  moreover have "recorded e tr ?fn ?txt ([Sys Time, Fs (Stat ?fn), Fs (Fopen ?fn ''a'')] @ ds @ cs)"
    using sd(2) unfolding recorded_def Let_def by (intro exI [of _ "ds @ cs"]) auto
  ultimately show ?thesis by blast
qed

text \<open>
  C8: with readings in range, a configuration and a version string of the usual sizes, memory
  for the packet and fewer than ten billion seconds of uptime, a report never overruns the 256
  bytes of its buffer and always completes. It publishes exactly the packet of the readings on
  the data topic when the client is connected; when it is not, or publishing fails, it asks for
  a connection test instead of moving the time of the last publication; it appends the record
  of the same readings to the file of the day, if that can be opened; and it frees the buffer.
\<close>

theorem data_report_delivers:
  fixes cfg r fw version e tr
  defines "topic \<equiv> MQTT_DATA_PUB_TOPIC (mqtt_cfg cfg)"
    and "t \<equiv> ans_int e tr (Sys TimerGetTime)" and "tr1 \<equiv> tr @ [Sys TimerGetTime, Sys (Malloc MQTT_PKT_LEN)]"
    and "p \<equiv> ans_int e (tr @ [Sys TimerGetTime]) (Sys (Malloc MQTT_PKT_LEN))"
  defines "uptime \<equiv> nat (t div 1000000)"
  assumes r: "in_range r" and t: "0 \<le> t" "t < 10 ^ 19" and p: "p \<noteq> 0"
    and mac: "holds 13 mac (DEVICE_MAC fw)" "length mac = 12" and version: "nul \<notin> set version" "length version \<le> 31"
    and topic: "nul \<notin> set topic" "length topic \<le> 100"
    and name: "nul \<notin> set (CONFIG_INFLUX_MEASUREMENT_NAME cfg)" "length (CONFIG_INFLUX_MEASUREMENT_NAME cfg) \<le> 13"
  shows "\<exists>fw' cs. let publish = Web (MqttPublish topic (MQTT_PKT cfg mac version uptime r) 2);
      connected = client_connected (fw_mqtt fw); ok = connected \<and> 0 \<le> ans_int e tr1 publish;
      pre = (if connected then [publish] else []) @
        (if ok then [] else [Rtos (EventGroupSetBits WifiGroup WIFI_MANAGER_REQUEST_PING_TEST)])
    in data_report cfg version r fw e tr = Inr (fw', tr1 @ pre @ cs @ [Sys (Free p)]) \<and>
       last_publish fw' = (if ok then word_of_nat uptime else last_publish fw) \<and>
       (if CONFIG_SD_DATA_STORE cfg
        then recorded e (tr1 @ pre) (sd_filename (gps_year (gps r)) (gps_month (gps r)) (gps_day (gps r)))
               (SD_PKT (sd_time uptime (gps r)) mac topic uptime r) cs
        else cs = [])"
proof -
  have "t div 1000000 < 10 ^ 13" using t zdiv_mono1 [of t "10 ^ 19 - 1" 1000000] by simp
  then have up: "uptime < 10 ^ 13" and nat: "nat (c_div t 1000000 mod 2 ^ 64) = uptime"
    using t by (simp_all add: uptime_def nat_less_iff c_div_def)
  define pkt publish where "pkt = MQTT_PKT cfg mac version uptime r" and "publish = Web (MqttPublish topic pkt 2)"
  define ok where "ok = (client_connected (fw_mqtt fw) \<and> 0 \<le> ans_int e tr1 publish)"
  define pre where "pre = (if client_connected (fw_mqtt fw) then [publish] else []) @
    (if ok then [] else [Rtos (EventGroupSetBits WifiGroup WIFI_MANAGER_REQUEST_PING_TEST)])"
  define fw1 where "fw1 = (if ok then fw\<lparr>last_publish := word_of_nat uptime\<rparr> else fw)"
  have m: "nul \<notin> set mac" "c_str (DEVICE_MAC fw) = mac" using mac(1) by (simp_all add: holds_c_str) (simp add: holds_def)
  obtain b where b: "sprintf (block MQTT_PKT_LEN (ans_bytes e (tr @ [Sys TimerGetTime]) (Sys (Malloc MQTT_PKT_LEN)))) 0 pkt = Inr b"
      "c_str b = pkt" "length b = MQTT_PKT_LEN"
    using sprintf_fits [of pkt] MQTT_PKT_fits [OF r up mac(2) version(2) name(2)] nul_notin_packets(1) [OF m(1) version(1) name(1)]
    unfolding pkt_def by (metis length_block)
  have store: "\<exists>fw' cs. (if CONFIG_SD_DATA_STORE cfg then data_store cfg uptime b r fw1 else ret fw1) e (tr1 @ pre) = Inr (fw', tr1 @ pre @ cs) \<and>
      last_publish fw' = last_publish fw1 \<and> (if CONFIG_SD_DATA_STORE cfg
        then recorded e (tr1 @ pre) (sd_filename (gps_year (gps r)) (gps_month (gps r)) (gps_day (gps r)))
               (SD_PKT (sd_time uptime (gps r)) mac topic uptime r) cs else cs = [])"
    using data_store_records [OF b(3) r up _ mac(2) topic [unfolded topic_def], of fw1 e "tr1 @ pre"] mac(1)
    by (auto simp: fw1_def ret_def topic_def)
  have run: "data_report cfg version r fw e tr =
      bindE ((if CONFIG_SD_DATA_STORE cfg then data_store cfg uptime b r fw1 else ret fw1) e (tr1 @ pre))
        (\<lambda>(fw', tr'). Inr (fw', tr' @ [Sys (Free p)]))"
    using p b(1,2) nat m(2)
    by (cases "client_connected (fw_mqtt fw)"; cases ok)
       (simp_all add: data_report_def cmd_simps MQTT_Publish_Data_def MQTT_Publish_General_def p_def t_def pkt_def tr1_def
         ok_def pre_def publish_def fw1_def topic_def wifi_manager_check_connection_async_def)
  obtain fw' cs where "(if CONFIG_SD_DATA_STORE cfg then data_store cfg uptime b r fw1 else ret fw1) e (tr1 @ pre) = Inr (fw', tr1 @ pre @ cs)"
    "last_publish fw' = last_publish fw1" "if CONFIG_SD_DATA_STORE cfg
        then recorded e (tr1 @ pre) (sd_filename (gps_year (gps r)) (gps_month (gps r)) (gps_day (gps r)))
               (SD_PKT (sd_time uptime (gps r)) mac topic uptime r) cs else cs = []"
    using store by blast
  then show ?thesis
    unfolding Let_def run pkt_def [symmetric] publish_def [symmetric] ok_def [symmetric] pre_def [symmetric]
    by (intro exI [of _ fw'] exI [of _ cs]) (simp add: fw1_def)
qed

definition demo_build :: build where
  "demo_build = \<lparr>mqtt_cfg = mqtt_demo_build, CONFIG_INFLUX_MEASUREMENT_NAME = ''airQuality'', CONFIG_DATA_UPLOAD_PERIOD = 60,
     CONFIG_SD_DATA_STORE = True, CONFIG_SD_CARD_DEBUG = False\<rparr>"

definition demo_readings :: readings where
  "demo_readings = \<lparr>pm_dat = \<lparr>sample_count = 0, pm1 = 3 / 2, pm2_5 = 41 / 8, pm10 = - 1\<rparr>, temp = 43 / 2, hum = 95 / 3,
     co = 812, nox = 77, gps = esp_gps_init\<lparr>alt := 1400, lat := 40, lon := - 8881 / 80\<rparr>\<rparr>"

definition demo_firmware :: firmware where
  "demo_firmware = \<lparr>DEVICE_MAC = ''AABBCCDDEEFF'' @ [nul], fw_pm = pm_demo_init, fw_gps = esp_gps_init, fw_sd = sd_demo_state,
     fw_mqtt = mqtt_state_init\<lparr>client_connected := True\<rparr>, last_publish = 0\<rparr>"

definition report_env :: env where
  "report_env = silent_env\<lparr>ans_int := (\<lambda>tr c. case c of
     Sys (Malloc n) \<Rightarrow> 7 | Sys TimerGetTime \<Rightarrow> 3723000000 | Fs (Fopen f m) \<Rightarrow> 3 | _ \<Rightarrow> 0)\<rparr>"

definition demo_packet :: string where
  "demo_packet = ''airQuality,ID=AABBCCDDEEFF,SensorModel=H2+v2.1 SecActive=3723,Altitude=1400.00,Latitude=40.0000,'' @
     ''Longitude=-111.0125,PM1=1.50,PM2.5=5.12,PM10=-1.00,Temperature=21.50,Humidity=31.67,CO=812,NO=77''"

lemma fmt_f_eval:
  "rne (\<bar>x\<bar> * 10 ^ p) = int n \<Longrightarrow>
   fmt_f p x = (if x < 0 then ''-'' else []) @ fmt_u (n div 10 ^ p) @ ''.'' @ pad0 p (fmt_u (n mod 10 ^ p))"
  by (simp add: fmt_f_def)

lemma digit_chars:
  "digit_char 0 = CHR ''0''" "digit_char (Suc 0) = CHR ''1''" "digit_char 2 = CHR ''2''" "digit_char 3 = CHR ''3''"
  "digit_char 4 = CHR ''4''" "digit_char 5 = CHR ''5''" "digit_char 6 = CHR ''6''" "digit_char 7 = CHR ''7''" "digit_char 8 = CHR ''8''"
  by code_simp+

lemma fmt_u_digit: "n < 10 \<Longrightarrow> fmt_u n = [digit_char n]"
  by (simp add: fmt_u_def show_base.simps [of _ _ n])

lemma fmt_u_more: "\<not> n < 10 \<Longrightarrow> fmt_u n = fmt_u (n div 10) @ [digit_char (n mod 10)]"
  by (simp add: fmt_u_def show_base.simps [of _ _ n])

lemmas demo_numbers =
  fmt_u_more [of 3723] fmt_u_more [of 372] fmt_u_more [of 37] fmt_u_more [of 1400] fmt_u_more [of 140] fmt_u_more [of 14]
  fmt_u_more [of 111] fmt_u_more [of 11] fmt_u_more [of 125] fmt_u_more [of 12] fmt_u_more [of 40] fmt_u_more [of 50]
  fmt_u_more [of 21] fmt_u_more [of 31] fmt_u_more [of 67] fmt_u_more [of 812] fmt_u_more [of 81] fmt_u_more [of 77] fmt_u_more [of 10]
  fmt_u_digit digit_chars

lemma demo_texts:
  "fmt_f 2 1400 = ''1400.00''" "fmt_f 4 40 = ''40.0000''" "fmt_f 4 (- (8881 / 80)) = ''-111.0125''"
  "fmt_f 2 (3 / 2) = ''1.50''" "fmt_f 2 (41 / 8) = ''5.12''" "fmt_f 2 (- 1) = ''-1.00''" "fmt_f 2 (43 / 2) = ''21.50''"
  "fmt_f 2 (95 / 3) = ''31.67''"
proof -
  have r3: "replicate 3 (CHR ''0'') = ''000''" by (simp add: numeral_3_eq_3)
  have floors: "\<lfloor>1025 / 2 :: rat\<rfloor> = 512" "\<lfloor>9500 / 3 :: rat\<rfloor> = 3166" by (simp_all add: floor_eq_iff)
  have "rne (\<bar>1400\<bar> * 10 ^ 2) = int 140000" "rne (\<bar>40\<bar> * 10 ^ 4) = int 400000" "rne (\<bar>- (8881 / 80)\<bar> * 10 ^ 4) = int 1110125"
    "rne (\<bar>3 / 2\<bar> * 10 ^ 2) = int 150" "rne (\<bar>41 / 8\<bar> * 10 ^ 2) = int 512" "rne (\<bar>- 1\<bar> * 10 ^ 2) = int 100"
    "rne (\<bar>43 / 2\<bar> * 10 ^ 2) = int 2150" "rne (\<bar>95 / 3\<bar> * 10 ^ 2) = int 3167"
    by (simp_all add: rne_def Let_def floors)
  from this [THEN fmt_f_eval]
  show "fmt_f 2 1400 = ''1400.00''" "fmt_f 4 40 = ''40.0000''" "fmt_f 4 (- (8881 / 80)) = ''-111.0125''"
    "fmt_f 2 (3 / 2) = ''1.50''" "fmt_f 2 (41 / 8) = ''5.12''" "fmt_f 2 (- 1) = ''-1.00''" "fmt_f 2 (43 / 2) = ''21.50''"
    "fmt_f 2 (95 / 3) = ''31.67''"
    by (simp_all add: demo_numbers pad0_def r3)
qed

lemma demo_packet: "MQTT_PKT demo_build ''AABBCCDDEEFF'' ''v2.1'' 3723 demo_readings = demo_packet"
  by (simp add: MQTT_PKT_def demo_packet_def demo_build_def demo_readings_def esp_gps_init_def demo_texts demo_numbers fmt_zu_def)

theorem data_report_delivers_witness:
  "\<exists>fw' cs. data_report demo_build ''v2.1'' demo_readings demo_firmware report_env [] =
       Inr (fw', [Sys TimerGetTime, Sys (Malloc MQTT_PKT_LEN), Web (MqttPublish ''airu/influx'' demo_packet 2)] @ cs @ [Sys (Free 7)]) \<and>
     last_publish fw' = 3723 \<and>
     recorded report_env [Sys TimerGetTime, Sys (Malloc MQTT_PKT_LEN), Web (MqttPublish ''airu/influx'' demo_packet 2)]
       ''/sdcard/00-00-00.csv'' (SD_PKT ''1:02:03'' ''AABBCCDDEEFF'' ''airu/influx'' 3723 demo_readings) cs"
proof -
  have r: "in_range demo_readings" by (simp add: in_range_def demo_readings_def esp_gps_init_def)
  have mac: "holds 13 ''AABBCCDDEEFF'' (DEVICE_MAC demo_firmware)" by (simp add: holds_def demo_firmware_def)
  have topic: "MQTT_DATA_PUB_TOPIC (mqtt_cfg demo_build) = ''airu/influx''"
    by (simp add: MQTT_DATA_PUB_TOPIC_def demo_build_def mqtt_demo_build_def)
  have names: "sd_filename (gps_year (gps demo_readings)) (gps_month (gps demo_readings)) (gps_day (gps demo_readings)) = ''/sdcard/00-00-00.csv''"
    "sd_time 3723 (gps demo_readings) = ''1:02:03''"
    by (simp_all add: sd_filename_def sd_time_def Let_def fmt_0d_def pad0_def demo_numbers demo_readings_def esp_gps_init_def)
  have ans: "ans_int report_env tr (Sys TimerGetTime) = 3723000000" "ans_int report_env tr (Sys (Malloc n)) = 7"
    "ans_int report_env tr (Web w) = 0" for tr n w
    by (simp_all add: report_env_def)
  have cfg: "CONFIG_SD_DATA_STORE demo_build" "CONFIG_INFLUX_MEASUREMENT_NAME demo_build = ''airQuality''"
    "client_connected (fw_mqtt demo_firmware)" by (simp_all add: demo_build_def demo_firmware_def)
  show ?thesis
    using data_report_delivers [of demo_readings report_env "[]" "''AABBCCDDEEFF''" demo_firmware "''v2.1''" demo_build, OF r]
    by (simp add: mac topic names ans cfg demo_packet Let_def)
qed

end
