(* ===== verification/System.thy ===== *)
theory System
  imports WifiProgress Firmware
begin

text \<open>
  The whole firmware: the globals of all modules, the tasks, timers and callbacks that work on
  them as steps, and the states that any interleaving of these steps can reach from the static
  initialisers. The type invariant of the globals holds in every one of them.
\<close>

subsection \<open>The static initialisers\<close>

text \<open>The fields of four bytes are little-endian.\<close>

definition wifi_settings_init :: string where
  "wifi_settings_init = padded 32 DEFAULT_AP_SSID @ padded 64 DEFAULT_AP_PASSWORD @
     map char_of [DEFAULT_AP_CHANNEL, DEFAULT_AP_SSID_HIDDEN, 0, 0] @ padded 4 [char_of DEFAULT_AP_BANDWIDTH] @
     padded 4 [char_of DEFAULT_STA_ONLY] @ padded 4 [char_of DEFAULT_STA_POWER_SAVE] @ replicate 16 nul"

definition wifi_state_init :: wifi_state where
  "wifi_state_init = \<lparr>json_mutex = False, ap_num = of_nat MAX_AP_NUM, accessp_records = [],
     accessp_json = None, ip_info_json = None, reg_info_json = None, config_sta = None,
     wifi_settings = wifi_settings_init,
     reg_info = \<lparr>reg_name = replicate 64 nul, reg_email = replicate 254 nul, reg_mac = replicate 12 nul, reg_hidden = False\<rparr>\<rparr>"

definition sd_state_init :: sd_state where
  "sd_state_init = \<lparr>fs_mounted = False, s_log_mutex = False, log_file = 0, firstTime = True, logFileCounting = 1\<rparr>"

definition pm_state_init :: pm_state where
  "pm_state_init = \<lparr>pm_accum = \<lparr>sample_count = 0, pm1 = 0, pm2_5 = 0, pm10 = 0\<rparr>, pm_buf = replicate BUF_SIZE 0\<rparr>"

definition firmware_init :: firmware where
  "firmware_init = \<lparr>DEVICE_MAC = replicate 13 nul, fw_pm = pm_state_init, fw_gps = esp_gps_init, fw_sd = sd_state_init,
     fw_mqtt = mqtt_state_init, last_publish = 0\<rparr>"

subsection \<open>Tasks\<close>

text \<open>What the build and the libraries fix: the configuration, the pages, \<open>ip4addr_ntoa\<close>, and fuel for the loops.\<close>

record params =
  p_build :: build
  p_assets :: assets
  p_ntoa :: "string \<Rightarrow> string"
  p_fuel :: nat

record system =
  sys_fw :: firmware
  sys_wifi :: wifi_state
  sys_ota :: ota_state
  sys_locals :: readings
  sys_version :: string
  wifi_up :: bool
  ota_up :: bool
  data_up :: bool

datatype task =
    AppRest \<comment> \<open>the entry point behind the creation of the tasks\<close>
  | WifiStart | WifiTurn
  | WifiEvent system_event | WifiTimer | PingDone nat
  | HttpRequest
  | OtaStart | OtaTurn
  | MqttTaskStart | MqttTaskTurn | MqttTaskReset | MqttEvent mqtt_event
  | DataStart readings \<comment> \<open>the first contents of the local variables\<close>
  | DataTurn
  | PmEvent uart_event | PmSilence
  | GpsEvent uart_event
  | LedTurn
  | LogLine string
  | HttpClientEvent http_client_event

definition system_init :: "readings \<Rightarrow> firmware \<Rightarrow> system" where
  "system_init r fw = \<lparr>sys_fw = fw, sys_wifi = wifi_state_init, sys_ota = ota_state_init, sys_locals = r, sys_version = [],
     wifi_up = False, ota_up = False, data_up = False\<rparr>"

text \<open>
  A task starts once, and its turns follow its start. The web server waits for the Wi-Fi
  manager; the reconnect timer, the ping and the requests of other tasks come from its turns.
\<close>

fun task_ready :: "task \<Rightarrow> system \<Rightarrow> bool" where
  "task_ready WifiStart s \<longleftrightarrow> \<not> wifi_up s"
| "task_ready OtaStart s \<longleftrightarrow> \<not> ota_up s"
| "task_ready (DataStart r) s \<longleftrightarrow> \<not> data_up s"
| "task_ready OtaTurn s \<longleftrightarrow> ota_up s"
| "task_ready DataTurn s \<longleftrightarrow> data_up s"
| "task_ready t s \<longleftrightarrow> (t \<in> {WifiTurn, WifiTimer, HttpRequest} \<or> (\<exists>n. t = PingDone n) \<longrightarrow> wifi_up s)"

definition with_wifi :: "system \<Rightarrow> wifi_state cmd \<Rightarrow> system cmd" where
  "with_wifi s m = bindC m (\<lambda>st. ret (s\<lparr>sys_wifi := st, wifi_up := True\<rparr>))"

definition with_ota :: "system \<Rightarrow> ota_state cmd \<Rightarrow> system cmd" where
  "with_ota s m = bindC m (\<lambda>st. ret (s\<lparr>sys_ota := st, ota_up := True\<rparr>))"

definition with_mqtt :: "system \<Rightarrow> mqtt_state cmd \<Rightarrow> system cmd" where
  "with_mqtt s m = bindC m (\<lambda>st. ret (s\<lparr>sys_fw := (sys_fw s)\<lparr>fw_mqtt := st\<rparr>\<rparr>))"

definition with_pm :: "system \<Rightarrow> pm_state cmd \<Rightarrow> system cmd" where
  "with_pm s m = bindC m (\<lambda>st. ret (s\<lparr>sys_fw := (sys_fw s)\<lparr>fw_pm := st\<rparr>\<rparr>))"

definition only_calls :: "system \<Rightarrow> 'a cmd \<Rightarrow> system cmd" where
  "only_calls s m = bindC m (\<lambda>_. ret s)"

fun run_task :: "params \<Rightarrow> task \<Rightarrow> system \<Rightarrow> system cmd" where
  "run_task p AppRest s = only_calls s (app_main_rest (sys_fw s))"
| "run_task p WifiStart s = with_wifi s (wifi_manager_init (sys_wifi s))"
| "run_task p WifiTurn s = with_wifi s (wifi_manager_turn (p_ntoa p) (sys_wifi s))"
| "run_task p (WifiEvent ev) s = only_calls s (wifi_manager_event_handler ev)"
| "run_task p WifiTimer s = only_calls s wifi_timer_callback"
| "run_task p (PingDone n) s = with_wifi s (bindC (pingResults n (sys_wifi s)) (\<lambda>(_, st). ret st))"
| "run_task p HttpRequest s = with_wifi s (http_server_netconn_serve (p_assets p) (sys_wifi s))"
| "run_task p OtaStart s = with_ota s (ota_task_start (sys_ota s))"
| "run_task p OtaTurn s = with_ota s (ota_task_turn (p_fuel p) (sys_ota s))"
| "run_task p MqttTaskStart s =
     with_mqtt s (bindC wifi_manager_wait_internet_access (\<lambda>_. mqtt_connect_start (mqtt_cfg (p_build p)) (fw_mqtt (sys_fw s))))"
| "run_task p MqttTaskTurn s =
     with_mqtt s (bindC wifi_manager_wait_disconnect (\<lambda>_. bindC wifi_manager_wait_internet_access (\<lambda>_.
       mqtt_connect_start (mqtt_cfg (p_build p)) (fw_mqtt (sys_fw s)))))"
| "run_task p MqttTaskReset s = with_mqtt s (ret (mqtt_connect_reset (fw_mqtt (sys_fw s))))"
| "run_task p (MqttEvent ev) s =
     bindC (mqtt_event_handler (mqtt_cfg (p_build p)) (c_str (DEVICE_MAC (sys_fw s))) (p_fuel p) ev
              (fw_mqtt (sys_fw s)) (sys_ota s)) (\<lambda>(_, st, ota).
     ret (s\<lparr>sys_fw := (sys_fw s)\<lparr>fw_mqtt := st\<rparr>, sys_ota := ota\<rparr>))"
| "run_task p (DataStart r) s =
     bindC data_task_start (\<lambda>v. ret (s\<lparr>sys_locals := r, sys_version := v, data_up := True\<rparr>))"
| "run_task p DataTurn s =
     bindC (data_task_turn (p_build p) (sys_version s) (sys_locals s) (sys_fw s)) (\<lambda>(r, fw).
     ret (s\<lparr>sys_locals := r, sys_fw := fw\<rparr>))"
| "run_task p (PmEvent ev) s = with_pm s (uart_pm_event ev (fw_pm (sys_fw s)))"
| "run_task p PmSilence s = with_pm s (vTimerCallback (fw_pm (sys_fw s)))"
| "run_task p (GpsEvent ev) s =
     bindC (uart_gps_event (p_fuel p) ev (fw_gps (sys_fw s))) (\<lambda>g. ret (s\<lparr>sys_fw := (sys_fw s)\<lparr>fw_gps := g\<rparr>\<rparr>))"
| "run_task p LedTurn s = only_calls s led_task_turn"
| "run_task p (LogLine msg) s =
     bindC (esp_sd_log_write msg (fw_sd (sys_fw s))) (\<lambda>(_, sd). ret (s\<lparr>sys_fw := (sys_fw s)\<lparr>fw_sd := sd\<rparr>\<rparr>))"
| "run_task p (HttpClientEvent ev) s = only_calls s (http_server_event_handler ev)"

text \<open>
  The reachable states with the calls made so far, under any scheduling that satisfies \<open>ok\<close>, a
  condition on the next step and the calls before it.
\<close>

inductive reach :: "params \<Rightarrow> (task \<Rightarrow> call list \<Rightarrow> bool) \<Rightarrow> env \<Rightarrow> system \<Rightarrow> call list \<Rightarrow> bool" for p ok e where
  boot: "app_main_start (p_build p) firmware_init e [] = Inr (fw, tr) \<Longrightarrow> reach p ok e (system_init r fw) tr"
| step: "reach p ok e s tr \<Longrightarrow> task_ready t s \<Longrightarrow> ok t tr \<Longrightarrow> run_task p t s e tr = Inr (s', tr') \<Longrightarrow> reach p ok e s' tr'"

lemma with_wifi_does: "does e Q m \<Longrightarrow> does e (\<lambda>_. True) (with_wifi s m)"
  unfolding with_wifi_def by (erule does_bind) (simp add: does_ret)

text \<open>An invariant is one that the start establishes and every step keeps.\<close>

lemma reach_invariant:
  assumes "reach p ok e s tr"
    and "\<And>r. gives e I (bindC (app_main_start (p_build p) firmware_init) (\<lambda>fw. ret (system_init r fw)))"
    and "\<And>t s. I s \<Longrightarrow> task_ready t s \<Longrightarrow> gives e I (run_task p t s)"
  shows "I s"
  using assms(1)
proof induction
  case (boot fw tr r)
  show ?case by (rule givesD [OF assms(2) [of r], of "[]"]) (simp add: bindC_run boot cmd_run)
next
  case (step s tr t s' tr')
  then show ?case using assms(3) by (blast dest: givesD)
qed

subsection \<open>The type invariant\<close>

definition ota_ok :: "ota_state \<Rightarrow> bool" where
  "ota_ok st \<longleftrightarrow> length (ota_file_basename st) = OTA_FILE_BN_LEN \<and> nul \<in> set (ota_file_basename st) \<and>
     length (ota_write_data st) = BUFFSIZE + 1"

definition sd_ok :: "sd_state \<Rightarrow> bool" where
  "sd_ok st \<longleftrightarrow> 1 \<le> logFileCounting st \<and> logFileCounting st \<le> MOUNT_CONFIG_MAXLOGFILE"

definition mac_ok :: "string \<Rightarrow> bool" where
  "mac_ok b \<longleftrightarrow> (\<exists>mac. holds 13 mac b \<and> length mac = 12)"

definition fw_ok :: "firmware \<Rightarrow> bool" where
  "fw_ok fw \<longleftrightarrow> mac_ok (DEVICE_MAC fw) \<and> length (pm_buf (fw_pm fw)) = BUF_SIZE \<and> sd_ok (fw_sd fw)"

definition system_ok :: "system \<Rightarrow> bool" where
  "system_ok s \<longleftrightarrow> (if wifi_up s then wifi_live (sys_wifi s) else sys_wifi s = wifi_state_init) \<and>
     ota_ok (sys_ota s) \<and> fw_ok (sys_fw s)"

text \<open>The update task.\<close>

lemma strcpy_terminated: "strcpy b t = Inr b' \<Longrightarrow> nul \<in> set b'"
  by (auto simp: strcpy_fits split: if_splits)

lemma ota_set_filename_ok: "ota_ok st \<Longrightarrow> gives e ota_ok (ota_set_filename f st)"
  unfolding ota_set_filename_def
  by (auto intro!: gives_rules simp: ota_ok_def keeps_size strcpy_terminated)

lemma ota_task_start_ok: "ota_ok st \<Longrightarrow> gives e ota_ok (ota_task_start st)"
  unfolding ota_task_start_def memset_def
  by (auto intro!: gives_rules simp: ota_ok_def buf_write_def OTA_FILE_BN_LEN_def)

lemma ota_read_loop_size: "gives e (\<lambda>(ok, b). length b = length buf) (ota_read_loop fuel buf)"
proof (induction fuel arbitrary: buf)
  case (Suc fuel)
  have "gives e (\<lambda>(ok, c). length c = length buf) (ota_read_loop fuel b)" if "length b = length buf" for b
    using Suc [of b] that by simp
  then show ?case
    by (auto intro!: gives_rules dest: buf_write_length)
qed (simp add: gives_fail)

lemma ota_task_turn_ok:
  assumes "ota_ok st"
  shows "gives e ota_ok (ota_task_turn fuel st)"
proof -
  have commence: "gives e (\<lambda>(r, st). ota_ok st) (ota_commence fuel st)"
    unfolding ota_commence_def Let_def
    by (use assms in \<open>auto intro!: gives_rules gives_bind [OF ota_read_loop_size] gives_skip [where m = ota_finish]
      simp: ota_ok_def split del: if_split\<close>)
  show ?thesis
    unfolding ota_task_turn_def by (rule gives_asks, rule gives_bind [OF commence]) (auto intro: gives_ret)
qed

lemma mqtt_event_ota_ok:
  assumes "ota_ok ota"
  shows "gives e (\<lambda>(err, st, ota). ota_ok ota) (mqtt_event_handler cfg mac fuel ev st ota)"
proof -
  have "gives e ota_ok (mqtt_on_data cfg mac topic data st ota)" for topic data
    unfolding mqtt_on_data_def
    by (auto intro!: gives_rules gives_skip [where m = "MQTT_Publish_General _ _ _ _"] gives_bind [OF ota_set_filename_ok] assms
      split: option.split)
  then show ?thesis
    unfolding mqtt_event_handler_def
    by (auto intro!: gives_rules gives_skip [where m = "mqtt_on_connected _ _ _ _"] gives_bind [where P = ota_ok] assms
      split: mqtt_event.split)
qed

text \<open>The sensor buffer and the SD card.\<close>

lemma get_packet_keeps_buf: "gives e (\<lambda>(err, st'). pm_buf st' = pm_buf st) (get_packet_from_buffer st)"
  unfolding get_packet_from_buffer_def Let_def by (auto intro!: gives_rules)

lemma uart_pm_event_size:
  assumes "length (pm_buf st) = BUF_SIZE"
  shows "gives e (\<lambda>st. length (pm_buf st) = BUF_SIZE) (uart_pm_event ev st)"
proof -
  have packet: "gives e (\<lambda>st. length (pm_buf st) = BUF_SIZE)
      (bindC (get_packet_from_buffer (st\<lparr>pm_buf := fill_front n bs (pm_buf st)\<rparr>)) (\<lambda>(_, st). ret st))" for n bs
    using assms by (auto intro!: gives_ret gives_bind [OF get_packet_keeps_buf] simp: length_fill_front)
  show ?thesis
    unfolding uart_pm_event_def using assms packet
    by (auto intro!: gives_asks gives_then gives_ret gives_bind [where P = "\<lambda>st. length (pm_buf st) = BUF_SIZE"]
        split: uart_event.split)
qed

lemma PMS_Initialize_size:
  "length (pm_buf st) = BUF_SIZE \<Longrightarrow> gives e (\<lambda>(err, st). length (pm_buf st) = BUF_SIZE) (PMS_Initialize st)"
  unfolding PMS_Initialize_def by (auto intro!: gives_rules simp: pm_accum_rst_def)

lemma sd_ok_simps [simp]: "sd_ok (st\<lparr>log_file := f\<rparr>) = sd_ok st" "sd_ok (st\<lparr>s_log_mutex := m\<rparr>) = sd_ok st"
  "sd_ok (st\<lparr>firstTime := b\<rparr>) = sd_ok st" "sd_ok (st\<lparr>fs_mounted := b\<rparr>) = sd_ok st"
  by (simp_all add: sd_ok_def)

lemma release_log_sd: "gives e (\<lambda>st'. logFileCounting st' = logFileCounting st) (releaseLogFileInstance st)"
  unfolding releaseLogFileInstance_def
  by (auto intro!: gives_rules gives_bind [where P = "\<lambda>st'. logFileCounting st' = logFileCounting st"])

lemma get_log_sd: "gives e (\<lambda>(f, st'). logFileCounting st' = logFileCounting st) (getLogFileInstance st)"
proof -
  have create: "gives e (\<lambda>st'. logFileCounting st' = logFileCounting st) (if \<not> s_log_mutex st
     then bindC (askI (Rtos (MutexCreate ''s_log_mutex''))) (\<lambda>m. ret (st\<lparr>s_log_mutex := (m \<noteq> 0)\<rparr>)) else ret st)"
    by (auto intro!: gives_rules)
  have release: "gives e (\<lambda>(f, st'). logFileCounting st' = logFileCounting st)
      (bindC (releaseLogFileInstance st1) (\<lambda>st. ret (0, st)))" if "logFileCounting st1 = logFileCounting st" for st1
    using that by (intro gives_bind [OF release_log_sd]) (auto intro: gives_ret)
  show ?thesis
    unfolding getLogFileInstance_def Let_def
    by (rule gives_bind [OF create], rule gives_asks) (auto intro!: gives_asks gives_ret release)
qed

lemma sd_ok_counting: "logFileCounting st' = logFileCounting st \<Longrightarrow> sd_ok st' = sd_ok st"
  by (simp add: sd_ok_def)

lemma log_write_ok: "sd_ok st \<Longrightarrow> gives e (\<lambda>(err, st). sd_ok st) (esp_sd_log_write txt st)"
  unfolding esp_sd_log_write_def
  by (rule gives_bind [OF get_log_sd]) (auto intro!: gives_rules gives_bind [OF release_log_sd] simp: sd_ok_def)

lemma periodic_ok:
  assumes "sd_ok st"
  shows "gives e sd_ok (periodic_timer_callback dbg st)"
proof (cases dbg)
  case True
  let ?rot = "\<lambda>st. 1 \<le> logFileCounting st \<and> logFileCounting st \<le> 16"
  have keep: "?rot st" if "sd_ok st" for st
    using that by (auto simp: sd_ok_def MOUNT_CONFIG_MAXLOGFILE_def elim: order_trans)
  have next_file: "?rot (st\<lparr>log_file := 0, logFileCounting := logFileCounting st + 1\<rparr>)" if "sd_ok st" for st
    using that by (simp add: sd_ok_def MOUNT_CONFIG_MAXLOGFILE_def word_le_nat_alt unat_word_ariths)
  have wrap: "sd_ok (st\<lparr>logFileCounting := 15\<rparr>)" for st
    by (simp add: sd_ok_def MOUNT_CONFIG_MAXLOGFILE_def)
  have within: "sd_ok st" if "?rot st" "\<not> MOUNT_CONFIG_MAXLOGFILE < logFileCounting st" for st
    using that by (simp add: sd_ok_def not_less)
  have logfile: "gives e (\<lambda>(f, st). sd_ok st) (if \<not> firstTime st then getLogFileInstance st else ret (0, st))"
    using assms by (auto intro!: gives_ret gives_weaken [OF get_log_sd] simp: sd_ok_def)
  have rotate: "gives e ?rot (if b then thenC m (ret (st\<lparr>log_file := 0, logFileCounting := logFileCounting st + 1\<rparr>)) else ret st)"
    if "sd_ok st" for b m st
    using next_file [OF that] keep [OF that] by (auto intro!: gives_then gives_ret)
  have limit: "gives e sd_ok (if MOUNT_CONFIG_MAXLOGFILE < logFileCounting st
      then thenC m (ret (st\<lparr>logFileCounting := 15\<rparr>)) else ret st)" if "?rot st" for m st
    using wrap within [OF that] by (auto intro!: gives_then gives_ret)
  have close: "gives e sd_ok (if firstTime st then ret (st\<lparr>firstTime := False\<rparr>)
      else if f \<noteq> 0 then releaseLogFileInstance st else ret st)" if "sd_ok st" for f st
    using that by (auto intro!: gives_ret gives_weaken [OF release_log_sd] simp: sd_ok_def)
  have "gives e sd_ok (bindC (if \<not> firstTime st then getLogFileInstance st else ret (0, st)) (\<lambda>(f, st).
      bindC (askIB (Fs (Stat SD_LOG_FILE_NAME))) (\<lambda>(_, size).
      bindC (if b f size st then thenC (m f size st) (ret (st\<lparr>log_file := 0, logFileCounting := logFileCounting st + 1\<rparr>)) else ret st) (\<lambda>st.
      bindC (if MOUNT_CONFIG_MAXLOGFILE < logFileCounting st then thenC l (ret (st\<lparr>logFileCounting := 15\<rparr>)) else ret st) (\<lambda>st.
      bindC (if firstTime st then ret (st\<lparr>firstTime := False\<rparr>) else if f \<noteq> 0 then releaseLogFileInstance st else ret st) (\<lambda>st.
      ret (st\<lparr>log_file := f\<rparr>)))))))" for b m l
    by (rule gives_bind [OF logfile])
       (auto intro!: gives_asks gives_bind [OF rotate] gives_bind [OF limit] gives_bind [OF close] gives_ret split del: if_split)
  then show ?thesis
    using True by (simp only: periodic_timer_callback_def if_False not_True_eq_False)
qed (simp add: periodic_timer_callback_def assms gives_ret)

lemma SD_Initialize_ok: "sd_ok st \<Longrightarrow> gives e (\<lambda>(err, st). sd_ok st) (SD_Initialize dbg st)"
  unfolding SD_Initialize_def
  by (rule gives_then, rule gives_asks)
     (auto intro!: gives_ret gives_bind [where P = sd_ok] gives_then periodic_ok)

text \<open>The name of the device.\<close>

lemma APP_Setmac_ok:
  assumes "length b = 13"
  shows "gives e mac_ok (APP_Setmac b)"
proof -
  let ?mac = "\<lambda>t. fmt_0X 2 (of_char (t ! 0)) @ fmt_0X 2 (of_char (t ! 1)) @ fmt_0X 2 (of_char (t ! 2)) @
     fmt_0X 2 (of_char (t ! 3)) @ fmt_0X 2 (of_char (t ! 4)) @ fmt_0X 2 (of_char (t ! 5))"
  have len: "length (?mac t) = 12" "nul \<notin> set (?mac t)" for t
    using fmt_0X_byte by (simp_all only: length_append set_append Un_iff de_Morgan_disj) simp_all
  then have "sprintf b 0 (?mac t) = Inr (?mac t @ [nul])" for t
    using assms by (simp add: sprintf_def buf_write_def)
  moreover have "mac_ok (?mac t @ [nul])" for t
    using len [of t] unfolding mac_ok_def holds_def by (intro exI [of _ "?mac t"]) simp
  ultimately show ?thesis
    unfolding APP_Setmac_def by (auto intro!: gives_rules gives_lift)
qed

lemma APP_Initialize_ok: "length b = 13 \<Longrightarrow> gives e mac_ok (APP_Initialize b)"
  unfolding APP_Initialize_def
  by (rule gives_bind [OF APP_Setmac_ok], assumption, rule gives_asks, rule gives_skip) (intro gives_then gives_ret)

subsection \<open>The data task\<close>

lemma PMS_Poll_keeps_buf: "PMS_Poll dat st = (err, dat', st') \<Longrightarrow> pm_buf st' = pm_buf st"
  by (auto simp: PMS_Poll_def pm_accum_rst_def Let_def split: if_splits)

lemma data_poll_ok: "fw_ok fw \<Longrightarrow> gives e (\<lambda>(r, fw). fw_ok fw) (data_poll r fw)"
  unfolding data_poll_def Let_def
  by (auto intro!: gives_skip gives_ret split: prod.split dest!: PMS_Poll_keeps_buf simp: fw_ok_def)

lemma data_store_ok: "fw_ok fw \<Longrightarrow> gives e fw_ok (data_store cfg uptime pkt r fw)"
  unfolding data_store_def
  by (auto intro!: gives_asks gives_lift_bind gives_skip [where m = "sd_write_data _ _ _ _"] gives_bind [OF periodic_ok] gives_ret
      simp: fw_ok_def)

lemma data_report_ok: "fw_ok fw \<Longrightarrow> gives e fw_ok (data_report cfg version r fw)"
  unfolding data_report_def Let_def
  by (auto intro!: gives_rules gives_skip [where m = "MQTT_Publish_Data _ _ _"] gives_bind [where P = fw_ok] data_store_ok
      simp: fw_ok_def)

lemma data_task_turn_ok: "fw_ok fw \<Longrightarrow> gives e (\<lambda>(r, fw). fw_ok fw) (data_task_turn cfg version r fw)"
  unfolding data_task_turn_def
  by (rule gives_then, rule gives_bind [OF data_poll_ok])
     (auto intro!: gives_bind [OF data_report_ok] gives_ret)

lemma app_main_start_ok: "gives e fw_ok (app_main_start cfg firmware_init)"
proof -
  have init: "length (DEVICE_MAC firmware_init) = 13" "length (pm_buf (fw_pm firmware_init)) = BUF_SIZE" "sd_ok (fw_sd firmware_init)"
    by (simp_all add: firmware_init_def pm_state_init_def sd_state_init_def sd_ok_def MOUNT_CONFIG_MAXLOGFILE_def)
  show ?thesis
    unfolding app_main_start_def
    by (rule gives_bind [OF APP_Initialize_ok [OF init(1)]], rule gives_then, rule gives_skip,
        rule gives_bind [OF PMS_Initialize_size [OF init(2)]])
       (auto intro!: gives_skip [where m = HDC1080_Initialize] gives_then gives_bind [OF SD_Initialize_ok [OF init(3)]] gives_ret
         simp: fw_ok_def)
qed

subsection \<open>Every reachable state\<close>

lemma wifi_static_init: "wifi_static wifi_state_init"
  by (simp add: wifi_static_def wifi_state_init_def wifi_settings_init_def settings_size_def MAX_AP_NUM_def padded_def)

lemma run_task_ok:
  assumes "scan_bounded e" "system_ok s" "task_ready t s"
  shows "gives e system_ok (run_task p t s)"
proof -
  have wifi: "gives e system_ok (with_wifi s m)" if "gives e wifi_live m" for m
    unfolding with_wifi_def using assms(2) by (auto intro!: gives_bind [OF that] gives_ret simp: system_ok_def)
  have ota: "gives e system_ok (with_ota s m)" if "gives e ota_ok m" for m
    unfolding with_ota_def using assms(2) by (auto intro!: gives_bind [OF that] gives_ret simp: system_ok_def)
  have pm: "gives e system_ok (with_pm s m)" if "gives e (\<lambda>st. length (pm_buf st) = BUF_SIZE) m" for m
    unfolding with_pm_def using assms(2) by (auto intro!: gives_bind [OF that] gives_ret simp: system_ok_def fw_ok_def)
  have mqtt: "gives e system_ok (with_mqtt s m)" for m
    unfolding with_mqtt_def using assms(2) by (auto intro!: gives_skip gives_ret simp: system_ok_def fw_ok_def)
  have calls: "gives e system_ok (only_calls s m)" for m :: "'a cmd"
    unfolding only_calls_def by (intro gives_skip gives_ret assms(2))
  have live: "wifi_live (sys_wifi s)" if "wifi_up s" using assms(2) that by (simp add: system_ok_def)
  have ok: "ota_ok (sys_ota s)" "fw_ok (sys_fw s)" using assms(2) by (simp_all add: system_ok_def)
  then have pm_ok: "length (pm_buf (fw_pm (sys_fw s))) = BUF_SIZE" and sd: "sd_ok (fw_sd (sys_fw s))" by (simp_all add: fw_ok_def)
  show ?thesis
  proof (cases t)
    case WifiStart
    then have "sys_wifi s = wifi_state_init" using assms(2,3) by (simp add: system_ok_def)
    then show ?thesis using WifiStart wifi_static_init by (simp add: wifi init_live)
  next
    case (PingDone n)
    then have "wifi_up s" using assms(3) by simp
    then have "gives e wifi_live (bindC (pingResults n (sys_wifi s)) (\<lambda>(_, st). ret st))"
      by (intro gives_bind [OF pingResults_live [OF live]]) (auto intro: gives_ret)
    then show ?thesis using PingDone by (simp add: wifi)
  next
    case (MqttEvent ev)
    have "gives e system_ok (run_task p (MqttEvent ev) s)"
      unfolding run_task.simps
      by (rule gives_bind [OF mqtt_event_ota_ok [OF ok(1)]])
         (use assms(2) in \<open>auto intro!: gives_ret simp: system_ok_def fw_ok_def\<close>)
    then show ?thesis using MqttEvent by simp
  next
    case DataTurn
    have "gives e system_ok (run_task p DataTurn s)"
      unfolding run_task.simps
      by (rule gives_bind [OF data_task_turn_ok [OF ok(2)]])
         (use assms(2) in \<open>auto intro!: gives_ret simp: system_ok_def\<close>)
    then show ?thesis using DataTurn by simp
  next
    case (LogLine msg)
    have "gives e system_ok (run_task p (LogLine msg) s)"
      unfolding run_task.simps
      by (rule gives_bind [OF log_write_ok [OF sd]])
         (use assms(2) in \<open>auto intro!: gives_ret simp: system_ok_def fw_ok_def\<close>)
    then show ?thesis using LogLine by simp
  next
    case (DataStart r)
    then show ?thesis using assms(2) by (auto intro!: gives_skip gives_ret simp: system_ok_def)
  next
    case (GpsEvent ev)
    then show ?thesis using assms(2) by (auto intro!: gives_skip gives_ret simp: system_ok_def fw_ok_def)
  next
    case PmSilence
    have "gives e (\<lambda>st. length (pm_buf st) = BUF_SIZE) (vTimerCallback (fw_pm (sys_fw s)))"
      using pm_ok by (auto simp: vTimerCallback_def pm_accum_rst_def intro!: gives_then gives_ret)
    then show ?thesis using PmSilence by (simp add: pm)
  qed (use assms(1,3) in \<open>simp_all add: calls wifi ota mqtt pm live turn_live netconn_serve_live ota_task_start_ok
        ota_task_turn_ok ok uart_pm_event_size pm_ok\<close>)
qed

lemma system_ok_init: "fw_ok fw \<Longrightarrow> system_ok (system_init r fw)"
  by (simp add: system_ok_def system_init_def ota_ok_def ota_state_init_def OTA_FILE_BN_LEN_def)

lemma reach_system_ok:
  assumes "reach p ok e s tr" "scan_bounded e"
  shows "system_ok s"
proof (rule reach_invariant [OF assms(1)])
  show "gives e system_ok (bindC (app_main_start (p_build p) firmware_init) (\<lambda>fw. ret (system_init r fw)))" for r
    by (rule gives_bind [OF app_main_start_ok], rule gives_ret, rule system_ok_init)
qed (rule run_task_ok [OF assms(2)])

text \<open>The mutex of the documents exists as soon as the Wi-Fi manager is up.\<close>

lemma run_task_mutex:
  assumes "wifi_accepts ntoa e" "system_ok s" "task_ready t s" "wifi_up s \<longrightarrow> json_mutex (sys_wifi s)"
  shows "gives e (\<lambda>s'. wifi_up s' \<longrightarrow> json_mutex (sys_wifi s')) (run_task p t s)"
proof -
  let ?Q = "\<lambda>s'. wifi_up s' \<longrightarrow> json_mutex (sys_wifi s')"
  have wifi: "gives e ?Q (with_wifi s m)" if "gives e json_mutex m" for m
    unfolding with_wifi_def using that by (rule gives_bind) (auto intro: gives_ret)
  have keeps: "gives e json_mutex m" if "gives e (\<lambda>st'. json_mutex st' = json_mutex (sys_wifi s)) m" "wifi_up s" for m
    using that assms(4) by (auto intro: gives_weaken)
  show ?thesis
  proof (cases t)
    case WifiStart
    then have "sys_wifi s = wifi_state_init" using assms(2,3) by (simp add: system_ok_def)
    then show ?thesis
      using WifiStart does_determines [OF does_init [OF assms(1) wifi_static_init]] by (auto intro!: wifi intro: gives_weaken)
  next
    case (PingDone n)
    then have "gives e json_mutex (bindC (pingResults n (sys_wifi s)) (\<lambda>(_, st). ret st))"
      using assms(3) by (intro keeps gives_bind [OF pingResults_mutex]) (auto intro: gives_ret)
    then show ?thesis using PingDone by (simp add: wifi)
  qed (use assms(3,4) in \<open>auto simp: with_ota_def with_mqtt_def with_pm_def only_calls_def intro!: wifi keeps turn_mutex serve_mutex gives_skip gives_ret\<close>)
qed

lemma reach_mutex:
  assumes "reach p ok e s tr" "wifi_accepts ntoa e" "wifi_up s"
  shows "json_mutex (sys_wifi s)"
proof -
  have bounded: "scan_bounded e" using assms(2) by (simp add: wifi_accepts_def)
  have "system_ok s \<and> (wifi_up s \<longrightarrow> json_mutex (sys_wifi s))"
  proof (rule reach_invariant [OF assms(1)])
    show "gives e (\<lambda>s. system_ok s \<and> (wifi_up s \<longrightarrow> json_mutex (sys_wifi s)))
        (bindC (app_main_start (p_build p) firmware_init) (\<lambda>fw. ret (system_init r fw)))" for r
      by (rule gives_bind [OF app_main_start_ok], rule gives_ret) (simp add: system_ok_init, simp add: system_init_def)
  next
    fix t s
    assume "system_ok s \<and> (wifi_up s \<longrightarrow> json_mutex (sys_wifi s))" "task_ready t s"
    then show "gives e (\<lambda>s. system_ok s \<and> (wifi_up s \<longrightarrow> json_mutex (sys_wifi s))) (run_task p t s)"
      using run_task_ok [OF bounded, of s t p] run_task_mutex [OF assms(2), of s t p] by (auto simp: gives_def)
  qed
  then show ?thesis using assms(3) by blast
qed

text \<open>
  C1: in every state that the firmware can reach, from the static initialisers and under any
  interleaving of its tasks, timers and callbacks, every shared buffer has the size it was
  declared or allocated with and every document the web server reads is allocated: the records
  and their number, the three JSON documents, the configuration, the settings and the
  registration once the Wi-Fi manager has started; the name and the block buffer of the update
  task, the name terminated; the packet buffer of the sensor; the device's name of twelve
  digits; and the counter of log files is between 1 and 15. The driver is taken to fill in at
  most as many scan records as it is offered.
\<close>

theorem reachable_states_typed:
  assumes "reach p ok e s tr" "scan_bounded e"
  shows "(wifi_up s \<longrightarrow> wifi_live (sys_wifi s)) \<and> ota_ok (sys_ota s) \<and> fw_ok (sys_fw s)"
  using reach_system_ok [OF assms] by (auto simp: system_ok_def split: if_splits)

subsection \<open>A platform on which the firmware starts\<close>

text \<open>
  A request waits at the web server, the flash store is reliable, and the event bits are a
  parameter.
\<close>

definition serving_env :: "string \<Rightarrow> (call \<Rightarrow> u32) \<Rightarrow> env" where
  "serving_env req bits = silent_env\<lparr>
     ans_int := (\<lambda>_ c. case c of Sys (Malloc _) \<Rightarrow> 1 | Rtos (MutexCreate _) \<Rightarrow> 1 | Rtos (MutexTake _ _) \<Rightarrow> 1
        | Web OtaGetBoot \<Rightarrow> 1 | Web OtaGetRunning \<Rightarrow> 1 | Web OtaGetNextUpdate \<Rightarrow> 2 | Web (HttpInit _) \<Rightarrow> 1 | _ \<Rightarrow> 0),
     ans_bytes := (\<lambda>tr c. case c of Sys EfuseMacGet \<Rightarrow> ''AIRQ-1'' | Net NetconnRecv \<Rightarrow> req
        | Wifi TcpipGetIpInfo \<Rightarrow> replicate 12 nul
        | Sys (NvsGetBlob k n) \<Rightarrow> take n (case nvs_blob k tr of None \<Rightarrow> [] | Some b \<Rightarrow> b) | _ \<Rightarrow> []),
     ans_bits := (\<lambda>_ c. bits c)\<rparr>"

abbreviation system_env :: env where
  "system_env \<equiv> serving_env (''GET /ap.json HTTP/1.1'' @ [lf]) (\<lambda>_. 0)"

lemma serving_env_simps [simp]:
  "ans_int (serving_env req u) tr (Io i) = 0" "ans_int (serving_env req u) tr (Uart x) = 0" "ans_int (serving_env req u) tr (Fs f) = 0"
  "ans_int (serving_env req u) tr (Wifi w) = 0" "ans_int (serving_env req u) tr (Net n) = 0" "ans_int (serving_env req u) tr (Web (HttpRead k)) = 0"
  "ans_int (serving_env req u) tr (Web OtaGetBoot) = 1" "ans_int (serving_env req u) tr (Web OtaGetRunning) = 1"
  "ans_int (serving_env req u) tr (Web OtaGetNextUpdate) = 2"
  "ans_int (serving_env req u) tr (Sys (Malloc k)) = 1" "ans_int (serving_env req u) tr (Rtos (MutexCreate m)) = 1"
  "ans_int (serving_env req u) tr (Rtos (MutexTake m d)) = 1" "ans_int (serving_env req u) tr (Rtos (TimerIsActive m)) = 0"
  "ans_int (serving_env req u) tr (Sys NvsFlashInit) = 0"
  "ans_int (serving_env req u) tr (Sys EfuseMacGet) = 0" "ans_int (serving_env req u) tr (Sys (NvsOpen a b)) = 0"
  "ans_int (serving_env req u) tr (Sys (NvsGetBlob a k)) = 0" "ans_int (serving_env req u) tr (Sys (NvsSetBlob a blob)) = 0"
  "ans_int (serving_env req u) tr (Sys NvsCommit) = 0"
  "ans_bytes (serving_env req u) tr (Sys EfuseMacGet) = ''AIRQ-1''" "ans_bytes (serving_env req u) tr (Net NetconnRecv) = req"
  "ans_bytes (serving_env req u) tr (Wifi TcpipGetIpInfo) = replicate 12 nul"
  "ans_bytes (serving_env req u) tr (Sys (Malloc k)) = []" "ans_bytes (serving_env req u) tr (Web v) = []"
  "ans_bytes (serving_env req u) tr (Sys (NvsGetBlob key k)) = take k (case nvs_blob key tr of None \<Rightarrow> [] | Some b \<Rightarrow> b)"
  "ans_bits (serving_env req u) tr c = u c" "ans_aps (serving_env req u) tr c = []"
  by (simp_all add: serving_env_def)

lemma serving_env_reliable: "nvs_reliable (serving_env req u)"
  by (simp add: nvs_reliable_def)

definition demo_params :: params where
  "demo_params = \<lparr>p_build = demo_build, p_assets = demo_assets, p_ntoa = (\<lambda>_. ''0.0.0.0''), p_fuel = 1\<rparr>"

lemma boot_demo: "\<exists>fw tr. app_main_start demo_build firmware_init (serving_env req u) [] = Inr (fw, tr)"
proof -
  have mac: "length (DEVICE_MAC firmware_init) = 13" "length ''AIRQ-1'' = 6" by (simp_all add: firmware_init_def)
  have m: "APP_Setmac (DEVICE_MAC firmware_init) (serving_env req u) [] = Inr (mac_text ''AIRQ-1'' @ [nul], [Sys EfuseMacGet])"
    using APP_Setmac_run [OF mac, of "serving_env req u" "[]"] by simp
  show ?thesis
    by (simp add: app_main_start_def APP_Initialize_def m cmd_simps LED_Initialize_def ledc_channel_def GPS_Initialize_def PMS_Initialize_def
       HDC1080_Initialize_def MICS4514_Initialize_def SD_Initialize_def ESP_ERR_NVS_NO_FREE_PAGES_def ESP_ERR_NVS_NEW_VERSION_FOUND_def
       LED_SetEventBit_def PMS_GPIOEnable_def PMS_SET_def PMS_RESET_def i2c_write_def Let_def check_efuse_def MICS4514_GPIOEnable_def MICS4514_Disable_def
       demo_build_def periodic_timer_callback_def)
qed

lemma serving_accepts: "wifi_accepts (\<lambda>_. ''0.0.0.0'') (serving_env req u)" "scans_fit (serving_env req u)"
  by (simp_all add: wifi_accepts_def scans_fit_def scan_bounded_def)

lemma started_demo:
  assumes "\<And>tr. ok WifiStart tr"
  shows "\<exists>s tr. reach demo_params ok (serving_env req u) s tr \<and> wifi_up s \<and> json_mutex (sys_wifi s)"
proof -
  obtain fw tr where boot: "app_main_start (p_build demo_params) firmware_init (serving_env req u) [] = Inr (fw, tr)"
    using boot_demo [of req u] by (auto simp: demo_params_def)
  let ?s = "system_init demo_readings fw"
  have r: "reach demo_params ok (serving_env req u) ?s tr" using boot by (rule reach.boot)
  obtain st' tr' where st': "wifi_manager_init wifi_state_init (serving_env req u) tr = Inr (st', tr')" "json_mutex st'"
    using doesE [OF does_init [OF serving_accepts(1) wifi_static_init]] by metis
  then have "run_task demo_params WifiStart ?s (serving_env req u) tr = Inr (?s\<lparr>sys_wifi := st', wifi_up := True\<rparr>, tr')"
    by (simp add: with_wifi_def system_init_def bindC_run cmd_run)
  then have "reach demo_params ok (serving_env req u) (?s\<lparr>sys_wifi := st', wifi_up := True\<rparr>) tr'"
    by (intro reach.step [OF r _ assms]) (simp add: system_init_def)
  then show ?thesis using st'(2) by (intro exI conjI) (assumption, simp_all)
qed

theorem reachable_states_typed_witness:
  "\<exists>s tr. reach demo_params (\<lambda>_ _. True) system_env s tr \<and> wifi_live (sys_wifi s) \<and> ota_ok (sys_ota s) \<and> fw_ok (sys_fw s)"
proof -
  obtain s tr where r: "reach demo_params (\<lambda>_ _. True) system_env s tr" "wifi_up s"
    using started_demo [of "\<lambda>_ _. True"] by blast
  moreover have "scan_bounded system_env" by (simp add: scan_bounded_def)
  ultimately show ?thesis using reachable_states_typed [OF r(1)] by blast
qed

end
