(* ===== verification/SystemMutex.thy ===== *)
theory SystemMutex
  imports System
begin

text \<open>
  The JSON mutex across the whole firmware: what every task calls, and the balance of the mutex
  under any interleaving.
\<close>

subsection \<open>Tasks without the mutex\<close>

text \<open>A call that neither concerns the JSON mutex nor receives a request.\<close>

definition apart :: "call \<Rightarrow> bool" where
  "apart c \<longleftrightarrow> \<not> json_mutex_call c \<and> c \<noteq> Net NetconnRecv"

lemma apart_simps [simp]:
  "apart (Sys s)" "apart (Io i)" "apart (Uart u)" "apart (Fs f)" "apart (Web w)" "apart (Wifi v)"
  "apart (Net n) \<longleftrightarrow> n \<noteq> NetconnRecv" "apart (Rtos r) \<longleftrightarrow> \<not> json_mutex_call (Rtos r)"
  by (simp_all add: apart_def)

text \<open>The bits, the LEDs and the drivers.\<close>

lemma apart_bits [emits_intros]:
  "emits apart (wm_set b)" "emits apart (wm_clear b)" "emits apart wm_get"
  "emits apart wifi_manager_wait_internet_access" "emits apart wifi_manager_wait_disconnect"
  "emits apart wifi_manager_check_connection_async" "emits apart (LED_SetEventBit b)" "emits apart (checkC (Wifi w))"
  unfolding wm_set_def wm_clear_def wm_get_def wifi_manager_wait_internet_access_def wifi_manager_wait_disconnect_def
    wifi_manager_check_connection_async_def LED_SetEventBit_def checkC_def
  by (intro emits_intros; simp)+

lemma apart_led [emits_intros]: "emits apart LED_Initialize" "emits apart led_task_turn"
  unfolding LED_Initialize_def led_task_turn_def led_set_def ledc_channel_def Let_def
  by (intro emits_intros; simp add: emits_intros)+

lemma apart_hdc [emits_intros]: "emits apart HDC1080_Initialize" "emits apart (HDC1080_Poll t h)"
  unfolding HDC1080_Initialize_def HDC1080_Poll_def i2c_write_def Let_def
  by (intro emits_intros; simp add: emits_intros)+

lemma apart_mics_sample [emits_intros]: "emits apart (mics_sample n a b)"
  by (induction n arbitrary: a b) (simp_all add: emits_intros)

lemma apart_mics [emits_intros]: "emits apart MICS4514_Initialize" "emits apart MICS4514_Poll"
  unfolding MICS4514_Initialize_def MICS4514_Poll_def check_efuse_def MICS4514_GPIOEnable_def MICS4514_Disable_def
  by (intro emits_intros; simp add: emits_intros)+

lemma apart_packet [emits_intros]: "emits apart (get_packet_from_buffer pm)"
  unfolding get_packet_from_buffer_def Let_def by (intro emits_intros) simp

lemma apart_pm [emits_intros]: "emits apart (PMS_Initialize pm)" "emits apart (vTimerCallback pm)"
  unfolding PMS_Initialize_def PMS_GPIOEnable_def PMS_SET_def PMS_RESET_def vTimerCallback_def Let_def
  by (intro emits_intros; simp add: emits_intros)+

lemma apart_pm_event [emits_intros]: "emits apart (uart_pm_event ev pm)"
  unfolding uart_pm_event_def by (cases ev) (auto intro!: emits_intros)

text \<open>The GPS receiver.\<close>

lemma apart_parse [emits_intros]: "emits apart (parse_rmc nmea g)" "emits apart (parse fuel nmea g)"
proof -
  show rmc: "emits apart (parse_rmc nmea g)" for nmea g
    unfolding parse_rmc_def by (intro emits_intros)
  show "emits apart (parse fuel nmea g)"
    unfolding parse_def by (intro emits_intros rmc)
qed

lemma apart_gps [emits_intros]: "emits apart GPS_Initialize"
  unfolding GPS_Initialize_def by (intro emits_intros; simp add: emits_intros)

lemma apart_gps_event [emits_intros]: "emits apart (uart_gps_event fuel ev g)"
  unfolding uart_gps_event_def Let_def by (cases ev) (auto intro!: emits_intros)

text \<open>The SD card, start-up and the time.\<close>

lemma apart_log_file [emits_intros]: "emits apart (releaseLogFileInstance sd)" "emits apart (getLogFileInstance sd)"
proof -
  show release: "emits apart (releaseLogFileInstance sd)" for sd
    unfolding releaseLogFileInstance_def by (intro emits_intros; simp)
  show "emits apart (getLogFileInstance sd)"
    unfolding getLogFileInstance_def Let_def by (intro emits_intros release; simp)
qed

lemma apart_sd [emits_intros]: "emits apart (periodic_timer_callback dbg sd)"
  unfolding periodic_timer_callback_def log_shift_loop_empty
  by (intro emits_intros; simp add: emits_intros del: log_shift_loop.simps)

lemma apart_sd_rest [emits_intros]:
  "emits apart (SD_Initialize dbg sd)" "emits apart (sd_write_data pkt y m d)" "emits apart (esp_sd_log_write msg sd)"
  unfolding SD_Initialize_def sd_write_data_def esp_sd_log_write_def Let_def
  by (intro emits_intros; simp add: emits_intros)+

lemma apart_APP [emits_intros]: "emits apart (APP_Initialize mac)"
  unfolding APP_Initialize_def APP_Setmac_def by (intro emits_intros; simp)

lemma apart_sntp_retry [emits_intros]: "emits apart (sntp_retry w retry now)"
  by (induction w retry now rule: sntp_retry.induct) (subst sntp_retry.simps, auto intro!: emits_intros)

lemma apart_SNTP [emits_intros]: "emits apart SNTP_Initialize"
  unfolding SNTP_Initialize_def sntp_obtain_time_def by (intro emits_intros; simp add: emits_intros)

text \<open>The MQTT client and the updates.\<close>

lemma apart_isp [emits_intros]: "emits apart (http_get_isp_info fuel buf len)"
proof -
  have loop: "emits apart (isp_loop n len s tot buf ii waiting)" for n s tot buf ii waiting
    by (induction n arbitrary: tot buf ii waiting) (auto simp: Let_def intro!: emits_intros)
  show ?thesis unfolding http_get_isp_info_def by (intro emits_intros loop; simp add: emits_intros)
qed

lemma apart_publish [emits_intros]: "emits apart (MQTT_Publish_General tpc msg qos st)" "emits apart (MQTT_Publish_Data cfg msg st)"
  unfolding MQTT_Publish_Data_def MQTT_Publish_General_def by (intro emits_intros; simp)+

lemma apart_mqtt_event [emits_intros]: "emits apart (mqtt_event_handler cfg mac fuel ev st ota)"
  unfolding mqtt_event_handler_def mqtt_on_connected_def mqtt_on_data_def ota_set_filename_def ota_trigger_def Let_def
  by (cases ev) (auto intro!: emits_intros)

lemma apart_mqtt [emits_intros]: "emits apart (mqtt_connect_start cfg st)" "emits apart (MQTT_Initialize st)"
  unfolding mqtt_connect_start_def MQTT_Initialize_def by (intro emits_intros; simp)+

lemma apart_ota_read [emits_intros]: "emits apart (ota_read_loop fuel buf)"
  by (induction fuel arbitrary: buf) (auto simp: http_cleanup_def intro!: emits_intros)

lemma apart_ota [emits_intros]: "emits apart (ota_task_start ota)" "emits apart (ota_task_turn fuel ota)"
  unfolding ota_task_start_def ota_task_turn_def ota_commence_def ota_finish_def http_cleanup_def Let_def
  by (intro emits_intros; simp)+

text \<open>The entry point and the data task.\<close>

lemma apart_app_main [emits_intros]: "emits apart (app_main_start cfg fw)" "emits apart (app_main_rest fw)"
  unfolding app_main_start_def app_main_rest_def by (intro emits_intros; simp add: emits_intros)+

lemma apart_data [emits_intros]: "emits apart data_task_start" "emits apart (data_task_turn cfg v r fw)"
  unfolding data_task_start_def data_task_turn_def data_poll_def data_report_def data_store_def Let_def
  by (intro emits_intros; simp)+

text \<open>What the Wi-Fi manager does outside its turns.\<close>

lemma apart_events [emits_intros]: "emits apart (wifi_manager_event_handler ev)" "emits apart wifi_timer_callback"
  unfolding wifi_timer_callback_def by (cases ev; auto intro!: emits_intros)+

lemma apart_wifi_init [emits_intros]: "emits apart (wifi_manager_init st)"
  unfolding wifi_manager_init_def wifi_manager_alloc_def wifi_manager_fetch_wifi_sta_config_def fetch_field_def get_blob_def Let_def
  by (intro emits_intros; simp add: emits_intros)

subsection \<open>Requests for the registration\<close>

text \<open>The calls that do not receive a request.\<close>

definition no_recv :: "call \<Rightarrow> bool" where
  "no_recv c \<longleftrightarrow> c \<noteq> Net NetconnRecv"

lemma no_recv_simps [simp]: "no_recv (Net n) \<longleftrightarrow> n \<noteq> NetconnRecv" "no_recv (Rtos r)" "no_recv (Sys s)" "no_recv (Wifi w)" "no_recv (Web v)"
  by (simp_all add: no_recv_def)

lemma no_recv_leaf [emits_intros]:
  "emits no_recv (wm_set b)" "emits no_recv (wm_clear b)" "emits no_recv wm_get" "emits no_recv (LED_SetEventBit b)"
  "emits no_recv (checkC (Wifi w))" "emits no_recv wait_disconnected" "emits no_recv (set_sta_config st)"
  "emits no_recv (wifi_manager_save_sta_config st)" "emits no_recv start_reconnect_timer"
  "emits no_recv wifi_manager_connected_to_access_point" "emits no_recv wifi_manager_ping_test"
  "emits no_recv (wifi_manager_lock_json_buffer ticks st)" "emits no_recv wifi_manager_unlock_json_buffer"
  "emits no_recv (wifi_manager_filter_unique l n)" "emits no_recv (get_blob key k buff)" "emits no_recv (nwrite t)"
  unfolding wm_set_def wm_clear_def wm_get_def LED_SetEventBit_def checkC_def wait_disconnected_def set_sta_config_def
    wifi_manager_save_sta_config_def start_reconnect_timer_def wifi_manager_connected_to_access_point_def wifi_manager_ping_test_def
    wifi_manager_lock_json_buffer_def wifi_manager_unlock_json_buffer_def wifi_manager_filter_unique_def get_blob_def nwrite_def
  by (intro emits_intros; simp add: emits_intros)+

lemma no_recv_wifi [emits_intros]:
  "emits no_recv (wifi_manager_connect_async st)" "emits no_recv (wifi_manager_json_status_update ntoa code st)"
  "emits no_recv wifi_manager_check_connection" "emits no_recv (wifi_manager_fetch_wifi_sta_config st)"
  "emits no_recv (wifi_manager_fetch_reg_config st)" "emits no_recv (wifi_manager_generate_reg_info_json st)"
  "emits no_recv (wifi_manager_save_reg_config st)" "emits no_recv wifi_manager_scan_async" "emits no_recv wifi_manager_disconnect_async"
  unfolding wifi_manager_connect_async_def wifi_manager_json_status_update_def wifi_manager_generate_ip_info_json_def
    wifi_manager_check_connection_def wifi_manager_fetch_wifi_sta_config_def fetch_field_def wifi_manager_fetch_reg_config_def
    fetch_reg_field_def wifi_manager_generate_reg_info_json_def wifi_manager_save_reg_config_def wifi_manager_scan_async_def
    wifi_manager_disconnect_async_def Let_def
  by (intro emits_intros; simp add: emits_intros)+

lemma no_recv_turn [emits_intros]: "emits no_recv (wifi_manager_turn ntoa st)" "emits no_recv (pingResults n st)"
  unfolding wifi_manager_turn_def turn_disconnect_def turn_connect_def turn_scan_def turn_ping_def pingResults_def Let_def
  by (intro emits_intros; simp add: emits_intros)+

lemma no_recv_serve [emits_intros]: "emits no_recv (serve_request as line rest st)"
  unfolding serve_request_def get_ap_json_code get_status_json_code get_register_json_code delete_connect_json_def
    post_connect_json_code post_register_json_def http_server_post_registration_code serve_document_def Let_def
  by (intro emits_intros; simp add: emits_intros)

text \<open>The number of received requests for the registration among the calls \<open>cs\<close> made after \<open>tr\<close>.\<close>

fun registers :: "env \<Rightarrow> call list \<Rightarrow> call list \<Rightarrow> nat" where
  "registers e tr [] = 0"
| "registers e tr (c # cs) =
     (if c = Net NetconnRecv \<and> register_request e tr then 1 else 0) + registers e (tr @ [c]) cs"

lemma registers_append: "registers e tr (cs @ ds) = registers e tr cs + registers e (tr @ cs) ds"
  by (induction cs arbitrary: tr) simp_all

lemma registers_none: "list_all no_recv cs \<Longrightarrow> registers e tr cs = 0"
  by (induction cs arbitrary: tr) (auto simp: no_recv_def)

text \<open>
  \<open>accounted e tr cs\<close>: over the calls \<open>cs\<close> the mutex is given back once too often for each request
  for the registration, and used properly when there is none.
\<close>

definition accounted :: "env \<Rightarrow> call list \<Rightarrow> call list \<Rightarrow> bool" where
  "accounted e tr cs \<longleftrightarrow> balance json_delta e tr cs = - int (registers e tr cs) \<and>
     (registers e tr cs = 0 \<longrightarrow> disciplined json_delta e tr 0 cs)"

lemma accounted_append: "accounted e tr cs \<Longrightarrow> accounted e (tr @ cs) ds \<Longrightarrow> accounted e tr (cs @ ds)"
  by (auto simp: accounted_def balance_append disciplined_append registers_append)

definition accounts :: "'a cmd \<Rightarrow> env \<Rightarrow> call list \<Rightarrow> bool" where
  "accounts m e tr \<longleftrightarrow> (\<forall>x tr'. m e tr = Inr (x, tr') \<longrightarrow> (\<exists>cs. tr' = tr @ cs \<and> accounted e tr cs))"

lemma accounts_neutral:
  assumes "jm.neutral m" "emits no_recv m"
  shows "accounts m e tr"
  unfolding accounts_def
proof (intro allI impI)
  fix x tr'
  assume run: "m e tr = Inr (x, tr')"
  obtain cs where cs: "tr' = tr @ cs" "disciplined json_delta e tr 0 cs" "0 + balance json_delta e tr cs = 0"
    using assms(1) run unfolding jm.neutral_def by (rule jm.movesE)
  moreover obtain ds where "tr' = tr @ ds" "list_all no_recv ds" using assms(2) run by (rule emitsE)
  ultimately have "accounted e tr cs" by (simp add: accounted_def registers_none)
  with cs(1) show "\<exists>cs. tr' = tr @ cs \<and> accounted e tr cs" by blast
qed

lemma accounts_apart: "emits apart m \<Longrightarrow> accounts m e tr"
  by (intro accounts_neutral jm.neutral_emits) (auto elim: emits_weaken simp: apart_def no_recv_def)

lemma accounts_serve:
  assumes "ip_info_json st \<noteq> None"
  shows "accounts (http_server_netconn_serve as st) e tr"
  unfolding accounts_def
proof (intro allI impI)
  fix st' tr'
  assume run: "http_server_netconn_serve as st e tr = Inr (st', tr')"
  define rest where "rest = (\<lambda>(err :: int, buf). bindC (if err = 0
      then (case strtok lf buf of Some (line, save_ptr) \<Rightarrow> serve_request as line save_ptr st
            | None \<Rightarrow> thenC (nwrite http_404_hdr) (ret st))
      else ret st) (\<lambda>st. thenC (doC (Net NetbufDelete)) (ret st)))"
  have after: "rest (ans_int e tr (Net NetconnRecv), ans_bytes e tr (Net NetconnRecv)) e (tr @ [Net NetconnRecv]) = Inr (st', tr')"
    using run by (simp add: http_server_netconn_serve_def rest_def [symmetric] bindC_run cmd_run)
  have calls: "emits no_recv (rest a)" for a
    unfolding rest_def by (intro emits_intros) simp
  obtain ds where "tr' = (tr @ [Net NetconnRecv]) @ ds" and none: "list_all no_recv ds"
    using calls after by (rule emitsE)
  then have ds: "tr' = tr @ Net NetconnRecv # ds" by simp
  obtain cs where "tr' = tr @ cs" "balance json_delta e tr cs = (if register_request e tr then - 1 else 0)"
    "\<not> register_request e tr \<longrightarrow> disciplined json_delta e tr 0 cs"
    using serve_balance [OF run assms] by blast
  moreover have "registers e tr (Net NetconnRecv # ds) = (if register_request e tr then 1 else 0)"
    by (simp add: registers_none none)
  ultimately have "accounted e tr (Net NetconnRecv # ds)"
    using ds by (auto simp: accounted_def)
  with ds show "\<exists>cs. tr' = tr @ cs \<and> accounted e tr cs" by blast
qed

lemma accounts_after:
  assumes "accounts m e tr"
  shows "accounts (bindC m (\<lambda>x. ret (g x))) e tr"
  using assms unfolding accounts_def by (auto simp: bindC_run cmd_run bindE_eq_Inr)

lemma run_task_accounts:
  assumes "wifi_up s \<longrightarrow> wifi_live (sys_wifi s)" "task_ready t s"
  shows "accounts (run_task p t s) e tr"
proof -
  have wifi: "accounts (with_wifi s m) e tr" if "accounts m e tr" for m
    using that unfolding with_wifi_def by (rule accounts_after)
  show ?thesis
  proof (cases t)
    case HttpRequest
    then have "ip_info_json (sys_wifi s) \<noteq> None" using assms by (auto simp: wifi_live_def document_def)
    then show ?thesis using HttpRequest by (simp add: wifi accounts_serve)
  next
    case WifiTurn
    then show ?thesis by (simp add: wifi accounts_neutral jm_turn emits_intros)
  next
    case (PingDone n)
    have "accounts (bindC (pingResults n (sys_wifi s)) (\<lambda>(_, st). ret st)) e tr"
      unfolding case_prod_beta by (intro accounts_after accounts_neutral jm_pingResults emits_intros)
    then show ?thesis using PingDone by (simp add: wifi)
  next
    case WifiStart
    then show ?thesis by (simp add: wifi accounts_apart emits_intros)
  qed (auto intro!: accounts_apart emits_intros simp: with_ota_def with_pm_def with_mqtt_def only_calls_def)
qed

text \<open>
  C3: over everything the firmware does from its start, under any interleaving of the tasks and
  any behaviour of the platform, the JSON mutex has been given back once too often for each
  request for the registration that was received, and not otherwise. As long as there was none,
  it was taken only while it was free, given back only while it was held, and it is free
  whenever a task has finished its turn.
\<close>

theorem json_mutex_interleaved:
  assumes "reach p ok e s tr" "scan_bounded e"
  shows "balance json_delta e [] tr = - int (registers e [] tr) \<and>
    (registers e [] tr = 0 \<longrightarrow> disciplined json_delta e [] 0 tr)"
proof -
  have "accounted e [] tr"
    using assms(1)
  proof induction
    case (boot fw tr r)
    have "accounts (app_main_start (p_build p) firmware_init) e []" by (intro accounts_apart emits_intros)
    then show ?case using boot unfolding accounts_def by fastforce
  next
    case (step s tr t s' tr')
    have "system_ok s" using step.hyps(1) assms(2) by (rule reach_system_ok)
    then have "wifi_up s \<longrightarrow> wifi_live (sys_wifi s)" by (simp add: system_ok_def)
    then have "accounts (run_task p t s) e tr" using step.hyps(2) by (rule run_task_accounts)
    then obtain cs where "tr' = tr @ cs" "accounted e tr cs" using step.hyps(4) unfolding accounts_def by blast
    then show ?case using accounted_append [of e "[]" tr cs] step.IH by simp
  qed
  then show ?thesis by (simp add: accounted_def)
qed

theorem json_mutex_interleaved_witness:
  "\<exists>s tr. reach demo_params (\<lambda>_ _. True) system_env s tr \<and> wifi_up s \<and>
     balance json_delta system_env [] tr = - int (registers system_env [] tr)"
proof -
  obtain s tr where r: "reach demo_params (\<lambda>_ _. True) system_env s tr" "wifi_up s"
    using started_demo [of "\<lambda>_ _. True"] by blast
  moreover have "scan_bounded system_env" by (simp add: scan_bounded_def)
  ultimately show ?thesis using json_mutex_interleaved [OF r(1)] by blast
qed

end
