(* ===== verification/Update.thy ===== *)
theory Update
  imports System
begin

text \<open>
  Across the tasks: from the command that arrives over MQTT to the image the update task boots,
  whatever the other tasks do in between.
\<close>

subsection \<open>What can happen in between\<close>

inductive runs :: "params \<Rightarrow> (task \<Rightarrow> bool) \<Rightarrow> env \<Rightarrow> system \<Rightarrow> call list \<Rightarrow> system \<Rightarrow> call list \<Rightarrow> bool" for p ok e where
  stop: "runs p ok e s tr s tr"
| step: "runs p ok e s tr s1 tr1 \<Longrightarrow> task_ready t s1 \<Longrightarrow> ok t \<Longrightarrow> run_task p t s1 e tr1 = Inr (s2, tr2) \<Longrightarrow>
     runs p ok e s tr s2 tr2"

lemma runs_reach:
  "runs p ok e s tr s' tr' \<Longrightarrow> reach p (\<lambda>_ _. True) e s tr \<Longrightarrow> reach p (\<lambda>_ _. True) e s' tr'"
  by (induction rule: runs.induct) (auto intro: reach.step)

text \<open>The steps that may set the name of the file.\<close>

fun sets_name :: "task \<Rightarrow> bool" where
  "sets_name OtaStart \<longleftrightarrow> True"
| "sets_name (MqttEvent (MQTT_EVENT_DATA topic data)) \<longleftrightarrow> True"
| "sets_name t \<longleftrightarrow> False"

abbreviation file_name :: "system \<Rightarrow> string" where
  "file_name s \<equiv> ota_file_basename (sys_ota s)"

lemma ota_turn_keeps_name:
  "gives e (\<lambda>st'. ota_file_basename st' = ota_file_basename st) (ota_task_turn fuel st)"
proof -
  have commence: "gives e (\<lambda>(r, st'). ota_file_basename st' = ota_file_basename st) (ota_commence fuel st)"
    unfolding ota_commence_def Let_def
    by (auto intro!: gives_rules gives_bind [OF ota_read_loop_size] gives_skip [where m = ota_finish] split del: if_split)
  show ?thesis
    unfolding ota_task_turn_def by (rule gives_asks, rule gives_bind [OF commence]) (auto intro: gives_ret)
qed

lemma mqtt_event_keeps_ota:
  assumes "\<not> sets_name (MqttEvent ev)"
  shows "gives e (\<lambda>(err, st, ota'). ota' = ota) (mqtt_event_handler cfg mac fuel ev st ota)"
  using assms unfolding mqtt_event_handler_def
  by (cases ev) (auto intro!: gives_then gives_ret gives_skip [where m = "mqtt_on_connected _ _ _ _"])

lemma run_task_keeps_name:
  assumes "\<not> sets_name t"
  shows "gives e (\<lambda>s'. file_name s' = file_name s) (run_task p t s)"
proof (cases t)
  case (MqttEvent ev)
  have "gives e (\<lambda>s'. file_name s' = file_name s) (run_task p (MqttEvent ev) s)"
    unfolding run_task.simps
    by (rule gives_bind [OF mqtt_event_keeps_ota]) (use assms MqttEvent in \<open>auto intro: gives_ret\<close>)
  then show ?thesis using MqttEvent by simp
next
  case OtaTurn
  then show ?thesis by (auto simp: with_ota_def intro!: gives_bind [OF ota_turn_keeps_name] gives_ret)
qed (use assms in \<open>auto simp: with_wifi_def with_pm_def with_mqtt_def only_calls_def intro!: gives_skip gives_ret\<close>)

lemma runs_keep_name:
  "runs p (\<lambda>t. \<not> sets_name t) e s tr s' tr' \<Longrightarrow> file_name s' = file_name s"
  by (induction rule: runs.induct) (auto dest: givesD [OF run_task_keeps_name])

subsection \<open>From the command to the image\<close>

lemma mac_okD: "mac_ok b \<Longrightarrow> nul \<notin> set (c_str b) \<and> length (c_str b) = 12"
  by (auto simp: mac_ok_def holds_c_str) (simp add: holds_def)

text \<open>The state and the calls behind a message that names a file.\<close>

lemma command_sets_name:
  assumes ok: "system_ok s" and root: "nul \<notin> set (CONFIG_MQTT_ROOT_TOPIC (mqtt_cfg (p_build p)))"
      "length (CONFIG_MQTT_ROOT_TOPIC (mqtt_cfg (p_build p))) < 47"
    and data: "nul \<notin> set data" "length data < MQTT_BUFFER_SIZE_BYTE (mqtt_cfg (p_build p))" "mqtt_command_of data = Update f"
    and run: "run_task p (MqttEvent (MQTT_EVENT_DATA topic data)) s e tr = Inr (s', tr')"
  shows "holds OTA_FILE_BN_LEN f (file_name s') \<and> f \<noteq> [] \<and>
    (\<exists>cs. tr' = tr @ cs @ [Rtos (EventGroupSetBits OtaGroup OTA_TRIGGER_OTA_BIT)])"
proof -
  let ?cfg = "mqtt_cfg (p_build p)" and ?mac = "c_str (DEVICE_MAC (sys_fw s))"
  have mac: "nul \<notin> set ?mac" "length ?mac = 12" and len: "length (file_name s) = OTA_FILE_BN_LEN"
    using ok mac_okD by (simp_all add: system_ok_def fw_ok_def ota_ok_def)
  have f: "nul \<notin> set f" "f \<noteq> []" using command_file [OF data(3)] data(1) by auto
  have fits: "length (CONFIG_MQTT_ROOT_TOPIC ?cfg) + length ?mac + 5 < 64" using root(2) mac(2) by simp
  note msg = mqtt_message_run [OF root(1) mac(1) fits data(1,2) len, of "p_fuel p" topic "fw_mqtt (sys_fw s)" e tr]
  have small: "length topic \<le> 64" "length f < OTA_FILE_BN_LEN"
    using run msg by (auto simp: bindC_run data(3) Let_def split: if_splits)
  then have "file_name s' = f @ nul # drop (Suc (length f)) (file_name s) \<and>
      (\<exists>cs. tr' = tr @ cs @ [Rtos (EventGroupSetBits OtaGroup OTA_TRIGGER_OTA_BIT)])"
    using run msg by (auto simp: bindC_run cmd_run data(3) Let_def split: if_splits)
  with f small len show ?thesis by (simp add: holds_def)
qed

text \<open>
  C4: the update a message asks for is the one that is installed. Take any reachable state and
  a message over MQTT whose words are an update command for the file \<open>f\<close>, with a configured root
  topic that fits. If the message is handled, it triggers the update task; and whatever else
  runs until that task gets its turn, except another message and the start of that task, which set
  the name, the turn returns once the response has ended, and what it asks the server for is \<open>f\<close>
  and nothing else. It restarts the device exactly when every byte received was written, accepted
  and verified, the image differs from the running one, and it was set as the one to boot, which is
  the case when nothing goes wrong; every other way an update can end is listed with its calls
  (\<open>ota_outcome\<close>).
\<close>

theorem commanded_file_is_installed:
  fixes p topic data f
  defines "cfg \<equiv> mqtt_cfg (p_build p)" and "command \<equiv> MqttEvent (MQTT_EVENT_DATA topic data)"
    and "trigger \<equiv> Rtos (EventGroupSetBits OtaGroup OTA_TRIGGER_OTA_BIT)"
    and "wait \<equiv> Rtos (EventGroupWaitBits OtaGroup OTA_TRIGGER_OTA_BIT True True None)"
  assumes reach: "reach p (\<lambda>_ _. True) e s tr" and platform: "scan_bounded e" "ota_partitions e" "http_response N e" "N < p_fuel p"
    and root: "nul \<notin> set (CONFIG_MQTT_ROOT_TOPIC cfg)" "length (CONFIG_MQTT_ROOT_TOPIC cfg) < 47"
    and data: "nul \<notin> set data" "length data < MQTT_BUFFER_SIZE_BYTE cfg" "mqtt_command_of data = Update f"
    and handled: "run_task p command s e tr = Inr (s1, tr1)"
    and between: "runs p (\<lambda>t. \<not> sets_name t) e s1 tr1 s2 tr2"
  shows "(\<exists>cs. tr1 = tr @ cs @ [trigger]) \<and>
    (\<exists>s3 r cs. run_task p OtaTurn s2 e tr2 = Inr (s3, tr2 @ wait # cs) \<and> ota_outcome e (tr2 @ [wait]) f r cs \<and>
      {u. Web (HttpInit u) \<in> set cs} = {OTA_URL @ f} \<and>
      (Sys Restart \<in> set cs \<longleftrightarrow>
         image_selected e (tr2 @ [wait]) f cs [Sys Restart] \<and> selection_answer e (tr2 @ [wait]) cs [Sys Restart] = ESP_OK) \<and>
      (ota_cooperates e \<longrightarrow> Sys Restart \<in> set cs))"
proof -
  have ok: "system_ok s" using reach platform(1) by (rule reach_system_ok)
  note named = command_sets_name [OF ok root [unfolded cfg_def] data(1) data(2) [unfolded cfg_def] data(3) handled [unfolded command_def]]
  have name: "holds OTA_FILE_BN_LEN f (file_name s2)" "f \<noteq> []" using named runs_keep_name [OF between] by simp_all
  have "reach p (\<lambda>_ _. True) e s1 tr1" using reach _ _ handled by (rule reach.step) (simp_all add: command_def)
  then have "system_ok s2" using runs_reach [OF between] reach_system_ok platform(1) by blast
  then have "length (ota_write_data (sys_ota s2)) = BUFFSIZE + 1" by (simp add: system_ok_def ota_ok_def)
  then obtain r st cs where "ota_commence (p_fuel p) (sys_ota s2) e (tr2 @ [wait]) = Inr ((r, st), (tr2 @ [wait]) @ cs)"
    and out: "ota_outcome e (tr2 @ [wait]) f r cs" "ota_cooperates e \<longrightarrow> r = ESP_OK"
    using ota_commence_outcome [OF name _ platform(2-4)] by blast
  then have "\<exists>s3. run_task p OtaTurn s2 e tr2 = Inr (s3, tr2 @ wait # cs)"
    by (simp add: with_ota_def ota_task_turn_def bindC_run cmd_run wait_def)
  with named show ?thesis
    using out outcome_calls(1-3) [OF out(1)] by (auto simp: trigger_def simp del: run_task.simps)
qed

theorem commanded_file_is_installed_witness:
  "\<exists>s tr s1 tr1 s3 cs. reach demo_params (\<lambda>_ _. True) system_env s tr \<and>
     run_task demo_params (MqttEvent (MQTT_EVENT_DATA ''airu/all/v2'' ''ota  air.bin'')) s system_env tr = Inr (s1, tr1) \<and>
     run_task demo_params OtaTurn s1 system_env tr1 =
       Inr (s3, tr1 @ Rtos (EventGroupWaitBits OtaGroup OTA_TRIGGER_OTA_BIT True True None) # cs) \<and>
     Web (HttpInit ''http://air.eng.utah.edu:80/files/updates/air.bin'') \<in> set cs \<and> Sys Restart \<in> set cs"
proof -
  obtain s tr where r: "reach demo_params (\<lambda>_ _. True) system_env s tr"
    using started_demo [of "\<lambda>_ _. True"] by blast
  have env: "scan_bounded system_env" "ota_partitions system_env" "http_response 0 system_env" "0 < p_fuel demo_params"
    by (simp_all add: scan_bounded_def ota_partitions_def http_response_def demo_params_def)
  have root: "nul \<notin> set (CONFIG_MQTT_ROOT_TOPIC (mqtt_cfg (p_build demo_params)))"
    "length (CONFIG_MQTT_ROOT_TOPIC (mqtt_cfg (p_build demo_params))) < 47"
    by (simp_all add: demo_params_def demo_build_def)
  have cmd: "mqtt_command_of ''ota  air.bin'' = Update ''air.bin''"
    by (simp add: mqtt_command_of_def sublist_Cons_right)
  have data: "nul \<notin> set ''ota  air.bin''" "length ''ota  air.bin'' < MQTT_BUFFER_SIZE_BYTE (mqtt_cfg (p_build demo_params))"
    by (simp_all add: demo_params_def demo_build_def)
  have "system_ok s" using r env(1) by (rule reach_system_ok)
  then have mac: "nul \<notin> set (c_str (DEVICE_MAC (sys_fw s)))" "length (c_str (DEVICE_MAC (sys_fw s))) = 12"
    and len: "length (file_name s) = OTA_FILE_BN_LEN" using mac_okD by (simp_all add: system_ok_def fw_ok_def ota_ok_def)
  have fits: "length (CONFIG_MQTT_ROOT_TOPIC (mqtt_cfg (p_build demo_params))) + length (c_str (DEVICE_MAC (sys_fw s))) + 5 < 64"
    using mac(2) by (simp add: demo_params_def demo_build_def)
  have "\<exists>s1 tr1. run_task demo_params (MqttEvent (MQTT_EVENT_DATA ''airu/all/v2'' ''ota  air.bin'')) s system_env tr = Inr (s1, tr1)"
    using mqtt_message_run [OF root(1) mac(1) fits data len, of "p_fuel demo_params" "''airu/all/v2''" "fw_mqtt (sys_fw s)" system_env tr]
    by (simp add: cmd bindC_run cmd_run OTA_FILE_BN_LEN_def Let_def)
  then obtain s1 tr1 where h: "run_task demo_params (MqttEvent (MQTT_EVENT_DATA ''airu/all/v2'' ''ota  air.bin'')) s system_env tr = Inr (s1, tr1)"
    by blast
  have coop: "ota_cooperates system_env" by (simp add: ota_cooperates_def serving_env_def)
  have url: "OTA_URL @ ''air.bin'' = ''http://air.eng.utah.edu:80/files/updates/air.bin''" by (simp add: OTA_URL_def)
  obtain s3 cs where "run_task demo_params OtaTurn s1 system_env tr1 =
      Inr (s3, tr1 @ Rtos (EventGroupWaitBits OtaGroup OTA_TRIGGER_OTA_BIT True True None) # cs)"
    "{u. Web (HttpInit u) \<in> set cs} = {OTA_URL @ ''air.bin''}" "Sys Restart \<in> set cs"
    using commanded_file_is_installed [OF r env root data cmd h runs.stop] coop by blast
  with r h show ?thesis unfolding url by blast
qed

end
