(* ===== verification/Progress.thy ===== *)
theory Progress
  imports SystemMutex Update Registration Provider GpsSentences
begin

text \<open>
  The other half of type soundness: which steps always complete. In a reachable state a step of
  these kinds touches no memory outside its buffers, follows no null pointer and ends.
\<close>

subsection \<open>Commands that return\<close>

lemma returns_led [returns_intros]: "returns led_task_turn"
  unfolding led_task_turn_def led_set_def Let_def by (intro returns_intros) (simp add: returns_intros)

lemma returns_pm [returns_intros]: "returns (uart_pm_event ev pm)" "returns (vTimerCallback pm)"
proof -
  have packet: "returns (get_packet_from_buffer pm)" for pm
    unfolding get_packet_from_buffer_def Let_def by (intro returns_intros)
  show "returns (uart_pm_event ev pm)"
    unfolding uart_pm_event_def by (cases ev) (auto intro!: returns_intros packet)
  show "returns (vTimerCallback pm)"
    unfolding vTimerCallback_def by (intro returns_intros)
qed

lemma returns_log [returns_intros]: "returns (esp_sd_log_write msg sd)"
  unfolding esp_sd_log_write_def by (intro returns_intros) (simp add: returns_intros)

lemma returns_client_event [returns_intros]: "returns (http_server_event_handler ev)"
  by (cases ev) (auto intro!: returns_intros)

lemma returns_sntp_retry [returns_intros]: "returns (sntp_retry w retry now)"
  by (induction w retry now rule: sntp_retry.induct) (subst sntp_retry.simps, auto intro!: returns_intros)

lemma returns_app_rest [returns_intros]: "returns (app_main_rest fw)"
  unfolding app_main_rest_def SNTP_Initialize_def sntp_obtain_time_def MQTT_Initialize_def
  by (intro returns_intros; simp add: returns_intros)

lemma returns_mqtt [returns_intros]: "returns (mqtt_connect_start cfg st)" "returns data_task_start"
  unfolding mqtt_connect_start_def data_task_start_def by (intro returns_intros)+

subsection \<open>The update task\<close>




subsection \<open>The data task\<close>





subsection \<open>The start\<close>

text \<open>The entry point gets to the creation of the tasks once there is an address and flash memory.\<close>

lemma does_boot:
  assumes "\<And>tr. length (ans_bytes e tr (Sys EfuseMacGet)) = 6" "\<And>tr. ans_int e tr (Sys NvsFlashInit) = ESP_OK"
  shows "does e (\<lambda>_. True) (app_main_start cfg firmware_init)"
proof -
  have "length (DEVICE_MAC firmware_init) = 13" by (simp add: firmware_init_def)
  from APP_Setmac_run [OF this assms(1) refl] have "does e (\<lambda>_. True) (APP_Setmac (DEVICE_MAC firmware_init))"
    by (simp add: does_def)
  then have "does e (\<lambda>_. True) (APP_Initialize (DEVICE_MAC firmware_init))"
    unfolding APP_Initialize_def
    by (rule does_bind, intro does_asks(1) [where P = "\<lambda>err. err = ESP_OK"] assms(2))
       (auto simp: ESP_ERR_NVS_NO_FREE_PAGES_def ESP_ERR_NVS_NEW_VERSION_FOUND_def esp_error_check_def
         intro!: does_bind [where P = "\<lambda>err. err = ESP_OK"] does_then does_ret)
  then have init: "(\<And>mac. does e Q (f mac)) \<Longrightarrow> does e Q (bindC (APP_Initialize (DEVICE_MAC firmware_init)) f)" for Q f
    by (rule does_bind)
  have "returns LED_Initialize" "returns GPS_Initialize" "returns (PMS_Initialize st)" "returns HDC1080_Initialize"
      "returns MICS4514_Initialize" for st
    unfolding LED_Initialize_def GPS_Initialize_def PMS_Initialize_def HDC1080_Initialize_def MICS4514_Initialize_def
      LED_SetEventBit_def PMS_GPIOEnable_def PMS_SET_def PMS_RESET_def i2c_write_def Let_def check_efuse_def MICS4514_GPIOEnable_def
      MICS4514_Disable_def ledc_channel_def
    by (intro returns_intros; simp add: returns_intros)+
  moreover have "returns (SD_Initialize dbg st)" for dbg st
    unfolding SD_Initialize_def by (intro returns_intros; simp add: returns_intros)
  ultimately show ?thesis
    unfolding app_main_start_def
    by (intro init does_returns) (auto intro!: returns_intros simp: returns_atoms)
qed

subsection \<open>Messages\<close>




subsection \<open>Steps that complete\<close>




subsection \<open>Without memory\<close>







end
