(* ===== verification/Join.thy ===== *)
theory Join
  imports SystemMutex Update
begin

text \<open>
  Across the tasks: from the form on the configuration page to the network the device joins, and
  joins again after its next start.
\<close>

subsection \<open>The form\<close>

definition is_post_connect :: "string \<Rightarrow> bool" where
  "is_post_connect line \<longleftrightarrow> list_all (\<lambda>r. strstr line r = None)
     [''GET / '', ''GET /jquery.js '', ''GET /code.js '', ''GET /ap.json '', ''GET /style.css '', ''GET /status.json '',
      ''GET /register.json '', ''DELETE /connect.json ''] \<and>
     strstr line ''POST /connect.json '' \<noteq> None"

definition submits :: "string \<Rightarrow> string \<Rightarrow> string \<Rightarrow> bool" where
  "submits req name password \<longleftrightarrow> (case strtok lf req of None \<Rightarrow> False
     | Some (line, rest) \<Rightarrow> is_post_connect line \<and>
         http_server_get_header rest ''x-custom-ssid: '' = Some name \<and> http_server_get_header rest ''x-custom-pwd: '' = Some password)"

definition credentials :: "string \<Rightarrow> string \<Rightarrow> sta_config" where
  "credentials name password = \<lparr>sta_ssid = padded 32 name, sta_password = padded 64 password\<rparr>"

lemma serve_post_connect: "is_post_connect line \<Longrightarrow> serve_request as line rest st = post_connect_json rest st"
  by (simp add: is_post_connect_def serve_request_def Let_def)

lemma header_value: "http_server_get_header r h = Some v \<Longrightarrow> nul \<notin> set v"
  by (auto simp: http_server_get_header_def split: option.splits dest: set_takeWhileD)

lemma submit_run:
  assumes live: "wifi_live st" and recv: "ans_int e tr (Net NetconnRecv) = 0" "submits (ans_bytes e tr (Net NetconnRecv)) name password"
    and fits: "length name \<le> 32" "length password \<le> 64"
  shows "\<exists>st' cs. http_server_netconn_serve as st e tr = Inr (st', tr @ cs) \<and> config_sta st' = Some (credentials name password) \<and>
    json_mutex st' = json_mutex st \<and>
    Rtos (EventGroupSetBits WifiGroup WIFI_MANAGER_REQUEST_STA_CONNECT_BIT) \<in> set cs"
proof -
  let ?c = "Net NetconnRecv"
  obtain line rest where tok: "strtok lf (ans_bytes e tr ?c) = Some (line, rest)" and line: "is_post_connect line"
    and h: "http_server_get_header rest ''x-custom-ssid: '' = Some name" "http_server_get_header rest ''x-custom-pwd: '' = Some password"
    using recv(2) by (auto simp: submits_def split: option.splits)
  obtain b where b: "ip_info_json st = Some b" "4 \<le> length b"
    using live by (auto simp: wifi_live_def wifi_ok_def document_def JSON_IP_INFO_SIZE_def)
  have "config_sta st \<noteq> None" using live by (simp add: wifi_live_def)
  from post_connect_run [OF this b, of rest e "tr @ [?c]"] h fits
  obtain st' cs where "post_connect_json rest st e (tr @ [?c]) = Inr (st', (tr @ [?c]) @ cs)"
    "config_sta st' = Some (credentials name password)" "Rtos (EventGroupSetBits WifiGroup WIFI_MANAGER_REQUEST_STA_CONNECT_BIT) \<in> set cs"
    by (auto simp: Let_def credentials_def)
  moreover from this have "json_mutex st' = json_mutex st" using givesD [OF post_connect_mutex] by blast
  ultimately show ?thesis
    using recv(1) tok serve_post_connect [OF line]
    by (intro exI [of _ st'] exI [of _ "?c # cs @ [Net NetbufDelete]"])
       (simp add: http_server_netconn_serve_def bindC_run cmd_run thenC_run)
qed

subsection \<open>What can happen in between\<close>

fun sets_config :: "task \<Rightarrow> bool" where
  "sets_config WifiStart \<longleftrightarrow> True"
| "sets_config WifiTurn \<longleftrightarrow> True"
| "sets_config HttpRequest \<longleftrightarrow> True"
| "sets_config t \<longleftrightarrow> False"

abbreviation station :: "system \<Rightarrow> sta_config option" where
  "station s \<equiv> config_sta (sys_wifi s)"

lemma run_task_keeps_config:
  assumes "\<not> sets_config t"
  shows "gives e (\<lambda>s'. station s' = station s) (run_task p t s)"
proof (cases t)
  case (PingDone n)
  have "gives e (\<lambda>(err, st'). config_sta st' = station s) (pingResults n (sys_wifi s))"
    unfolding pingResults_def by (auto intro!: gives_if gives_then gives_ret gives_bind [OF connect_async_config])
  then have ping: "gives e (\<lambda>st'. config_sta st' = station s) (bindC (pingResults n (sys_wifi s)) (\<lambda>(_, st). ret st))"
    by (rule gives_bind) (auto intro: gives_ret)
  show ?thesis using PingDone by (auto simp: with_wifi_def intro!: gives_bind [OF ping] gives_ret)
qed (use assms in \<open>auto simp: with_ota_def with_pm_def with_mqtt_def only_calls_def intro!: gives_skip gives_ret\<close>)

lemma runs_keep_config:
  "runs p (\<lambda>t. \<not> sets_config t) e s tr s' tr' \<Longrightarrow> station s' = station s"
  by (induction rule: runs.induct) (auto dest: givesD [OF run_task_keeps_config])

lemma runs_stay_up: "runs p ok e s tr s' tr' \<Longrightarrow> wifi_up s \<Longrightarrow> wifi_up s'"
proof (induction rule: runs.induct)
  case (step s tr s1 tr1 t s2 tr2)
  have "gives e (\<lambda>s'. wifi_up s') (run_task p t s1)" if "wifi_up s1"
    using that by (cases t) (auto simp: with_wifi_def with_ota_def with_pm_def with_mqtt_def only_calls_def intro!: gives_skip gives_ret)
  then show ?case using step by (blast dest: givesD)
qed

subsection \<open>The turn that connects\<close>

lemma connect_head_calls:
  assumes "connect_head u st e tr = Inr ((), tr')" "config_sta st = Some c"
  shows "\<exists>pre. tr' = tr @ pre @ [Wifi (WifiSetConfigSta (sta_ssid c) (sta_password c)), Wifi WifiConnect]"
  using assms by (auto simp: connect_head_def cmd_simps set_sta_config_def checkC_def bindE_eq_Inr wait_disconnected_def split: if_splits)

text \<open>A turn that serves a request to connect, and no disconnection: its two halves.\<close>

lemma turn_connects:
  assumes "wifi_manager_turn ntoa st e tr = Inr (st', tr')"
    and "u = ans_bits e tr w" "w = Rtos (EventGroupWaitBits WifiGroup turn_mask False False None)"
    and "u AND WIFI_MANAGER_REQUEST_STA_CONNECT_BIT \<noteq> 0" "u AND WIFI_MANAGER_REQUEST_WIFI_DISCONNECT = 0"
  obtains tr1 cs where "turn_connect ntoa u st e (tr @ [w]) = Inr (st', tr1)" "tr' = tr1 @ cs" "no_set cs"
proof -
  let ?k = "\<lambda>st. bindC wm_get (\<lambda>bits. thenC (whenC (bits AND WIFI_MANAGER_HAVE_INTERNET_BIT = 0)
      (LED_SetEventBit LED_EVENT_WIFI_DISCONNECTED_BIT)) (ret st))"
  have "bindC (turn_connect ntoa u st) ?k e (tr @ [w]) = Inr (st', tr')"
    using assms by (simp add: wifi_manager_turn_def bindC_askB bindC_ret)
  then obtain st1 tr1 where 1: "turn_connect ntoa u st e (tr @ [w]) = Inr (st1, tr1)" "?k st1 e tr1 = Inr (st', tr')"
    by (auto simp: bindC_run [of "turn_connect _ _ _"] bindE_eq_Inr)
  have "emits (\<lambda>c. \<not> stores c) (?k st1)" unfolding wm_get_def LED_SetEventBit_def by (intro emits_intros) simp_all
  then obtain cs where cs: "tr' = tr1 @ cs" "no_set cs" using 1(2) by (auto elim!: emitsE simp: no_set_stores)
  moreover have "st1 = st'" using 1(2) by (auto simp: cmd_simps LED_SetEventBit_def split: if_splits)
  ultimately show ?thesis using that 1(1) by blast
qed

lemma turn_connect_calls:
  assumes "turn_connect ntoa u st e tr = Inr (st', tr')" "config_sta st = Some c"
  shows "\<exists>pre post. tr' = tr @ pre @ [Wifi (WifiSetConfigSta (sta_ssid c) (sta_password c)), Wifi WifiConnect] @ post"
proof -
  obtain rest where def: "turn_connect ntoa u st = thenC (connect_head u st) rest" and rest: "emits no_recv rest"
  proof
    show "turn_connect ntoa u st = thenC (connect_head u st) (bindC (askB connect_wait) (\<lambda>uxBits.
      bindC (if uxBits AND (WIFI_MANAGER_WIFI_CONNECTED_BIT OR WIFI_MANAGER_STA_DISCONNECT_BIT) \<noteq> 0
             then (if uxBits AND WIFI_MANAGER_WIFI_CONNECTED_BIT \<noteq> 0
                   then bindC (wifi_manager_json_status_update ntoa UPDATE_CONNECTION_OK st) (\<lambda>st.
                        thenC (LED_SetEventBit LED_EVENT_WIFI_CONNECTED_BIT)
                        (bindC (wifi_manager_save_sta_config st) (\<lambda>_.
                         bindC wifi_manager_check_connection (\<lambda>r.
                         thenC (if r = 1 then wm_clear WIFI_MANAGER_REQUEST_RECONNECT else start_reconnect_timer)
                           (ret st)))))
                   else bindC (wifi_manager_json_status_update ntoa UPDATE_FAILED_ATTEMPT st) (\<lambda>st.
                        thenC (LED_SetEventBit LED_EVENT_WIFI_DISCONNECTED_BIT)
                        (case config_sta st of
                           None \<Rightarrow> failC NullDeref
                         | Some _ \<Rightarrow>
                             thenC (wm_set WIFI_MANAGER_STA_DISCONNECT_BIT)
                               (ret (st\<lparr>config_sta := Some zero_sta\<rparr>)))))
             else thenC (wm_set WIFI_MANAGER_STA_DISCONNECT_BIT) (ret st)) (\<lambda>st.
      thenC (wm_clear WIFI_MANAGER_REQUEST_STA_CONNECT_BIT) (ret st))))"
      unfolding turn_connect_def connect_head_def connect_wait_def ..
  qed (unfold connect_wait_def, intro emits_intros; simp)
  obtain tr1 where 1: "connect_head u st e tr = Inr ((), tr1)" "rest e tr1 = Inr (st', tr')"
    using assms(1) unfolding def thenC_run [of "connect_head u st"] bindE_eq_Inr by auto
  obtain pre where "tr1 = tr @ pre @ [Wifi (WifiSetConfigSta (sta_ssid c) (sta_password c)), Wifi WifiConnect]"
    using connect_head_calls [OF 1(1) assms(2)] by blast
  moreover obtain post where "tr' = tr1 @ post" using rest 1(2) by (rule emitsE)
  ultimately show ?thesis by auto
qed

text \<open>A connection that is established stores the configuration.\<close>

lemma turn_connect_stores:
  assumes "turn_connect ntoa u st e tr = Inr (st', tr')" "wifi_live st" "config_sta st = Some c" "nvs_reliable e"
    and "\<And>tr. ans_bits e tr connect_wait AND WIFI_MANAGER_WIFI_CONNECTED_BIT \<noteq> 0"
  shows "sta_stored c (wifi_settings st) tr'"
proof -
  obtain cs where run: "bindC (bindC (wifi_manager_json_status_update ntoa UPDATE_CONNECTION_OK st) (\<lambda>st.
       thenC (LED_SetEventBit LED_EVENT_WIFI_CONNECTED_BIT)
       (bindC (wifi_manager_save_sta_config st) (\<lambda>_. bindC wifi_manager_check_connection (\<lambda>_. ret st)))))
     (\<lambda>st. thenC start_reconnect_timer (thenC (wm_clear WIFI_MANAGER_REQUEST_STA_CONNECT_BIT) (ret st)))
     e (tr @ cs @ [connect_wait]) = Inr (st', tr')"
    using assms(1,5) by (rule turn_connect_connected)
  let ?k = "\<lambda>st. bindC wifi_manager_check_connection (\<lambda>_. thenC start_reconnect_timer
      (thenC (wm_clear WIFI_MANAGER_REQUEST_STA_CONNECT_BIT) (ret st)))"
  obtain st1 tr1 where 1: "wifi_manager_json_status_update ntoa UPDATE_CONNECTION_OK st e (tr @ cs @ [connect_wait]) = Inr (st1, tr1)"
    "bindC (wifi_manager_save_sta_config st1) (\<lambda>_. ?k st1) e (tr1 @ [Rtos (EventGroupSetBits LedGroup LED_EVENT_WIFI_CONNECTED_BIT)]) = Inr (st', tr')"
    using run unfolding bindC_bindC thenC_def bindC_ret
    by (auto simp: bindC_run [of "wifi_manager_json_status_update _ _ _"] bindE_eq_Inr LED_SetEventBit_def bindC_run [of "doC _"] cmd_run)
  have "wifi_live st1" using status_update_live [OF assms(2)] 1(1) by (rule givesD)
  moreover have c: "config_sta st1 = Some c" "wifi_settings st1 = wifi_settings st"
    using givesD [OF status_update_config 1(1)] assms(3) by simp_all
  ultimately have ok: "wifi_ok st1" by (simp add: wifi_live_def)
  let ?tr2 = "(tr1 @ [Rtos (EventGroupSetBits LedGroup LED_EVENT_WIFI_CONNECTED_BIT)]) @ sta_saves c (wifi_settings st) @ [Sys NvsClose]"
  have "?k st1 e ?tr2 = Inr (st', tr')"
    using 1(2) save_sta_run [OF assms(4) ok c(1), of "tr1 @ [Rtos (EventGroupSetBits LedGroup LED_EVENT_WIFI_CONNECTED_BIT)]"] c(2)
    by (simp add: bindC_run [of "wifi_manager_save_sta_config _"])
  moreover have "emits (\<lambda>c. \<not> stores c) (?k st1)"
    unfolding wifi_manager_check_connection_def wifi_manager_connected_to_access_point_def wifi_manager_ping_test_def
      start_reconnect_timer_def wm_get_def wm_clear_def LED_SetEventBit_def Let_def
    by (intro emits_intros) (simp_all add: emits_intros)
  ultimately obtain es where es: "tr' = ?tr2 @ es" "no_set es" by (auto elim!: emitsE simp: no_set_stores)
  have stored: "sta_stored c (wifi_settings st1) ?tr2"
    using sta_stored_saves [OF ok c(1), of "tr1 @ [Rtos (EventGroupSetBits LedGroup LED_EVENT_WIFI_CONNECTED_BIT)]"] c(2) by simp
  show ?thesis using sta_stored_append [OF stored es(2)] es(1) c(2) by simp
qed

subsection \<open>From the form to the network\<close>

text \<open>
  C5: the network a user submits on the configuration page is the one the device joins, and the
  one it joins after its next start. Take any reachable state in which the Wi-Fi manager is up and
  a request to connect with a name and a password that fit their fields. Serving it always
  completes and asks the Wi-Fi task to connect. Whatever else runs until that task gets a turn,
  except another request or turn, a turn that serves the connection completes when the driver
  accepts its calls and the documents fit, and gives the driver exactly the submitted name and
  password, filled up with NULs, and connects. If the driver reports the
  connection and the flash store is reliable, the configuration is stored: as long as no other one
  is written, every later start finds exactly this network, and finds it worth connecting to when
  its name is not empty.
\<close>

theorem submitted_network_is_joined:
  fixes p s e tr name password
  defines "recv \<equiv> Net NetconnRecv" and "c \<equiv> credentials name password"
    and "wait \<equiv> Rtos (EventGroupWaitBits WifiGroup turn_mask False False None)"
  assumes reach: "reach p (\<lambda>_ _. True) e s tr" "scan_bounded e" "wifi_up s"
    and request: "ans_int e tr recv = 0" "submits (ans_bytes e tr recv) name password" "length name \<le> 32" "length password \<le> 64"
  shows "\<exists>s1 cs. run_task p HttpRequest s e tr = Inr (s1, tr @ cs) \<and>
    Rtos (EventGroupSetBits WifiGroup WIFI_MANAGER_REQUEST_STA_CONNECT_BIT) \<in> set cs \<and>
    (\<forall>s2 tr2. runs p (\<lambda>t. \<not> sets_config t) e s1 (tr @ cs) s2 tr2 \<and>
       ans_bits e tr2 wait AND WIFI_MANAGER_REQUEST_STA_CONNECT_BIT \<noteq> 0 \<and>
       ans_bits e tr2 wait AND WIFI_MANAGER_REQUEST_WIFI_DISCONNECT = 0 \<longrightarrow>
      (wifi_accepts (p_ntoa p) e \<and> scans_fit e \<and> name_fits (Some c) \<longrightarrow> (\<exists>s3 tr3. run_task p WifiTurn s2 e tr2 = Inr (s3, tr3))) \<and>
      (\<forall>s3 tr3. run_task p WifiTurn s2 e tr2 = Inr (s3, tr3) \<longrightarrow>
       (\<exists>pre post. tr3 = tr2 @ pre @ [Wifi (WifiSetConfigSta (sta_ssid c) (sta_password c)), Wifi WifiConnect] @ post) \<and>
       (nvs_reliable e \<and> (\<forall>tr. ans_bits e tr connect_wait AND WIFI_MANAGER_WIFI_CONNECTED_BIT \<noteq> 0) \<longrightarrow>
        (\<forall>ds st. no_set ds \<longrightarrow> (\<exists>settings es. wifi_manager_fetch_wifi_sta_config st e (tr3 @ ds) =
           Inr ((name \<noteq> [], st\<lparr>config_sta := Some c, wifi_settings := settings\<rparr>), tr3 @ ds @ es))))))"
proof -
  have live: "wifi_live (sys_wifi s)" using reach_system_ok [OF reach(1,2)] reach(3) by (simp add: system_ok_def)
  obtain st1 cs where st1: "http_server_netconn_serve (p_assets p) (sys_wifi s) e tr = Inr (st1, tr @ cs)" "config_sta st1 = Some c"
    and asked: "Rtos (EventGroupSetBits WifiGroup WIFI_MANAGER_REQUEST_STA_CONNECT_BIT) \<in> set cs"
    using submit_run [OF live request(1,2) [unfolded recv_def] request(3,4)] unfolding c_def by blast
  define s1 where "s1 = s\<lparr>sys_wifi := st1, wifi_up := True\<rparr>"
  have run1: "run_task p HttpRequest s e tr = Inr (s1, tr @ cs)"
    using st1(1) by (simp add: with_wifi_def bindC_run cmd_run s1_def)
  have reach1: "reach p (\<lambda>_ _. True) e s1 (tr @ cs)" using reach(1) _ _ run1 by (rule reach.step) (simp_all add: reach(3))
  have up1: "wifi_up s1" by (simp add: s1_def)
  have after: "(\<exists>pre post. tr3 = tr2 @ pre @ [Wifi (WifiSetConfigSta (sta_ssid c) (sta_password c)), Wifi WifiConnect] @ post) \<and>
      (nvs_reliable e \<and> (\<forall>tr. ans_bits e tr connect_wait AND WIFI_MANAGER_WIFI_CONNECTED_BIT \<noteq> 0) \<longrightarrow>
        (\<forall>ds st. no_set ds \<longrightarrow> (\<exists>settings es. wifi_manager_fetch_wifi_sta_config st e (tr3 @ ds) =
           Inr ((name \<noteq> [], st\<lparr>config_sta := Some c, wifi_settings := settings\<rparr>), tr3 @ ds @ es))))"
    if between: "runs p (\<lambda>t. \<not> sets_config t) e s1 (tr @ cs) s2 tr2" and run: "run_task p WifiTurn s2 e tr2 = Inr (s3, tr3)"
      and served: "ans_bits e tr2 wait AND WIFI_MANAGER_REQUEST_STA_CONNECT_BIT \<noteq> 0"
        "ans_bits e tr2 wait AND WIFI_MANAGER_REQUEST_WIFI_DISCONNECT = 0" for s2 tr2 s3 tr3
  proof -
    have c2: "config_sta (sys_wifi s2) = Some c" using runs_keep_config [OF between] st1(2) by (simp add: s1_def)
    have "system_ok s2" using runs_reach [OF between reach1] reach(2) by (rule reach_system_ok)
    then have live2: "wifi_live (sys_wifi s2)" using runs_stay_up [OF between up1] by (simp add: system_ok_def)
    from run obtain st3 where "wifi_manager_turn (p_ntoa p) (sys_wifi s2) e tr2 = Inr (st3, tr3)"
      by (auto simp: with_wifi_def bindC_run cmd_run bindE_eq_Inr)
    then obtain tr4 es where turn: "turn_connect (p_ntoa p) (ans_bits e tr2 wait) (sys_wifi s2) e (tr2 @ [wait]) = Inr (st3, tr4)"
      and tr3: "tr3 = tr4 @ es" "no_set es"
      using served by (rule turn_connects [OF _ refl wait_def [THEN meta_eq_to_obj_eq]])
    have calls: "\<exists>pre post. tr3 = tr2 @ pre @ [Wifi (WifiSetConfigSta (sta_ssid c) (sta_password c)), Wifi WifiConnect] @ post"
      using turn_connect_calls [OF turn c2] tr3(1) by (metis append.assoc)
    have named: "hd (sta_ssid c) \<noteq> nul \<longleftrightarrow> name \<noteq> []"
    proof -
      have "nul \<notin> set name" using request(2) header_value by (auto simp: submits_def split: option.splits)
      then show ?thesis by (cases name) (auto simp: c_def credentials_def padded_def)
    qed
    have "\<exists>settings es. wifi_manager_fetch_wifi_sta_config st e (tr3 @ ds) =
           Inr ((name \<noteq> [], st\<lparr>config_sta := Some c, wifi_settings := settings\<rparr>), tr3 @ ds @ es)"
      if "nvs_reliable e" "\<And>tr. ans_bits e tr connect_wait AND WIFI_MANAGER_WIFI_CONNECTED_BIT \<noteq> 0" "no_set ds" for ds st
    proof -
      have "sta_stored c (wifi_settings (sys_wifi s2)) tr4" using turn live2 c2 that(1,2) by (rule turn_connect_stores)
      then have "sta_stored c (wifi_settings (sys_wifi s2)) (tr3 @ ds)" using tr3 that(3) by (simp add: sta_stored_append)
      from fetch_sta_run [OF that(1) this, of st] show ?thesis unfolding named by auto
    qed
    with calls show ?thesis by blast
  qed
  have completes: "\<exists>s3 tr3. run_task p WifiTurn s2 e tr2 = Inr (s3, tr3)"
    if "runs p (\<lambda>t. \<not> sets_config t) e s1 (tr @ cs) s2 tr2" "wifi_accepts (p_ntoa p) e" "scans_fit e" "name_fits (Some c)" for s2 tr2
  proof -
    have up2: "wifi_up s2" using runs_stay_up [OF that(1) up1] .
    have reach2: "reach p (\<lambda>_ _. True) e s2 tr2" using runs_reach [OF that(1) reach1] .
    have "wifi_live (sys_wifi s2)" using reach_system_ok [OF reach2 reach(2)] up2 by (simp add: system_ok_def)
    moreover have "json_mutex (sys_wifi s2)" using reach2 that(2) up2 by (rule reach_mutex)
    moreover have "config_sta (sys_wifi s2) = Some c" using runs_keep_config [OF that(1)] st1(2) by (simp add: s1_def)
    ultimately have "can_serve (sys_wifi s2)" using that(4) by (simp add: can_serve_def)
    then show ?thesis
      using with_wifi_does [OF does_turn [OF that(2,3)], of "sys_wifi s2" s2] unfolding does_def run_task.simps by blast
  qed
  show ?thesis using run1 asked after completes by blast
qed

text \<open>A form, and a platform on which the station is connected and the task is asked to connect.\<close>

definition join_request :: string where
  "join_request = ''POST /connect.json HTTP/1.1'' @ [cr, lf] @ ''x-custom-ssid: home'' @ [cr, lf] @
     ''x-custom-pwd: secret'' @ [cr, lf]"

definition join_env :: env where
  "join_env = serving_env join_request (\<lambda>_. WIFI_MANAGER_REQUEST_STA_CONNECT_BIT OR WIFI_MANAGER_WIFI_CONNECTED_BIT)"

lemma join_submits: "submits join_request ''home'' ''secret''"
proof -
  have "strtok lf join_request = Some (''POST /connect.json HTTP/1.1'' @ [cr],
      ''x-custom-ssid: home'' @ [cr, lf] @ ''x-custom-pwd: secret'' @ [cr, lf])"
    by (simp add: join_request_def strtok_def)
  moreover have "is_post_connect (''POST /connect.json HTTP/1.1'' @ [cr])"
    by (simp add: is_post_connect_def prefix_def)
  ultimately show ?thesis by (simp add: submits_def http_server_get_header_def)
qed

theorem submitted_network_is_joined_witness:
  "\<exists>s tr s1 tr1 s2 tr2. reach demo_params (\<lambda>_ _. True) join_env s tr \<and>
     run_task demo_params HttpRequest s join_env tr = Inr (s1, tr1) \<and>
     run_task demo_params WifiTurn s1 join_env tr1 = Inr (s2, tr2) \<and>
     Wifi (WifiSetConfigSta (padded 32 ''home'') (padded 64 ''secret'')) \<in> set tr2 \<and>
     (\<exists>st' es. wifi_manager_fetch_wifi_sta_config wifi_state_init join_env tr2 = Inr ((True, st'), es) \<and>
        config_sta st' = Some (credentials ''home'' ''secret''))"
proof -
  let ?c = "credentials ''home'' ''secret''"
  obtain s tr where s: "reach demo_params (\<lambda>_ _. True) join_env s tr" "wifi_up s"
    using started_demo [of "\<lambda>_ _. True"] unfolding join_env_def by blast
  have bounded: "scan_bounded join_env" by (simp add: scan_bounded_def join_env_def)
  have request: "ans_int join_env tr (Net NetconnRecv) = 0" "submits (ans_bytes join_env tr (Net NetconnRecv)) ''home'' ''secret''"
    using join_submits by (simp_all add: join_env_def)
  have fits: "length ''home'' \<le> 32" "length ''secret'' \<le> 64" by simp_all
  have bits: "ans_bits join_env tr c AND WIFI_MANAGER_REQUEST_STA_CONNECT_BIT \<noteq> 0"
    "ans_bits join_env tr c AND WIFI_MANAGER_REQUEST_WIFI_DISCONNECT = 0"
    "ans_bits join_env tr c AND WIFI_MANAGER_WIFI_CONNECTED_BIT \<noteq> 0" for tr c by (simp_all add: join_env_def wifi_bits)
  have "json_escape ''home'' = ''home''" by code_simp
  then have documents: "name_fits (Some ?c)"
    by (simp add: name_fits_def credentials_def padded_def c_str_def)
  have platform: "wifi_accepts (p_ntoa demo_params) join_env" "scans_fit join_env" "nvs_reliable join_env"
    using serving_accepts serving_env_reliable by (simp_all add: join_env_def demo_params_def)
  from submitted_network_is_joined [OF s(1) bounded s(2) request fits] obtain s1 cs where
    s1: "run_task demo_params HttpRequest s join_env tr = Inr (s1, tr @ cs)" and
    joins: "\<forall>s2 tr2. runs demo_params (\<lambda>t. \<not> sets_config t) join_env s1 (tr @ cs) s2 tr2 \<longrightarrow>
      (\<exists>s3 tr3. run_task demo_params WifiTurn s2 join_env tr2 = Inr (s3, tr3)) \<and>
      (\<forall>s3 tr3. run_task demo_params WifiTurn s2 join_env tr2 = Inr (s3, tr3) \<longrightarrow>
        (\<exists>pre post. tr3 = tr2 @ pre @ [Wifi (WifiSetConfigSta (sta_ssid ?c) (sta_password ?c)), Wifi WifiConnect] @ post) \<and>
        (\<forall>ds st. no_set ds \<longrightarrow> (\<exists>settings es. wifi_manager_fetch_wifi_sta_config st join_env (tr3 @ ds) = Inr ((''home'' \<noteq> [],
           st\<lparr>config_sta := Some ?c, wifi_settings := settings\<rparr>), tr3 @ ds @ es))))"
    apply (elim exE conjE)
    apply (rule that, assumption)
    apply (simp only: bits platform documents simp_thms)
    done
  note turn = joins [THEN spec, THEN spec, THEN mp, OF runs.stop]
  from turn obtain s2 tr2 where run: "run_task demo_params WifiTurn s1 join_env (tr @ cs) = Inr (s2, tr2)" by blast
  note joined = turn [THEN conjunct2, THEN spec, THEN spec, THEN mp, OF run]
  obtain settings es where "wifi_manager_fetch_wifi_sta_config wifi_state_init join_env tr2 =
      Inr ((True, wifi_state_init\<lparr>config_sta := Some ?c, wifi_settings := settings\<rparr>), tr2 @ es)"
    using spec [OF spec [OF conjunct2 [OF joined], of "[]"], of wifi_state_init] by auto
  moreover have "Wifi (WifiSetConfigSta (padded 32 ''home'') (padded 64 ''secret'')) \<in> set tr2"
    using joined by (auto simp: credentials_def)
  ultimately show ?thesis
    using s(1) s1 run by fastforce
qed

end
