(* ===== verification/Measure.thy ===== *)
theory Measure
  imports Progress
begin

text \<open>
  Across the tasks: from what the sensors send over their serial lines to what the data task
  publishes, under any interleaving of the tasks.
\<close>

subsection \<open>Who changes the sensors' state\<close>






subsection \<open>What the sensors delivered\<close>








subsection \<open>What is published\<close>



subsection \<open>A run with a packet and a sentence\<close>

text \<open>The broker accepts the connection, then the sensor sends its packet and the receiver a position.\<close>

definition measure_env :: env where
  "measure_env = silent_env\<lparr>
     ans_int := (\<lambda>_ c. case c of Sys (Malloc _) \<Rightarrow> 1 | Uart (UartReadBytes _ n) \<Rightarrow> int n
       | Uart (UartPatternPopPos _) \<Rightarrow> int (length (gga_text gga_demo)) - 1 | _ \<Rightarrow> 0),
     ans_bytes := (\<lambda>_ c. case c of Sys EfuseMacGet \<Rightarrow> ''AIRQ-1'' | Io I2cCmdBegin \<Rightarrow> replicate 4 nul
       | Uart (UartReadBytes n _) \<Rightarrow>
           (if n = PM_UART_CH then map (\<lambda>b. char_of (unat b)) pm_demo_bytes else gga_text gga_demo) | _ \<Rightarrow> [])\<rparr>"



lemma measure_env_simps [simp]:
  "ans_bits measure_env tr c = 0" "ans_aps measure_env tr c = []" "ans_int measure_env tr (Sys (Malloc n)) = 1"
  "ans_int measure_env tr (Io i) = 0" "ans_int measure_env tr (Sys TimerGetTime) = 0" "ans_int measure_env tr (Sys NvsFlashInit) = 0"
  "ans_bytes measure_env tr (Sys EfuseMacGet) = ''AIRQ-1''" "ans_bytes measure_env tr (Io I2cCmdBegin) = replicate 4 nul"
  "ans_bytes measure_env tr (Web w) = []"
  "ans_bytes measure_env tr (Uart (UartReadBytes 2 n)) = map (\<lambda>b. char_of (unat b)) pm_demo_bytes"
  by (simp_all add: measure_env_def)










end
