(* ===== verification/Spec2Isabelle.thy ===== *)
theory Spec2Isabelle
  imports Json Pm ApFilter Hdc1080 Mics4514 Led TimeIf AppUtils Sd Upload WifiManager Gps HttpServer Ota Mqtt
    HttpClient GpsCommands GpsSentences Provider Registration Firmware WifiTypes System SystemMutex Update Progress Join Measure
begin

text \<open>
  A verification library for the firmware of the AirU air-quality sensor (\<open>main/*.c\<close>, C on the
  ESP-IDF and FreeRTOS).

  \<^bold>\<open>The program.\<close> \<open>app_main\<close> initialises the drivers and starts the tasks. The data task polls the
  sensors once a minute (particulate matter, temperature and humidity, gas, position), prints the
  readings into a packet, publishes it over MQTT and appends it to the file of the day on the SD
  card. The drivers of the PM sensor and of the GPS receiver run tasks of their own, which parse
  what arrives on their serial lines. The Wi-Fi manager keeps the device connected: it stores the
  configuration in flash, scans, connects, and hands JSON documents to the web server of the
  configuration page. The MQTT client connects whenever there is Internet access and takes commands,
  among them the one that makes the update task download and boot a new image. The tasks interact
  through event groups, one mutex each for the JSON documents and for the log file, and globals.

  \<^bold>\<open>How it is modelled.\<close> \<open>Prelude\<close> has the faults a C program can end in and the result type;
  \<open>CString\<close> the buffers of fixed size, whose bounds every write is checked against, and the part of
  the C string library in use; \<open>Fp\<close> floating point as exact rationals with the rounding of each
  operation. \<open>Platform\<close> is the boundary: FreeRTOS, the drivers, the flash store, sockets and the
  client libraries are not in the repository and are not defined. Every call across the boundary is
  a value of the type \<open>call\<close>; an operation is a command that makes calls, in the order of the code,
  and goes on with the answers of an environment, an arbitrary function of the calls made so far.
  What a property needs of the platform is a hypothesis on the environment that states what the
  platform documents; a witness shows for each such property an environment that satisfies it.
  \<open>Trace\<close> holds the rules for the calls a command makes, for commands that always return, and the
  interface \<open>resource\<close> of things acquired and given back, which the JSON mutex (\<open>WifiManager\<close>), the
  HTTP client (\<open>Ota\<close>) and sockets (\<open>HttpClient\<close>) interpret.

  Each module is a theory: its globals and static variables a record, its constants and functions
  definitions under their C names, tasks that loop for ever as a start and one turn (or one step per
  event). \<open>System\<close> puts them together: its record \<open>system\<close> has the globals of all modules from their
  static initialisers on, its type \<open>task\<close> names every task, timer and callback that works on them,
  \<open>run_task\<close> runs one step of one of them, and the inductive relation \<open>reach\<close> holds of every state,
  with the calls made so far, that some interleaving of these steps leads to. What is proved of
  \<open>reach\<close> holds whichever order the scheduler picks. A step is atomic except where another task can
  act in between, where it is split (\<open>mqtt_connect_start\<close>). Answers of calls inside a step are
  arbitrary, so the event bits and the clock may change under it.

  \<^bold>\<open>Theories and sources.\<close>
  \<^item> \<open>System\<close>, \<open>WifiTypes\<close>: the composition, and that every reachable state is well formed: buffers have
    their sizes, documents are allocated, names are terminated (C1).
  \<^item> \<open>Progress\<close>, \<open>WifiProgress\<close>, \<open>Registration\<close>, \<open>GpsSentences\<close>: every step of every task completes from
    every reachable state without a memory fault, and the conditions a step has, one clause of
    \<open>step_fits\<close> for each kind; two steps fault without memory (C2).
  \<^item> \<open>SystemMutex\<close>: the JSON mutex over everything the firmware does from its start (C3).
  \<^item> \<open>Update\<close>, \<open>Join\<close>, \<open>Measure\<close>: three requirements that run through several tasks: from an MQTT message
    to the image that is installed (C4), from the form on the configuration page to the network that
    is joined, now and after every later start (C5), and from what the sensors send to the readings
    that are published (C6); the last keeps, along a run, the samples and the position reported, as
    exact numbers.
  \<^item> \<open>Json\<close>: \<open>json.c\<close>. The escaping of strings, its two passes, and the round trip (C11, C12).
  \<^item> \<open>Pm\<close>: \<open>pm_if.c\<close>. The exact mean over every interleaving, and the checksum (C9, C21).
  \<^item> \<open>ApFilter\<close>: the in-place filter of scan results in \<open>wifi_manager.c\<close>, equal to a reference that
    merges a list (C13).
  \<^item> \<open>Hdc1080\<close>, \<open>Mics4514\<close>, \<open>Led\<close>, \<open>TimeIf\<close>, \<open>AppUtils\<close>: the modules of these names (C29 to C33,
    \<open>led_task_shows\<close>).
  \<^item> \<open>Sd\<close>: \<open>sd_if.c\<close>. Data files, the shared log file and its rotation (C34 to C36,
    \<open>log_rotation_loses_log\<close>).
  \<^item> \<open>Upload\<close>: \<open>http_file_upload.c\<close>. The chunked multipart upload, its decoding, status and
    termination (C10, C37, \<open>file_loop_never_ends\<close>).
  \<^item> \<open>WifiBits\<close>, \<open>WifiStore\<close>, \<open>WifiJson\<close>, \<open>WifiManager\<close>: the rest of \<open>wifi_manager.c\<close>: event bits, flash
    storage (C17, C38), JSON documents (C22 to C24, \<open>access_points_json_overruns\<close>), and the task (C14, C18, C28,
    \<open>wifi_manager_event_bits\<close>, \<open>wifi_manager_turn_mutex\<close>).
  \<^item> \<open>Gps\<close>: \<open>gps_if.c\<close>. The NMEA parser against the values of well-formed sentences, the checksum
    (C19, C20, C39, C40). \<open>GpsCommands\<close>: the commands of \<open>gps_if.h\<close>, each a sentence with the right
    checksum (\<open>pmtk_commands_framed\<close>).
  \<^item> \<open>HttpServer\<close>: \<open>http_server_if.c\<close>. The dispatch of requests, the mutex across every handler, the
    forms (C16, C25, C26), the look-up of the provider, and the handler of the HTTP client's events.
  \<^item> \<open>Ota\<close>: \<open>ota_if.c\<close>. The eight ways an update can end, with all its calls, and what is known of an
    image before the device boots from it (C7).
  \<^item> \<open>Mqtt\<close>: \<open>mqtt_if.c\<close>. Messages as commands (C15). \<open>Provider\<close>: what a new connection publishes of
    the provider's answer (C27).
  \<^item> \<open>HttpClient\<close>: \<open>http_client_if.c\<close>. The log-in over FTP, and the other event handler.
  \<^item> \<open>Firmware\<close>: \<open>main.c\<close>. Start-up, and the packets and where they go (C8).

  \<^bold>\<open>Bounds and fuel.\<close> Machine integers are words of their width where they can wrap; sizes of
  buffers are those of the headers. A loop without a bound of its own has fuel, and running out of
  it is the fault \<open>NoFuel\<close>, which the code does not have: the properties of such loops say how much
  is enough (\<open>Ota\<close>: one more than the reads the response takes; \<open>Upload\<close>: one more than the chunks of
  the file; \<open>Gps\<close>: one per character), or that none is (\<open>file_loop_never_ends\<close>,
  \<open>parse_long_sentence_hangs\<close>).

  \<^bold>\<open>Not modelled.\<close> Logging, except where a log line reads through a pointer that may be null; the files of the configuration page (HTML, JavaScript, CSS) and
  the certificate, which are linked in as data and are parameters; the build configuration, a
  parameter; the contents of uninitialised memory, which are arbitrary. Three calls (\<open>esp_wifi_set_config\<close>,
  \<open>esp_wifi_connect\<close>, \<open>esp_mqtt_client_start\<close>) stand in the arguments of log lines; they are modelled
  for the log level of the build, information. Floating point has no infinities, NaN or subnormal
  numbers, and every operation is rounded by itself (no fused multiply-add). The block of the scan
  records is taken to be there, and a scan to return no more of them than it is offered room for. Tasks are not pre-empted inside a step, so races on the unprotected globals are outside
  the model. What no task calls is modelled, but no step of
  \<open>System\<close>: the upload (\<open>http_file_upload.c\<close>), the FTP client, the end of the Wi-Fi task
  (\<open>wifi_manager_destroy\<close>) and single functions of the drivers. Nor are two tasks that touch no global: the
  accept loop around the requests (\<open>http_server\<close>) and the one that restarts the device every hour
  (\<open>panic_task\<close>): a run is what happens between two restarts.
\<close>

end
